(* ===== verification/Qoru_Prelude.thy ===== *)
theory Qoru_Prelude
  imports Main "HOL-Library.Word"
begin

text \<open>
  Shared vocabulary of the development: Go's bytes, strings, errors and results; the byte
  slices, buffers and big-endian helpers the codecs use; the \<open>io.Reader\<close> and
  \<open>io.Writer\<close> ends of a stream. Nothing here is specific to one package of qoru.

  \<^item> \<open>'a res\<close> is the outcome of a Go call: a value, an error, or a run-time panic (an
    index or slice expression out of range). Keeping the panic as a value lets the codecs
    be proved free of it.
  \<^item> \<open>go_error\<close> keeps an error as the code builds it: the format string, its arguments,
    the wrapped error. \<open>errors.Is\<close> and \<open>errors.As\<close> walk the chain of wrapped errors.
  \<^item> a Go string is a byte sequence, here a \<^typ>\<open>string\<close>; \<open>bytes_of\<close> and
    \<open>string_of\<close> are the conversions between \<open>string\<close> and \<open>[]byte\<close>.
\<close>

section \<open>Bytes and strings\<close>

type_synonym byte = "8 word"
type_synonym bytes = "8 word list"

definition byte_of_char :: "char \<Rightarrow> byte" where
  "byte_of_char c = word_of_nat (of_char c)"

definition char_of_byte :: "byte \<Rightarrow> char" where
  "char_of_byte b = char_of (unat b)"

definition bytes_of :: "string \<Rightarrow> bytes" where
  "bytes_of s = map byte_of_char s"

definition string_of :: "bytes \<Rightarrow> string" where
  "string_of bs = map char_of_byte bs"

text \<open>Decimal rendering, for \<open>%d\<close> inside a field label.\<close>

definition digit_char :: "nat \<Rightarrow> char" where
  "digit_char d = char_of (48 + d)"

fun show_nat :: "nat \<Rightarrow> string" where
  "show_nat n = (if n < 10 then [digit_char n] else show_nat (n div 10) @ [digit_char (n mod 10)])"

declare show_nat.simps [simp del]

named_theorems qoru_consts \<open>the numeric and string constants of the program\<close>
named_theorems codec_simps \<open>rewriting of slice and buffer operations on well-placed offsets\<close>

section \<open>Errors and results\<close>

datatype farg = FD int | FS string | FQ string

record CloseError =
  ce_Code :: byte
  ce_ConnectCode :: byte
  ce_Message :: string

record ConnectRejectedError =
  cr_Code :: byte
  cr_Message :: string

datatype go_error =
    ErrorsNew string
  | Errorf string "farg list"
  | ErrorfW string "farg list" go_error
  | ErrorfWV string go_error go_error
  | EOF
  | ErrUnexpectedEOF
  | LibError string
  | ErrClose CloseError
  | ErrRejected ConnectRejectedError
  | ErrPhase string go_error
  | ErrE2EConnect byte go_error
  | ErrReconnectBackoff string string int "go_error option"
  | ErrPeerReconnectBackoff string string int "go_error option"

text \<open>\<open>errors.Unwrap\<close>: the wrapped error, if any (only \<open>%w\<close> wraps, \<open>%v\<close> prints).\<close>

fun errUnwrap :: "go_error \<Rightarrow> go_error option" where
  "errUnwrap (ErrorfW _ _ e) = Some e"
| "errUnwrap (ErrorfWV _ e _) = Some e"
| "errUnwrap (ErrPhase _ e) = Some e"
| "errUnwrap (ErrE2EConnect _ e) = Some e"
| "errUnwrap (ErrReconnectBackoff _ _ _ oe) = oe"
| "errUnwrap (ErrPeerReconnectBackoff _ _ _ oe) = oe"
| "errUnwrap _ = None"

fun errChain :: "go_error \<Rightarrow> go_error list" where
  "errChain (ErrorfW f a e) = ErrorfW f a e # errChain e"
| "errChain (ErrorfWV f e v) = ErrorfWV f e v # errChain e"
| "errChain (ErrPhase p e) = ErrPhase p e # errChain e"
| "errChain (ErrE2EConnect c e) = ErrE2EConnect c e # errChain e"
| "errChain (ErrReconnectBackoff i a t (Some e)) = ErrReconnectBackoff i a t (Some e) # errChain e"
| "errChain (ErrPeerReconnectBackoff i a t (Some e)) = ErrPeerReconnectBackoff i a t (Some e) # errChain e"
| "errChain e = [e]"

definition errorsIs :: "go_error \<Rightarrow> go_error \<Rightarrow> bool" where
  "errorsIs e target = (target \<in> set (errChain e))"

text \<open>\<open>errors.As\<close> with a target type: the first error of the chain that has it.\<close>

fun firstSome :: "('a \<Rightarrow> 'b option) \<Rightarrow> 'a list \<Rightarrow> 'b option" where
  "firstSome f [] = None"
| "firstSome f (x # xs) = (case f x of Some y \<Rightarrow> Some y | None \<Rightarrow> firstSome f xs)"

definition errorsAs :: "(go_error \<Rightarrow> 'b option) \<Rightarrow> go_error \<Rightarrow> 'b option" where
  "errorsAs f e = firstSome f (errChain e)"

datatype 'a res = Ok 'a | Err go_error | Panic

primrec bindR :: "'a res \<Rightarrow> ('a \<Rightarrow> 'b res) \<Rightarrow> 'b res" where
  "bindR (Ok x) f = f x"
| "bindR (Err e) f = Err e"
| "bindR Panic f = Panic"

text \<open>The pattern \<^verbatim>\<open>if err != nil { return fmt.Errorf("...: %w", err) }\<close>.\<close>

primrec wrapErr :: "(go_error \<Rightarrow> go_error) \<Rightarrow> 'a res \<Rightarrow> 'a res" where
  "wrapErr h (Ok x) = Ok x"
| "wrapErr h (Err e) = Err (h e)"
| "wrapErr h Panic = Panic"

primrec is_Ok :: "'a res \<Rightarrow> bool" where
  "is_Ok (Ok x) = True"
| "is_Ok (Err e) = False"
| "is_Ok Panic = False"

text \<open>A call that leaves a new state next to its outcome, followed by a pure step.\<close>

definition thenPure :: "'a res \<times> 's \<Rightarrow> ('a \<Rightarrow> 'b res) \<Rightarrow> 'b res \<times> 's" where
  "thenPure p f = (bindR (fst p) f, snd p)"

text \<open>Sequencing over a threaded state: a pure step first, or a call that changes the state.\<close>

definition pureThen :: "'a res \<Rightarrow> 's \<Rightarrow> ('a \<Rightarrow> 'b res \<times> 's) \<Rightarrow> 'b res \<times> 's" where
  "pureThen m s f = (case m of Ok x \<Rightarrow> f x | Err e \<Rightarrow> (Err e, s) | Panic \<Rightarrow> (Panic, s))"

definition seqR :: "'a res \<times> 's \<Rightarrow> ('a \<Rightarrow> 's \<Rightarrow> 'b res \<times> 's) \<Rightarrow> 'b res \<times> 's" where
  "seqR p f = (case p of (Ok x, s) \<Rightarrow> f x s | (Err e, s) \<Rightarrow> (Err e, s) | (Panic, s) \<Rightarrow> (Panic, s))"

text \<open>
  A \<open>for i, x := range xs\<close> loop that ends at the first error; the second form carries the
  variables the loop updates.
\<close>

fun forEach :: "(nat \<Rightarrow> 'a \<Rightarrow> unit res) \<Rightarrow> nat \<Rightarrow> 'a list \<Rightarrow> unit res" where
  "forEach f i [] = Ok ()"
| "forEach f i (x # xs) = bindR (f i x) (\<lambda>_. forEach f (Suc i) xs)"

fun foldEach :: "(nat \<Rightarrow> 'a \<Rightarrow> 's \<Rightarrow> 's res) \<Rightarrow> nat \<Rightarrow> 'a list \<Rightarrow> 's \<Rightarrow> 's res" where
  "foldEach f i [] s = Ok s"
| "foldEach f i (x # xs) s = bindR (f i x s) (\<lambda>s. foldEach f (Suc i) xs s)"

text \<open>\<open>strings.HasPrefix\<close> and \<open>strings.TrimPrefix\<close>.\<close>

definition hasPrefix :: "string \<Rightarrow> string \<Rightarrow> bool" where
  "hasPrefix s p = (take (length p) s = p)"

definition trimPrefix :: "string \<Rightarrow> string \<Rightarrow> string" where
  "trimPrefix s p = (if hasPrefix s p then drop (length p) s else s)"

section \<open>Slices\<close>

definition byteAt :: "bytes \<Rightarrow> nat \<Rightarrow> byte res" where
  "byteAt p i = (if i < length p then Ok (p ! i) else Panic)"

definition slice :: "bytes \<Rightarrow> nat \<Rightarrow> nat \<Rightarrow> bytes res" where
  "slice p i j = (if i \<le> j \<and> j \<le> length p then Ok (take (j - i) (drop i p)) else Panic)"

definition sliceFrom :: "bytes \<Rightarrow> nat \<Rightarrow> bytes res" where
  "sliceFrom p i = slice p i (length p)"

text \<open>
  \<open>cursor p off xs\<close>: the slice \<open>p[off:]\<close> exists and is \<open>xs\<close>. The decoders walk a
  payload by offset; their proofs walk the remaining bytes.
\<close>

definition cursor :: "bytes \<Rightarrow> nat \<Rightarrow> bytes \<Rightarrow> bool" where
  "cursor p off xs \<longleftrightarrow> off \<le> length p \<and> drop off p = xs"

section \<open>Big-endian integers\<close>

text \<open>\<open>binary.BigEndian.PutUint16(_, uint16(n))\<close>: the two low bytes, so \<open>n\<close> is truncated.\<close>

definition be16 :: "nat \<Rightarrow> bytes" where
  "be16 n = [word_of_nat (n div 256), word_of_nat n]"

definition be32 :: "nat \<Rightarrow> bytes" where
  "be32 n = [word_of_nat (n div 16777216), word_of_nat (n div 65536), word_of_nat (n div 256), word_of_nat n]"

definition be64 :: "64 word \<Rightarrow> bytes" where
  "be64 v = be32 (unat v div 4294967296) @ be32 (unat v)"

definition getUint16 :: "bytes \<Rightarrow> nat res" where
  "getUint16 bs = (if 2 \<le> length bs then Ok (unat (bs ! 0) * 256 + unat (bs ! 1)) else Panic)"

definition uint16At :: "bytes \<Rightarrow> nat \<Rightarrow> nat res" where
  "uint16At p off = bindR (slice p off (off + 2)) getUint16"

section \<open>Fixed-size buffers\<close>

text \<open>
  \<open>make([]byte, n)\<close> is \<open>replicate n 0\<close>; the code fills it in place. \<open>copy(buf[off:], src)\<close>
  panics only when \<open>off\<close> is past the end and otherwise copies what fits.
\<close>

definition copyAt :: "bytes \<Rightarrow> nat \<Rightarrow> bytes \<Rightarrow> bytes res" where
  "copyAt buf off src =
     (if off \<le> length buf
      then Ok (take off buf @ take (length buf - off) src @ drop (off + length src) buf)
      else Panic)"

definition putByteAt :: "bytes \<Rightarrow> nat \<Rightarrow> byte \<Rightarrow> bytes res" where
  "putByteAt buf off b = (if off < length buf then Ok (buf[off := b]) else Panic)"

definition putUint16At :: "bytes \<Rightarrow> nat \<Rightarrow> nat \<Rightarrow> bytes res" where
  "putUint16At buf off n =
     (if off + 2 \<le> length buf then Ok (take off buf @ be16 n @ drop (off + 2) buf) else Panic)"

text \<open>A buffer whose first part is written and whose rest is still zero.\<close>

definition wbuf :: "bytes \<Rightarrow> nat \<Rightarrow> bytes" where
  "wbuf xs m = xs @ replicate m 0"

section \<open>Streams\<close>

text \<open>
  The reading end of a connection: the bytes that will arrive and the error that ends them
  (\<open>EOF\<close> after a clean close). \<open>io.ReadFull\<close> hides how they are chunked.
\<close>

record istream =
  is_data :: bytes
  is_end :: go_error

definition ReadFull :: "istream \<Rightarrow> nat \<Rightarrow> bytes res \<times> istream" where
  "ReadFull r n =
     (if n \<le> length (is_data r)
      then (Ok (take n (is_data r)), r\<lparr>is_data := drop n (is_data r)\<rparr>)
      else (Err (if is_data r \<noteq> [] \<and> is_end r = EOF then ErrUnexpectedEOF else is_end r),
            r\<lparr>is_data := []\<rparr>))"

text \<open>
  The writing end: the bytes accepted so far and what the next \<open>Write\<close> calls do. A call
  either takes all its bytes or takes a prefix and returns an error.
\<close>

datatype wr_outcome = WrOk | WrFail nat go_error

record ostream =
  os_data :: bytes
  os_script :: "wr_outcome list"

definition streamWrite :: "ostream \<Rightarrow> bytes \<Rightarrow> unit res \<times> ostream" where
  "streamWrite w p =
     (case os_script w of
        [] \<Rightarrow> (Ok (), w\<lparr>os_data := os_data w @ p\<rparr>)
      | WrOk # s \<Rightarrow> (Ok (), w\<lparr>os_data := os_data w @ p, os_script := s\<rparr>)
      | WrFail n e # s \<Rightarrow> (Err e, w\<lparr>os_data := os_data w @ take n p, os_script := s\<rparr>))"

text \<open>A sink that never fails.\<close>

abbreviation reliable :: "ostream \<Rightarrow> bool" where
  "reliable w \<equiv> os_script w = []"

section \<open>Lemmas\<close>

subsection \<open>Bytes and strings\<close>

lemma unat_byte_less: "unat (b :: byte) < 256"
  using unsigned_less [of b, where ?'a = nat] by simp

lemma unat_byte_of_nat: "n < 256 \<Longrightarrow> unat (word_of_nat n :: byte) = n"
  by (simp add: unat_of_nat take_bit_nat_eq_self)

lemma char_of_byte_of_char [simp]: "char_of_byte (byte_of_char c) = c"
  by (simp add: char_of_byte_def byte_of_char_def unat_of_nat)

lemma byte_of_char_of_byte [simp]: "byte_of_char (char_of_byte b) = b"
  using unat_byte_less [of b] by (simp add: char_of_byte_def byte_of_char_def)

lemma string_of_bytes_of [simp]: "string_of (bytes_of s) = s"
  by (simp add: string_of_def bytes_of_def comp_def)

lemma bytes_of_string_of [simp]: "bytes_of (string_of b) = b"
  by (simp add: string_of_def bytes_of_def comp_def)

lemma length_bytes_of [simp]: "length (bytes_of s) = length s"
  by (simp add: bytes_of_def)

lemma length_string_of [simp]: "length (string_of b) = length b"
  by (simp add: string_of_def)

lemma bytes_of_eq_Nil [simp]: "bytes_of s = [] \<longleftrightarrow> s = []"
  by (simp add: bytes_of_def)

lemma string_of_eq_Nil [simp]: "string_of b = [] \<longleftrightarrow> b = []"
  by (simp add: string_of_def)

lemma bytes_of_inject [simp]: "bytes_of s = bytes_of t \<longleftrightarrow> s = t"
  by (metis string_of_bytes_of)

lemma string_of_inject [simp]: "string_of a = string_of b \<longleftrightarrow> a = b"
  by (metis bytes_of_string_of)

subsection \<open>Results\<close>

lemma bindR_eq_Ok: "bindR m f = Ok y \<longleftrightarrow> (\<exists>x. m = Ok x \<and> f x = Ok y)"
  by (cases m) auto

lemma bindR_eq_Err: "bindR m f = Err e \<longleftrightarrow> m = Err e \<or> (\<exists>x. m = Ok x \<and> f x = Err e)"
  by (cases m) auto

lemma bindR_eq_Panic: "bindR m f = Panic \<longleftrightarrow> m = Panic \<or> (\<exists>x. m = Ok x \<and> f x = Panic)"
  by (cases m) auto

text \<open>Introduction rules for the absence of panics.\<close>

lemma bindR_no_Panic: "m \<noteq> Panic \<Longrightarrow> (\<And>x. m = Ok x \<Longrightarrow> f x \<noteq> Panic) \<Longrightarrow> bindR m f \<noteq> Panic"
  by (cases m) auto

lemma if_no_Panic: "(b \<Longrightarrow> m \<noteq> Panic) \<Longrightarrow> (\<not> b \<Longrightarrow> m' \<noteq> Panic) \<Longrightarrow> (if b then m else m') \<noteq> Panic"
  by simp

lemma Ok_no_Panic: "Ok x \<noteq> Panic" "Err e \<noteq> Panic"
  by simp_all

lemma wrapErr_no_Panic: "m \<noteq> Panic \<Longrightarrow> wrapErr h m \<noteq> Panic"
  by (cases m) auto

lemmas no_Panic_intros = bindR_no_Panic if_no_Panic Ok_no_Panic wrapErr_no_Panic

lemmas bindR_eqs = bindR_eq_Ok bindR_eq_Err bindR_eq_Panic

lemma wrapErr_eq_Ok [simp]: "wrapErr h m = Ok x \<longleftrightarrow> m = Ok x"
  by (cases m) auto

lemma wrapErr_eq_Panic [simp]: "wrapErr h m = Panic \<longleftrightarrow> m = Panic"
  by (cases m) auto

lemma wrapErr_eq_Err: "wrapErr h m = Err e \<longleftrightarrow> (\<exists>e'. m = Err e' \<and> e = h e')"
  by (cases m) auto

lemma bindR_assoc: "bindR (bindR m f) g = bindR m (\<lambda>x. bindR (f x) g)"
  by (cases m) auto

lemma bindR_Ok [simp]: "bindR m Ok = m"
  by (cases m) auto

lemma is_Ok_iff: "is_Ok m \<longleftrightarrow> (\<exists>x. m = Ok x)"
  by (cases m) auto

lemma fst_thenPure [simp]: "fst (thenPure p f) = bindR (fst p) f"
  by (simp add: thenPure_def)

lemma snd_thenPure [simp]: "snd (thenPure p f) = snd p"
  by (simp add: thenPure_def)

lemma thenPure_simps [simp]:
  "thenPure (Ok x, s) f = (f x, s)" "thenPure (Err e, s) f = (Err e, s)"
  "thenPure (Panic, s) f = (Panic, s)"
  by (simp_all add: thenPure_def)

lemma pureThen_simps [simp]:
  "pureThen (Ok x) s f = f x" "pureThen (Err e) s f = (Err e, s)" "pureThen Panic s f = (Panic, s)"
  by (simp_all add: pureThen_def)

lemma seqR_simps [simp]:
  "seqR (Ok x, s) f = f x s" "seqR (Err e, s) f = (Err e, s)" "seqR (Panic, s) f = (Panic, s)"
  by (simp_all add: seqR_def)

lemma fst_pureThen_Panic:
  "fst (pureThen m s f) = Panic \<longleftrightarrow> m = Panic \<or> (\<exists>x. m = Ok x \<and> fst (f x) = Panic)"
  by (cases m) auto

lemma fst_seqR_Panic:
  "fst (seqR p f) = Panic \<longleftrightarrow> fst p = Panic \<or> (\<exists>x. fst p = Ok x \<and> fst (f x (snd p)) = Panic)"
  by (cases p; cases "fst p") auto

lemma forEach_Ok: "forEach f i xs = Ok () \<longleftrightarrow> (\<forall>j<length xs. f (i + j) (xs ! j) = Ok ())"
proof (induction xs arbitrary: i)
  case (Cons x xs)
  have "(\<forall>j<length (x # xs). f (i + j) ((x # xs) ! j) = Ok ()) \<longleftrightarrow>
      f i x = Ok () \<and> (\<forall>j<length xs. f (Suc i + j) (xs ! j) = Ok ())"
    by (auto simp: less_Suc_eq_0_disj)
  then show ?case
    by (auto simp: bindR_eq_Ok Cons.IH)
qed simp

lemma forEach_all: "forEach f i xs = Ok () \<Longrightarrow> x \<in> set xs \<Longrightarrow> \<exists>j. f j x = Ok ()"
  by (auto simp: forEach_Ok in_set_conv_nth)

lemma forEach_ne_Panic: "(\<And>i x. x \<in> set xs \<Longrightarrow> f i x \<noteq> Panic) \<Longrightarrow> forEach f i xs \<noteq> Panic"
  by (induction xs arbitrary: i) (auto simp: bindR_eq_Panic)

lemma foldEach_ne_Panic: "(\<And>i x s. x \<in> set xs \<Longrightarrow> f i x s \<noteq> Panic) \<Longrightarrow> foldEach f i xs s \<noteq> Panic"
  by (induction xs arbitrary: i s) (auto simp: bindR_eq_Panic)

lemma hasPrefix_iff: "hasPrefix s p \<longleftrightarrow> (\<exists>t. s = p @ t)"
  unfolding hasPrefix_def by (metis append_eq_conv_conj append_take_drop_id)

lemma trimPrefix_append [simp]: "trimPrefix (p @ t) p = t"
  by (simp add: trimPrefix_def hasPrefix_def)

lemma errChain_head: "\<exists>es. errChain e = e # es"
  by (cases e rule: errChain.cases) auto

lemma errorsIs_refl [simp]: "errorsIs e e"
  using errChain_head [of e] by (auto simp: errorsIs_def)

subsection \<open>Slices and big-endian integers\<close>

lemma length_be16 [simp]: "length (be16 n) = 2"
  by (simp add: be16_def)

lemma length_be32 [simp]: "length (be32 n) = 4"
  by (simp add: be32_def)

lemma getUint16_be16: "n < 65536 \<Longrightarrow> getUint16 (be16 n) = Ok n"
  by (simp add: getUint16_def be16_def unat_of_nat take_bit_eq_mod)

lemma getUint16_less: "getUint16 bs = Ok n \<Longrightarrow> n < 65536"
  using unat_byte_less [of "bs ! 0"] unat_byte_less [of "bs ! 1"]
  by (auto simp: getUint16_def split: if_splits)

lemma be16_getUint16: "length bs = 2 \<Longrightarrow> getUint16 bs = Ok n \<Longrightarrow> be16 n = bs"
proof -
  assume "length bs = 2" and n: "getUint16 bs = Ok n"
  then obtain x y where bs: "bs = [x, y]"
    by (auto simp: length_Suc_conv numeral_2_eq_2)
  have z: "(256 :: byte) = 0"
    by simp
  show ?thesis
    using n unat_byte_less [of x] unat_byte_less [of y]
    by (auto simp: bs getUint16_def be16_def z)
qed

lemma be16_inject: "m < 65536 \<Longrightarrow> n < 65536 \<Longrightarrow> be16 m = be16 n \<Longrightarrow> m = n"
  by (metis getUint16_be16 res.inject(1))

lemma byte_digits_eq:
  "m div 256 = n div 256 \<Longrightarrow> m mod 256 = n mod 256 \<Longrightarrow> m = (n :: nat)"
  by (metis div_mult_mod_eq)

lemma be32_inject:
  assumes m: "m < 4294967296" and n: "n < 4294967296" and eq: "be32 m = be32 n"
  shows "m = n"
proof -
  have u: "unat (word_of_nat k :: byte) = k mod 256" for k
    by (simp add: unat_of_nat take_bit_eq_mod)
  from eq have d: "m div 16777216 mod 256 = n div 16777216 mod 256"
    "m div 65536 mod 256 = n div 65536 mod 256" "m div 256 mod 256 = n div 256 mod 256"
    "m mod 256 = n mod 256"
    by (simp_all only: be32_def list.inject u [symmetric])
  have "m div 16777216 = n div 16777216"
    using d(1) m n by (simp add: less_mult_imp_div_less)
  then have "m div 65536 div 256 = n div 65536 div 256"
    by (simp add: div_mult2_eq [symmetric])
  with d(2) have "m div 65536 = n div 65536"
    by (rule byte_digits_eq [rotated])
  then have "m div 256 div 256 = n div 256 div 256"
    by (simp add: div_mult2_eq [symmetric])
  with d(3) have "m div 256 = n div 256"
    by (rule byte_digits_eq [rotated])
  with d(4) show ?thesis
    by (rule byte_digits_eq [rotated])
qed

lemma mod_mult_div: "0 < a \<Longrightarrow> n mod (a * b) div a = n div a mod (b :: nat)"
  by (simp add: mod_mult2_eq)

lemma be32_mod: "be32 (n mod 4294967296) = be32 n"
proof -
  have "n mod 4294967296 div 16777216 mod 256 = n div 16777216 mod 256"
    using mod_mult_div [of 16777216 n 256] by simp
  moreover have "n mod 4294967296 div 65536 mod 256 = n div 65536 mod 256"
    using mod_mult_div [of 65536 n 65536] by (simp add: mod_mod_cancel)
  moreover have "n mod 4294967296 div 256 mod 256 = n div 256 mod 256"
    using mod_mult_div [of 256 n 16777216] by (simp add: mod_mod_cancel)
  moreover have "n mod 4294967296 mod 256 = n mod 256"
    by (simp add: mod_mod_cancel)
  moreover have "word_of_nat k = (word_of_nat (k mod 256) :: byte)" for k
    by (simp add: word_of_nat_eq_iff take_bit_eq_mod)
  ultimately show ?thesis
    unfolding be32_def by metis
qed

lemma length_be64 [simp]: "length (be64 v) = 8"
  by (simp add: be64_def)

lemma be64_inject: "be64 v = be64 w \<Longrightarrow> v = w"
proof -
  assume "be64 v = be64 w"
  then have hi: "be32 (unat v div 4294967296) = be32 (unat w div 4294967296)"
    and lo: "be32 (unat v mod 4294967296) = be32 (unat w mod 4294967296)"
    by (simp_all add: be64_def be32_mod)
  have lt: "unat x < 18446744073709551616" for x :: "64 word"
    using unsigned_less [of x, where ?'a = nat] by simp
  have "unat v div 4294967296 = unat w div 4294967296"
    using lt [of v] lt [of w] by (intro be32_inject [OF _ _ hi]) simp_all
  moreover have "unat v mod 4294967296 = unat w mod 4294967296"
    by (intro be32_inject [OF _ _ lo]) simp_all
  ultimately have "unat v = unat w"
    by (metis div_mult_mod_eq)
  then show "v = w" by (simp add: unsigned_word_eqI)
qed

lemma byteAt_append [codec_simps]: "i = length xs \<Longrightarrow> byteAt (xs @ b # ys) i = Ok b"
  by (simp add: byteAt_def)

lemma byteAt_ne_Panic [simp]: "byteAt p i = Panic \<longleftrightarrow> length p \<le> i"
  by (auto simp: byteAt_def)

lemma byteAt_ne_Err [simp]: "byteAt p i \<noteq> Err e"
  by (auto simp: byteAt_def)

lemma slice_ne_Err [simp]: "slice p i j \<noteq> Err e"
  by (auto simp: slice_def)

lemma slice_eq_Panic [simp]: "slice p i j = Panic \<longleftrightarrow> \<not> (i \<le> j \<and> j \<le> length p)"
  by (auto simp: slice_def)

lemma slice_append [codec_simps]:
  "i = length xs \<Longrightarrow> j = length xs + length ys \<Longrightarrow> slice (xs @ ys @ zs) i j = Ok ys"
  by (simp add: slice_def)

lemma sliceFrom_append [codec_simps]: "i = length xs \<Longrightarrow> sliceFrom (xs @ ys) i = Ok ys"
  by (simp add: sliceFrom_def slice_def)

lemma sliceFrom_eq [simp]: "i \<le> length p \<Longrightarrow> sliceFrom p i = Ok (drop i p)"
  by (simp add: sliceFrom_def slice_def)

lemma slice_length: "slice p i j = Ok bs \<Longrightarrow> length bs = j - i"
  by (auto simp: slice_def split: if_splits)

lemma uint16At_eq_Panic [simp]: "uint16At p off = Panic \<longleftrightarrow> length p < off + 2"
  by (auto simp: uint16At_def bindR_eqs getUint16_def slice_def split: if_splits)

lemma uint16At_ne_Err [simp]: "uint16At p off \<noteq> Err e"
  by (auto simp: uint16At_def bindR_eqs getUint16_def)

lemma uint16At_append [codec_simps]:
  "off = length xs \<Longrightarrow> n < 65536 \<Longrightarrow> uint16At (xs @ be16 n @ ys) off = Ok n"
  by (simp add: uint16At_def slice_append getUint16_be16)

lemma uint16At_less: "uint16At p off = Ok n \<Longrightarrow> n < 65536"
  by (auto simp: uint16At_def bindR_eqs dest: getUint16_less)

subsection \<open>Cursors\<close>

lemma cursor_start: "cursor p 0 p"
  by (simp add: cursor_def)

lemma cursor_length: "cursor p off xs \<Longrightarrow> length p = off + length xs"
  by (auto simp: cursor_def)

lemma cursor_drop: "cursor p off xs \<Longrightarrow> drop off p = xs"
  by (simp add: cursor_def)

lemma cursor_adv: "cursor p off (ys @ rest) \<Longrightarrow> off' = off + length ys \<Longrightarrow> cursor p off' rest"
proof -
  assume c: "cursor p off (ys @ rest)" and off': "off' = off + length ys"
  from c have "off' \<le> length p"
    using cursor_length [OF c] off' by simp
  moreover have "drop off' p = drop (length ys) (drop off p)"
    by (simp add: off' drop_drop add.commute)
  ultimately show ?thesis using c by (simp del: drop_drop add: cursor_def)
qed

lemma cursor_adv1: "cursor p off (b # rest) \<Longrightarrow> off' = off + 1 \<Longrightarrow> cursor p off' rest"
  using cursor_adv [of p off "[b]" rest off'] by simp

lemma cursor_adv_field8:
  "cursor p off (b # ys @ rest) \<Longrightarrow> off' = off + (1 + length ys) \<Longrightarrow> cursor p off' rest"
  using cursor_adv [of p off "b # ys" rest off'] by simp

lemma cursor_adv_field16:
  "cursor p off (be16 n @ ys @ rest) \<Longrightarrow> off' = off + (2 + length ys) \<Longrightarrow> cursor p off' rest"
  using cursor_adv [of p off "be16 n @ ys" rest off'] by simp

lemma cursor_byteAt: "cursor p off (b # rest) \<Longrightarrow> byteAt p off = Ok b"
  by (auto simp: cursor_def byteAt_def hd_drop_conv_nth [symmetric] not_less)

lemma cursor_slice:
  "cursor p off (ys @ rest) \<Longrightarrow> j = off + length ys \<Longrightarrow> slice p off j = Ok ys"
  using cursor_length [of p off "ys @ rest"] by (simp add: slice_def cursor_drop)

lemma cursor_sliceFrom: "cursor p off xs \<Longrightarrow> sliceFrom p off = Ok xs"
  by (simp add: cursor_def)

lemma cursor_uint16At: "cursor p off (be16 n @ rest) \<Longrightarrow> n < 65536 \<Longrightarrow> uint16At p off = Ok n"
  by (simp add: uint16At_def cursor_slice getUint16_be16)

text \<open>The converse direction: what a successful read says about the remaining bytes.\<close>

lemma byteAt_cursor:
  "byteAt p off = Ok b \<Longrightarrow> cursor p off (b # drop (off + 1) p)"
  by (auto simp: cursor_def byteAt_def Cons_nth_drop_Suc split: if_splits)

lemma uint16At_cursor:
  "uint16At p off = Ok n \<Longrightarrow> cursor p off (be16 n @ drop (off + 2) p)"
proof -
  assume n: "uint16At p off = Ok n"
  then have len: "off + 2 \<le> length p"
    by (metis not_less res.distinct(3) uint16At_eq_Panic)
  with n have "be16 n = take 2 (drop off p)"
    by (intro be16_getUint16) (auto simp: uint16At_def bindR_eqs slice_def)
  then have "drop off p = be16 n @ drop (off + 2) p"
    by (metis append_take_drop_id drop_drop add.commute)
  with len show ?thesis by (simp add: cursor_def)
qed

lemma slice_cursor:
  "slice p i j = Ok bs \<Longrightarrow> cursor p i (bs @ drop j p)"
  by (auto simp: slice_def cursor_def split: if_splits)
    (metis append_take_drop_id drop_drop le_add_diff_inverse2)

subsection \<open>Filling a buffer\<close>

lemma replicate_wbuf: "replicate n 0 = wbuf [] n"
  by (simp add: wbuf_def)

lemma wbuf_full [simp]: "wbuf xs 0 = xs"
  by (simp add: wbuf_def)

lemma length_wbuf [simp]: "length (wbuf xs m) = length xs + m"
  by (simp add: wbuf_def)

lemma wbuf_zero: "0 < m \<Longrightarrow> wbuf xs m = wbuf (xs @ [0]) (m - 1)"
  by (cases m) (simp_all add: wbuf_def)

lemma copyAt_wbuf [codec_simps]:
  "off = length xs \<Longrightarrow> length src \<le> m \<Longrightarrow>
   copyAt (wbuf xs m) off src = Ok (wbuf (xs @ src) (m - length src))"
  by (simp add: copyAt_def wbuf_def)

lemma putByteAt_wbuf [codec_simps]:
  "off = length xs \<Longrightarrow> 0 < m \<Longrightarrow> putByteAt (wbuf xs m) off b = Ok (wbuf (xs @ [b]) (m - 1))"
  by (cases m) (simp_all add: putByteAt_def wbuf_def)

lemma putUint16At_wbuf [codec_simps]:
  "off = length xs \<Longrightarrow> 2 \<le> m \<Longrightarrow>
   putUint16At (wbuf xs m) off n = Ok (wbuf (xs @ be16 n) (m - 2))"
  by (simp add: putUint16At_def wbuf_def)

subsection \<open>Streams\<close>

lemma ReadFull_append [codec_simps]:
  "n = length xs \<Longrightarrow>
   ReadFull \<lparr>is_data = xs @ ys, is_end = e\<rparr> n = (Ok xs, \<lparr>is_data = ys, is_end = e\<rparr>)"
  by (simp add: ReadFull_def)

lemma ReadFull_ne_Panic [simp]: "fst (ReadFull r n) \<noteq> Panic"
  by (simp add: ReadFull_def)

lemma ReadFull_length: "ReadFull r n = (Ok bs, r') \<Longrightarrow> length bs = n"
  by (auto simp: ReadFull_def split: if_splits)

lemma ReadFull_data: "ReadFull r n = (Ok bs, r') \<Longrightarrow> is_data r = bs @ is_data r' \<and> is_end r' = is_end r"
  by (auto simp: ReadFull_def split: if_splits)

lemma streamWrite_reliable [simp]:
  "reliable w \<Longrightarrow> streamWrite w p = (Ok (), w\<lparr>os_data := os_data w @ p\<rparr>)"
  by (simp add: streamWrite_def)

lemma streamWrite_ne_Panic [simp]: "fst (streamWrite w p) \<noteq> Panic"
  by (simp add: streamWrite_def split: list.splits wr_outcome.splits)

lemma streamWrite_prefix: "\<exists>d. os_data (snd (streamWrite w p)) = os_data w @ d"
  by (simp add: streamWrite_def split: list.splits wr_outcome.splits)

end
