(* ===== verification/Crypto.thy ===== *)
theory Crypto
  imports Qoru_Prelude
begin

text \<open>
  The cryptographic and certificate primitives the code calls from Go's standard library
  (\<^verbatim>\<open>crypto/aes\<close>, \<^verbatim>\<open>crypto/cipher\<close>, \<^verbatim>\<open>crypto/sha256\<close>, \<^verbatim>\<open>crypto/hkdf\<close>,
  \<^verbatim>\<open>crypto/ecdh\<close>, \<^verbatim>\<open>crypto/x509\<close> and the signature packages) as one record of functions,
  the parameter \<open>C\<close> of the definitions that use them. What is fixed by their documentation
  and used by the code is a definition here: the AES key sizes, the GCM nonce and tag sizes,
  the length of an X25519 public key. What the proofs rely on beyond that is stated as
  predicates on \<open>C\<close>; \<open>toy_crypto\<close> is a record that satisfies all of them.
\<close>

section \<open>Keys and certificates\<close>

datatype pubkey = PubRSA bytes | PubECDSA bytes | PubEd25519 bytes | PubOther string

text \<open>A private key: a \<open>crypto.Signer\<close> with its public key, or a value that is none.\<close>

datatype privkey = Signer pubkey bytes | NotSigner

text \<open>\<open>x509.Certificate\<close>, as far as the code reads it.\<close>

record x509_cert =
  xc_URIs :: "string list"
  xc_PublicKey :: pubkey

text \<open>\<open>tls.Certificate\<close>: the chain in DER form and the private key.\<close>

record tls_cert =
  tc_Certificate :: "bytes list"
  tc_PrivateKey :: privkey

datatype ext_key_usage = ExtKeyUsageServerAuth | ExtKeyUsageClientAuth

text \<open>A certificate pool is the PEM text it was filled from; a \<open>nil\<close> pool is \<^const>\<open>None\<close>.\<close>

type_synonym cert_pool = bytes

record crypto_lib =
  gcm_Seal :: "bytes \<Rightarrow> bytes \<Rightarrow> bytes \<Rightarrow> bytes \<Rightarrow> bytes"
  gcm_Open :: "bytes \<Rightarrow> bytes \<Rightarrow> bytes \<Rightarrow> bytes \<Rightarrow> bytes res"
  sha256_Sum :: "bytes \<Rightarrow> bytes"
  hkdf_Key :: "bytes \<Rightarrow> bytes \<Rightarrow> string \<Rightarrow> nat \<Rightarrow> bytes res"
  x25519_PublicKey :: "bytes \<Rightarrow> bytes"
  x25519_ECDH :: "bytes \<Rightarrow> bytes \<Rightarrow> bytes res"
  x509_Parse :: "bytes \<Rightarrow> x509_cert res"
  x509_Verify :: "x509_cert \<Rightarrow> cert_pool \<Rightarrow> x509_cert list \<Rightarrow> ext_key_usage \<Rightarrow> unit res"
  signer_Sign :: "pubkey \<Rightarrow> bytes \<Rightarrow> bytes \<Rightarrow> bool \<Rightarrow> bytes res"
  rsa_Verify :: "bytes \<Rightarrow> bytes \<Rightarrow> bytes \<Rightarrow> unit res"
  ecdsa_Verify :: "bytes \<Rightarrow> bytes \<Rightarrow> bytes \<Rightarrow> bool"
  ed25519_Verify :: "bytes \<Rightarrow> bytes \<Rightarrow> bytes \<Rightarrow> bool"

text \<open>Sizes fixed by the packages' documentation.\<close>

definition gcm_NonceSize :: nat where [qoru_consts]: "gcm_NonceSize = 12"
definition gcm_Overhead :: nat where [qoru_consts]: "gcm_Overhead = 16"
definition x25519_KeySize :: nat where [qoru_consts]: "x25519_KeySize = 32"

text \<open>\<open>aes.NewCipher\<close> accepts keys of 16, 24 and 32 bytes.\<close>

definition aes_NewCipher :: "bytes \<Rightarrow> bytes res" where
  "aes_NewCipher key =
     (if length key \<in> {16, 24, 32} then Ok key else Err (LibError ''crypto/aes: invalid key size''))"

text \<open>\<open>ecdh.X25519().NewPublicKey\<close> accepts exactly the 32-byte strings.\<close>

definition x25519_NewPublicKey :: "bytes \<Rightarrow> bytes res" where
  "x25519_NewPublicKey key =
     (if length key = x25519_KeySize then Ok key else Err (LibError ''crypto/ecdh: invalid public key''))"

section \<open>What the proofs rely on\<close>

text \<open>An authenticated cipher opens what it sealed and grows it by its overhead.\<close>

definition gcm_laws :: "crypto_lib \<Rightarrow> bool" where
  "gcm_laws C \<longleftrightarrow>
     (\<forall>k n p a. gcm_Open C k n (gcm_Seal C k n p a) a = Ok p) \<and>
     (\<forall>k n p a. length (gcm_Seal C k n p a) = length p + gcm_Overhead) \<and>
     (\<forall>k n c a. gcm_Open C k n c a \<noteq> Panic)"

text \<open>GCM recomputes the tag: a ciphertext that opens is the sealing of what it opens to.\<close>

definition gcm_exact :: "crypto_lib \<Rightarrow> bool" where
  "gcm_exact C \<longleftrightarrow> (\<forall>k n c a p. gcm_Open C k n c a = Ok p \<longrightarrow> c = gcm_Seal C k n p a)"

text \<open>Both ends of a Diffie-Hellman exchange compute the same value; public keys have 32 bytes.\<close>

definition x25519_laws :: "crypto_lib \<Rightarrow> bool" where
  "x25519_laws C \<longleftrightarrow>
     (\<forall>a. length (x25519_PublicKey C a) = x25519_KeySize) \<and>
     (\<forall>a b. x25519_ECDH C a (x25519_PublicKey C b) = x25519_ECDH C b (x25519_PublicKey C a))"

definition hash_laws :: "crypto_lib \<Rightarrow> bool" where
  "hash_laws C \<longleftrightarrow>
     (\<forall>x. length (sha256_Sum C x) = 32) \<and>
     (\<forall>s t i n k. hkdf_Key C s t i n = Ok k \<longrightarrow> length k = n)"

text \<open>The collision freedom of SHA-256 on a given set of messages.\<close>

definition sha256_inj_on :: "crypto_lib \<Rightarrow> bytes set \<Rightarrow> bool" where
  "sha256_inj_on C S \<longleftrightarrow> inj_on (sha256_Sum C) S"

section \<open>A record that satisfies them\<close>

definition toy_crypto :: crypto_lib where
  "toy_crypto =
     \<lparr>gcm_Seal = (\<lambda>k n p a. p @ replicate 16 0),
      gcm_Open = (\<lambda>k n c a. if 16 \<le> length c \<and> drop (length c - 16) c = replicate 16 0
                            then Ok (take (length c - 16) c)
                            else Err (LibError ''cipher: message authentication failed'')),
      sha256_Sum = (\<lambda>x. take 32 (x @ replicate 32 0)),
      hkdf_Key = (\<lambda>s t i n. Ok (replicate n 0)),
      x25519_PublicKey = (\<lambda>a. take 32 (a @ replicate 32 0)),
      x25519_ECDH = (\<lambda>a b. Ok (replicate 32 1)),
      x509_Parse = (\<lambda>der. Ok \<lparr>xc_URIs = [string_of der], xc_PublicKey = PubEd25519 []\<rparr>),
      x509_Verify = (\<lambda>leaf roots ints usage. Ok ()),
      signer_Sign = (\<lambda>pub sk digest hashed. Ok [1]),
      rsa_Verify = (\<lambda>pub digest sig. Ok ()),
      ecdsa_Verify = (\<lambda>pub digest sig. True),
      ed25519_Verify = (\<lambda>pub digest sig. sig = [1])\<rparr>"

lemma toy_gcm_laws: "gcm_laws toy_crypto"
  by (simp add: gcm_laws_def toy_crypto_def gcm_Overhead_def)

lemma toy_gcm_exact: "gcm_exact toy_crypto"
  by (auto simp: gcm_exact_def toy_crypto_def split: if_splits)
    (metis append_take_drop_id)

lemma toy_x25519_laws: "x25519_laws toy_crypto"
  by (auto simp: x25519_laws_def toy_crypto_def x25519_KeySize_def)

lemma toy_hash_laws: "hash_laws toy_crypto"
  by (auto simp: hash_laws_def toy_crypto_def)

lemma gcm_Open_Seal: "gcm_laws C \<Longrightarrow> gcm_Open C k n (gcm_Seal C k n p a) a = Ok p"
  by (simp add: gcm_laws_def)

lemma gcm_Open_ne_Panic: "gcm_laws C \<Longrightarrow> gcm_Open C k n c a \<noteq> Panic"
  by (simp add: gcm_laws_def)

lemma length_gcm_Seal: "gcm_laws C \<Longrightarrow> length (gcm_Seal C k n p a) = length p + gcm_Overhead"
  by (simp add: gcm_laws_def)

end
