(* ===== verification/Config.thy ===== *)
theory Config
  imports Qoru_Prelude
begin

text \<open>
  The configuration (\<^verbatim>\<open>internal/config/config.go\<close>): the structs the YAML file is decoded
  into, and the search for the configuration file.
\<close>

definition ModeClient :: string where [qoru_consts]: "ModeClient = ''client''"
definition ModeServer :: string where [qoru_consts]: "ModeServer = ''server''"

definition ForwardE2EOff :: string where [qoru_consts]: "ForwardE2EOff = ''off''"
definition ForwardE2EAuto :: string where [qoru_consts]: "ForwardE2EAuto = ''auto''"
definition ForwardE2EAlways :: string where [qoru_consts]: "ForwardE2EAlways = ''always''"

definition DefaultPaths :: "string list" where
  "DefaultPaths = [''./qoru.yaml'', ''./qoru.yml'', ''/etc/qoru/config.yaml'', ''/etc/qoru/config.yml'']"

record IdentityConfig =
  ic_Cert :: string
  ic_Key :: string
  ic_CA :: string

record ServiceIdentityConfig =
  si_CA :: string

record ServerConfig =
  sc_ID :: string
  sc_Address :: string

record PeerConfig =
  pc_ID :: string
  pc_Address :: string
  pc_Dial :: bool

record ForwardConfig =
  fc_Protocol :: string
  fc_Listen :: string
  fc_Service :: string
  fc_Egress :: string
  fc_Route :: "string list"
  fc_E2E :: string

record RouteCandidateConfig =
  cc_Egress :: string
  cc_Route :: "string list"

record ServiceRouteConfig =
  rc_Service :: string
  rc_Protocol :: string
  rc_Selection :: string
  rc_Candidates :: "RouteCandidateConfig list"

record ServiceE2EConfig =
  se_Cert :: string
  se_Key :: string

record ServiceConfig =
  sv_Name :: string
  sv_Protocol :: string
  sv_Target :: string
  sv_Peers :: "string list"
  sv_E2E :: ServiceE2EConfig

record Config =
  cfg_NodeID :: string
  cfg_Mode :: string
  cfg_Identity :: IdentityConfig
  cfg_ServiceIdentity :: ServiceIdentityConfig
  cfg_Servers :: "ServerConfig list"
  cfg_Peers :: "PeerConfig list"
  cfg_Listen :: string
  cfg_Forwards :: "ForwardConfig list"
  cfg_Routes :: "ServiceRouteConfig list"
  cfg_Services :: "ServiceConfig list"
  cfg_AllowedRelayClients :: "string list"

text \<open>
  \<open>os.Stat(path)\<close> succeeds or not: the predicate \<open>exists\<close> is the file system. The result
  pair \<open>(path, ok)\<close> is an option.
\<close>

fun firstExisting :: "(string \<Rightarrow> bool) \<Rightarrow> string list \<Rightarrow> string option" where
  "firstExisting exists [] = None"
| "firstExisting exists (path # paths) = (if exists path then Some path else firstExisting exists paths)"

definition ResolvePathWithDefaults :: "(string \<Rightarrow> bool) \<Rightarrow> string \<Rightarrow> string list \<Rightarrow> string option" where
  "ResolvePathWithDefaults exists explicit defaults =
     (if explicit \<noteq> [] then Some explicit else firstExisting exists defaults)"

definition ResolvePath :: "(string \<Rightarrow> bool) \<Rightarrow> string \<Rightarrow> string option" where
  "ResolvePath exists explicit = ResolvePathWithDefaults exists explicit DefaultPaths"

lemma firstExisting_eq: "firstExisting exists paths = List.find exists paths"
  by (induction paths) auto

end
