(* ===== verification/Identity.thy ===== *)
theory Identity
  imports Crypto Config
begin

text \<open>
  Identities (\<^verbatim>\<open>internal/identity\<close>): the SPIFFE URI of a node or a service in a certificate, the
  verification of certificate chains against a CA and an expected identity, and the TLS
  configurations of both ends of a QUIC connection. A URI is kept as the string
  \<open>uri.String()\<close>; files and PEM parsing are the parameter \<open>F\<close>.
\<close>

section \<open>Node identity (\<^verbatim>\<open>peer.go\<close>)\<close>

definition spiffeNodePrefix :: string where "spiffeNodePrefix = ''spiffe://qoru/node/''"
definition spiffeServicePrefix :: string where "spiffeServicePrefix = ''spiffe://qoru/service/''"

text \<open>The loop both lookups share: the first URI with the prefix and something after it.\<close>

fun firstIdentity :: "string \<Rightarrow> string list \<Rightarrow> string option" where
  "firstIdentity prefix [] = None"
| "firstIdentity prefix (uri # uris) =
     (if hasPrefix uri prefix \<and> trimPrefix uri prefix \<noteq> [] then Some (trimPrefix uri prefix)
      else firstIdentity prefix uris)"

definition PeerNodeID :: "x509_cert list \<Rightarrow> string res" where
  "PeerNodeID peerCertificates =
     (case peerCertificates of
        [] \<Rightarrow> Err (Errorf ''peer certificate is required'' [])
      | cert # _ \<Rightarrow>
          (case firstIdentity spiffeNodePrefix (xc_URIs cert) of
             Some nodeID \<Rightarrow> Ok nodeID
           | None \<Rightarrow> Err (Errorf ''peer certificate does not contain a SPIFFE node identity'' [])))"

section \<open>Service identity (\<^verbatim>\<open>service.go\<close>)\<close>

definition ServiceNameFromCertificate :: "x509_cert option \<Rightarrow> string res" where
  "ServiceNameFromCertificate cert =
     (case cert of None \<Rightarrow> Err (Errorf ''service certificate is required'' []) | Some cert \<Rightarrow>
      (case firstIdentity spiffeServicePrefix (xc_URIs cert) of
         Some service \<Rightarrow> Ok service
       | None \<Rightarrow> Err (Errorf ''service certificate does not contain a SPIFFE service identity'' [])))"

text \<open>\<open>x509.ParseCertificate\<close> on each certificate of a chain, an error wrapped by \<open>msg\<close>.\<close>

fun parseCerts :: "crypto_lib \<Rightarrow> string \<Rightarrow> bytes list \<Rightarrow> x509_cert list res" where
  "parseCerts C msg [] = Ok []"
| "parseCerts C msg (raw # raws) =
     bindR (wrapErr (ErrorfW msg []) (x509_Parse C raw)) (\<lambda>cert.
     bindR (parseCerts C msg raws) (\<lambda>certs. Ok (cert # certs)))"

definition VerifyServiceCertificate :: "crypto_lib \<Rightarrow> bytes list \<Rightarrow> cert_pool option \<Rightarrow> string \<Rightarrow> unit res" where
  "VerifyServiceCertificate C rawCerts roots expectedService =
     (if expectedService = [] then Err (Errorf ''expected service is required'' [])
      else if rawCerts = [] then Err (Errorf ''service certificate is required'' [])
      else case roots of None \<Rightarrow> Err (Errorf ''service CA roots are required'' []) | Some roots \<Rightarrow>
      bindR (parseCerts C ''parse service certificate: %w'' rawCerts) (\<lambda>certs.
      bindR (wrapErr (ErrorfW ''verify service certificate chain: %w'' [])
               (x509_Verify C (hd certs) roots (tl certs) ExtKeyUsageServerAuth)) (\<lambda>_.
      bindR (ServiceNameFromCertificate (Some (hd certs))) (\<lambda>service.
      if service \<noteq> expectedService
      then Err (Errorf ''service identity mismatch: expected %q, got %q'' [FQ expectedService, FQ service])
      else Ok ()))))"

text \<open>The files the loaders read: \<open>tls.LoadX509KeyPair\<close>, \<open>os.ReadFile\<close>, \<open>AppendCertsFromPEM\<close>.\<close>

record file_lib =
  fl_LoadX509KeyPair :: "string \<Rightarrow> string \<Rightarrow> tls_cert res"
  fl_ReadFile :: "string \<Rightarrow> bytes res"
  fl_AppendCertsFromPEM :: "bytes \<Rightarrow> bool"

definition LoadServiceCertificate :: "file_lib \<Rightarrow> ServiceE2EConfig \<Rightarrow> tls_cert res" where
  "LoadServiceCertificate F e2e =
     wrapErr (ErrorfW ''load service certificate/key: %w'' []) (fl_LoadX509KeyPair F (se_Cert e2e) (se_Key e2e))"

definition LoadCertPool :: "file_lib \<Rightarrow> string \<Rightarrow> cert_pool res" where
  "LoadCertPool F caPath =
     bindR (wrapErr (ErrorfW ''read ca certificate: %w'' []) (fl_ReadFile F caPath)) (\<lambda>caPEM.
     if \<not> fl_AppendCertsFromPEM F caPEM
     then Err (Errorf ''parse ca certificate: no certificates found'' []) else Ok caPEM)"

section \<open>TLS configuration (\<^verbatim>\<open>tls.go\<close>)\<close>

definition ALPN :: string where "ALPN = ''qoru/1''"

datatype client_auth = NoClientCert | RequireAndVerifyClientCert
datatype tls_version = VersionTLS12 | VersionTLS13

record tls_config =
  tls_MinVersion :: tls_version
  tls_Certificates :: "tls_cert list"
  tls_ClientAuth :: client_auth
  tls_ClientCAs :: "cert_pool option"
  tls_RootCAs :: "cert_pool option"
  tls_InsecureSkipVerify :: bool
  tls_NextProtos :: "string list"
  tls_VerifyPeerCertificate :: "(bytes list \<Rightarrow> unit res) option"

definition verifyPeerCertificate ::
    "crypto_lib \<Rightarrow> bytes list \<Rightarrow> cert_pool \<Rightarrow> string \<Rightarrow> ext_key_usage \<Rightarrow> unit res" where
  "verifyPeerCertificate C rawCerts roots expectedNodeID keyUsage =
     (if rawCerts = [] then Err (Errorf ''peer certificate is required'' [])
      else bindR (parseCerts C ''parse peer certificate: %w'' rawCerts) (\<lambda>certs.
      bindR (wrapErr (ErrorfW ''verify peer certificate chain: %w'' [])
               (x509_Verify C (hd certs) roots (tl certs) keyUsage)) (\<lambda>_.
      bindR (PeerNodeID certs) (\<lambda>nodeID.
      if nodeID \<noteq> expectedNodeID
      then Err (Errorf ''peer node identity mismatch: expected %q, got %q'' [FQ expectedNodeID, FQ nodeID])
      else Ok ()))))"

definition loadCertificateAndCA :: "file_lib \<Rightarrow> IdentityConfig \<Rightarrow> (tls_cert \<times> cert_pool) res" where
  "loadCertificateAndCA F identity =
     bindR (wrapErr (ErrorfW ''load certificate/key: %w'' [])
              (fl_LoadX509KeyPair F (ic_Cert identity) (ic_Key identity))) (\<lambda>cert.
     bindR (wrapErr (ErrorfW ''read ca certificate: %w'' []) (fl_ReadFile F (ic_CA identity))) (\<lambda>caPEM.
     if \<not> fl_AppendCertsFromPEM F caPEM
     then Err (Errorf ''parse ca certificate: no certificates found'' [])
     else Ok (cert, caPEM)))"

definition ServerTLSConfig :: "file_lib \<Rightarrow> IdentityConfig \<Rightarrow> tls_config res" where
  "ServerTLSConfig F identity =
     bindR (loadCertificateAndCA F identity) (\<lambda>(cert, caPool).
     Ok \<lparr>tls_MinVersion = VersionTLS13, tls_Certificates = [cert], tls_ClientAuth = RequireAndVerifyClientCert,
         tls_ClientCAs = Some caPool, tls_RootCAs = None, tls_InsecureSkipVerify = False,
         tls_NextProtos = [ALPN], tls_VerifyPeerCertificate = None\<rparr>)"

definition ClientTLSConfig :: "crypto_lib \<Rightarrow> file_lib \<Rightarrow> IdentityConfig \<Rightarrow> string \<Rightarrow> tls_config res" where
  "ClientTLSConfig C F identity serverName =
     bindR (loadCertificateAndCA F identity) (\<lambda>(cert, caPool).
     Ok \<lparr>tls_MinVersion = VersionTLS13, tls_Certificates = [cert], tls_ClientAuth = NoClientCert,
         tls_ClientCAs = None, tls_RootCAs = Some caPool, tls_InsecureSkipVerify = True,
         tls_NextProtos = [ALPN],
         tls_VerifyPeerCertificate =
           Some (\<lambda>rawCerts. verifyPeerCertificate C rawCerts caPool serverName ExtKeyUsageServerAuth)\<rparr>)"

section \<open>Lemmas\<close>

text \<open>The certificate's first usable identity under a prefix.\<close>

definition names :: "string \<Rightarrow> x509_cert \<Rightarrow> string \<Rightarrow> bool" where
  "names prefix cert ident \<longleftrightarrow> ident \<noteq> [] \<and> (\<exists>us vs. xc_URIs cert = us @ (prefix @ ident) # vs \<and>
     (\<forall>u\<in>set us. \<forall>t. u = prefix @ t \<longrightarrow> t = []))"

lemma firstIdentity_Some:
  "firstIdentity prefix uris = Some ident \<longleftrightarrow> ident \<noteq> [] \<and> (\<exists>us vs. uris = us @ (prefix @ ident) # vs \<and>
     (\<forall>u\<in>set us. \<forall>t. u = prefix @ t \<longrightarrow> t = []))"
proof (induction uris)
  case (Cons u uris)
  show ?case
  proof (cases "hasPrefix u prefix \<and> trimPrefix u prefix \<noteq> []")
    case True
    then obtain t where t: "u = prefix @ t" "t \<noteq> []" by (auto simp: hasPrefix_iff)
    have "firstIdentity prefix (u # uris) = Some t"
      using t by (simp add: hasPrefix_iff)
    then show ?thesis
      using t by (auto simp: Cons_eq_append_conv)
  next
    case False
    then have n: "\<forall>t. u = prefix @ t \<longrightarrow> t = []" by (auto simp: hasPrefix_iff)
    have "firstIdentity prefix (u # uris) = firstIdentity prefix uris"
      using False by auto
    moreover have "(\<exists>us vs. u # uris = us @ (prefix @ ident) # vs \<and> (\<forall>u\<in>set us. \<forall>t. u = prefix @ t \<longrightarrow> t = [])) \<longleftrightarrow>
        (\<exists>us vs. uris = us @ (prefix @ ident) # vs \<and> (\<forall>u\<in>set us. \<forall>t. u = prefix @ t \<longrightarrow> t = []))" (is "?L \<longleftrightarrow> ?R")
      if "ident \<noteq> []"
    proof
      assume ?L
      then obtain us vs where "u # uris = us @ (prefix @ ident) # vs" "\<forall>u\<in>set us. \<forall>t. u = prefix @ t \<longrightarrow> t = []"
        by blast
      then show ?R using n that by (cases us) auto
    next
      assume ?R
      then obtain us vs where "uris = us @ (prefix @ ident) # vs" "\<forall>u\<in>set us. \<forall>t. u = prefix @ t \<longrightarrow> t = []"
        by blast
      then show ?L using n by (intro exI [of _ "u # us"] exI [of _ vs]) simp
    qed
    ultimately show ?thesis
      using Cons.IH by metis
  qed
qed simp

lemma names_iff: "names prefix cert ident \<longleftrightarrow> firstIdentity prefix (xc_URIs cert) = Some ident"
  by (simp add: names_def firstIdentity_Some)

lemma PeerNodeID_Ok: "PeerNodeID certs = Ok ident \<longleftrightarrow> certs \<noteq> [] \<and> names spiffeNodePrefix (hd certs) ident"
  by (cases certs) (auto simp: PeerNodeID_def names_iff split: option.splits)

lemma ServiceNameFromCertificate_Ok:
  "ServiceNameFromCertificate (Some cert) = Ok s \<longleftrightarrow> names spiffeServicePrefix cert s"
  by (auto simp: ServiceNameFromCertificate_def names_iff split: option.splits)

lemma parseCerts_Ok: "parseCerts C msg raws = Ok certs \<longleftrightarrow> list_all2 (\<lambda>raw cert. x509_Parse C raw = Ok cert) raws certs"
  by (induction raws arbitrary: certs) (auto simp: bindR_eq_Ok list_all2_Cons1)

text \<open>A chain that parses and verifies up to the roots for the given usage.\<close>

definition trusted_chain :: "crypto_lib \<Rightarrow> bytes list \<Rightarrow> cert_pool \<Rightarrow> ext_key_usage \<Rightarrow> x509_cert \<Rightarrow> bool" where
  "trusted_chain C raws roots usage leaf \<longleftrightarrow> (\<exists>ints. list_all2 (\<lambda>raw cert. x509_Parse C raw = Ok cert) raws (leaf # ints) \<and>
     x509_Verify C leaf roots ints usage = Ok ())"

lemma VerifyServiceCertificate_Ok:
  "VerifyServiceCertificate C raws (Some roots) service = Ok () \<longleftrightarrow>
   service \<noteq> [] \<and> (\<exists>leaf. trusted_chain C raws roots ExtKeyUsageServerAuth leaf \<and> names spiffeServicePrefix leaf service)"
proof
  assume "VerifyServiceCertificate C raws (Some roots) service = Ok ()"
  then obtain certs where "service \<noteq> []" "raws \<noteq> []" "parseCerts C ''parse service certificate: %w'' raws = Ok certs"
    "x509_Verify C (hd certs) roots (tl certs) ExtKeyUsageServerAuth = Ok ()"
    "ServiceNameFromCertificate (Some (hd certs)) = Ok service"
    by (auto simp: VerifyServiceCertificate_def bindR_eq_Ok split: if_splits)
  then show "service \<noteq> [] \<and> (\<exists>leaf. trusted_chain C raws roots ExtKeyUsageServerAuth leaf \<and> names spiffeServicePrefix leaf service)"
    by (cases certs) (auto simp: parseCerts_Ok trusted_chain_def ServiceNameFromCertificate_Ok)
next
  assume "service \<noteq> [] \<and> (\<exists>leaf. trusted_chain C raws roots ExtKeyUsageServerAuth leaf \<and> names spiffeServicePrefix leaf service)"
  then obtain leaf ints where s: "service \<noteq> []" and l: "list_all2 (\<lambda>raw cert. x509_Parse C raw = Ok cert) raws (leaf # ints)"
    "x509_Verify C leaf roots ints ExtKeyUsageServerAuth = Ok ()" "names spiffeServicePrefix leaf service"
    by (auto simp: trusted_chain_def)
  then have "raws \<noteq> []" "parseCerts C ''parse service certificate: %w'' raws = Ok (leaf # ints)"
    by (auto simp: parseCerts_Ok)
  then show "VerifyServiceCertificate C raws (Some roots) service = Ok ()"
    using s l by (simp add: VerifyServiceCertificate_def ServiceNameFromCertificate_Ok [THEN iffD2])
qed

lemma verifyPeerCertificate_Ok:
  "verifyPeerCertificate C raws roots node usage = Ok () \<longleftrightarrow>
   (\<exists>leaf. trusted_chain C raws roots usage leaf \<and> names spiffeNodePrefix leaf node)"
proof
  assume "verifyPeerCertificate C raws roots node usage = Ok ()"
  then obtain certs where "raws \<noteq> []" "parseCerts C ''parse peer certificate: %w'' raws = Ok certs"
    "x509_Verify C (hd certs) roots (tl certs) usage = Ok ()" "PeerNodeID certs = Ok node"
    by (auto simp: verifyPeerCertificate_def bindR_eq_Ok split: if_splits)
  then show "\<exists>leaf. trusted_chain C raws roots usage leaf \<and> names spiffeNodePrefix leaf node"
    by (cases certs) (auto simp: parseCerts_Ok trusted_chain_def PeerNodeID_Ok)
next
  assume "\<exists>leaf. trusted_chain C raws roots usage leaf \<and> names spiffeNodePrefix leaf node"
  then obtain leaf ints where l: "list_all2 (\<lambda>raw cert. x509_Parse C raw = Ok cert) raws (leaf # ints)"
    "x509_Verify C leaf roots ints usage = Ok ()" "names spiffeNodePrefix leaf node"
    by (auto simp: trusted_chain_def)
  then have "raws \<noteq> []" "parseCerts C ''parse peer certificate: %w'' raws = Ok (leaf # ints)"
    by (auto simp: parseCerts_Ok)
  then show "verifyPeerCertificate C raws roots node usage = Ok ()"
    using l by (simp add: verifyPeerCertificate_def PeerNodeID_Ok [THEN iffD2])
qed

section \<open>Properties\<close>

text \<open>
  C37: an outgoing connection accepts exactly the certificates of the node it means to reach.
  The check installed in the client TLS configuration, which replaces the standard one,
  passes if and only if the chain presented verifies up to the configured CA for server
  authentication and the first non-empty node identity of its leaf is the expected node.
  The handshake is TLS 1.3 with the qoru protocol name and the node's own certificate.
\<close>

theorem clientTLS_authenticates:
  assumes "ClientTLSConfig C F ident node = Ok c"
  shows "\<exists>cert pem v. fl_LoadX509KeyPair F (ic_Cert ident) (ic_Key ident) = Ok cert \<and>
      fl_ReadFile F (ic_CA ident) = Ok pem \<and> tls_Certificates c = [cert] \<and>
      tls_MinVersion c = VersionTLS13 \<and> tls_NextProtos c = [''qoru/1''] \<and> tls_VerifyPeerCertificate c = Some v \<and>
      (\<forall>raws. v raws = Ok () \<longleftrightarrow>
         (\<exists>leaf. trusted_chain C raws pem ExtKeyUsageServerAuth leaf \<and> names spiffeNodePrefix leaf node))"
  using assms
  by (auto simp: ClientTLSConfig_def loadCertificateAndCA_def bindR_eq_Ok ALPN_def verifyPeerCertificate_Ok
      split: if_splits)

definition toy_files :: file_lib where
  "toy_files = \<lparr>fl_LoadX509KeyPair = (\<lambda>cert key. Ok \<lparr>tc_Certificate = [bytes_of cert], tc_PrivateKey = Signer (PubEd25519 []) []\<rparr>),
     fl_ReadFile = (\<lambda>path. Ok (bytes_of path)), fl_AppendCertsFromPEM = (\<lambda>pem. pem \<noteq> [])\<rparr>"

theorem clientTLS_authenticates_witness:
  "\<exists>c cert pem v. ClientTLSConfig toy_crypto toy_files \<lparr>ic_Cert = ''c'', ic_Key = ''k'', ic_CA = ''ca''\<rparr> ''n1'' = Ok c \<and>
      fl_LoadX509KeyPair toy_files ''c'' ''k'' = Ok cert \<and> fl_ReadFile toy_files ''ca'' = Ok pem \<and>
      tls_Certificates c = [cert] \<and>
      tls_MinVersion c = VersionTLS13 \<and> tls_NextProtos c = [''qoru/1''] \<and> tls_VerifyPeerCertificate c = Some v \<and>
      (\<forall>raws. v raws = Ok () \<longleftrightarrow>
         (\<exists>leaf. trusted_chain toy_crypto raws pem ExtKeyUsageServerAuth leaf \<and> names spiffeNodePrefix leaf ''n1''))"
proof -
  obtain c where c: "ClientTLSConfig toy_crypto toy_files \<lparr>ic_Cert = ''c'', ic_Key = ''k'', ic_CA = ''ca''\<rparr> ''n1'' = Ok c"
    by (simp add: ClientTLSConfig_def loadCertificateAndCA_def toy_files_def)
  show ?thesis
    using clientTLS_authenticates [OF c] c by auto
qed

end
