(* ===== verification/Reconnect.thy ===== *)
theory Reconnect
  imports Qoru_Prelude
begin

text \<open>
  Reconnect backoff. The client's upstream sessions and the server's peer sessions keep the
  same three facts about a peer that could not be dialled: when to try next, the last error,
  how often it failed in a row. Their contract is the locale \<open>reconnect_backoff\<close>; each of the
  two interprets it on its own state. Times and durations are integers in nanoseconds, the
  zero \<open>time.Time\<close> is 0.
\<close>

type_synonym time = int

definition isZeroTime :: "time \<Rightarrow> bool" where "isZeroTime t = (t = 0)"

definition millisecond :: time where [qoru_consts]: "millisecond = 1000000"
definition second :: time where [qoru_consts]: "second = 1000000000"

text \<open>\<open>waitGroupTimeout\<close>, of client and server: whether the goroutines ended before the timeout of 5 seconds.\<close>

definition waitGroupTimeout :: "bool \<Rightarrow> unit res" where
  "waitGroupTimeout finished = (if finished then Ok () else Err (Errorf ''timed out after %s'' [FS ''5s'']))"

text \<open>\<open>reconnectBackoffAfterFailure\<close> and \<open>peerReconnectBackoffAfterFailure\<close>, the same table.\<close>

definition backoffTable :: "time list" where
  "backoffTable = [500 * millisecond, 1 * second, 2 * second, 4 * second, 8 * second, 16 * second]"

definition backoffDelay :: "nat \<Rightarrow> time" where
  "backoffDelay failCount =
     (let delay = backoffTable ! (length backoffTable - 1) in
      if failCount < length backoffTable then backoffTable ! failCount else delay)"

lemma backoffDelay_bounds: "500 * millisecond \<le> backoffDelay n \<and> backoffDelay n \<le> 16 * second"
proof -
  have "backoffDelay n \<in> set backoffTable"
  proof (cases "n < length backoffTable")
    case False
    have "length backoffTable - 1 < length backoffTable" by (simp add: backoffTable_def)
    with False show ?thesis unfolding backoffDelay_def Let_def by (metis nth_mem)
  qed (simp add: backoffDelay_def Let_def)
  then show ?thesis by (auto simp: backoffTable_def qoru_consts)
qed

lemma backoffDelay_pos: "0 < backoffDelay n"
  using backoffDelay_bounds [of n] by (simp add: qoru_consts)

lemma backoffDelay_closed: "backoffDelay n = (if n < 5 then 500 * millisecond * 2 ^ n else 16 * second)"
proof -
  have "n < 6 \<Longrightarrow> n \<in> {0, 1, 2, 3, 4, 5}" by auto
  then show ?thesis
    by (auto simp: backoffDelay_def Let_def backoffTable_def qoru_consts)
qed

lemma backoffDelay_Suc: "backoffDelay n \<le> backoffDelay (Suc n)"
proof (cases "n < 4")
  case True
  then have "n \<in> {0, 1, 2, 3}" by auto
  then show ?thesis by (auto simp: backoffDelay_closed qoru_consts)
next
  case False
  then show ?thesis
    using backoffDelay_bounds [of n] by (simp add: backoffDelay_closed [of "Suc n"])
qed

lemma backoffDelay_mono: "m \<le> n \<Longrightarrow> backoffDelay m \<le> backoffDelay n"
  by (rule lift_Suc_mono_le [of backoffDelay]) (rule backoffDelay_Suc)

locale reconnect_backoff =
  fixes blocked :: "'s \<Rightarrow> time \<Rightarrow> bool"
    and record_failure :: "time \<Rightarrow> go_error \<Rightarrow> 's \<Rightarrow> 's"
    and reset :: "'s \<Rightarrow> 's"
    and failures :: "'s \<Rightarrow> nat"
  assumes blocked_failure: "0 < now \<Longrightarrow>
      blocked (record_failure now e s) t \<longleftrightarrow> t < now + backoffDelay (failures s)"
    and failures_failure: "failures (record_failure now e s) = Suc (failures s)"
    and failures_reset: "failures (reset s) = 0"
    and blocked_reset: "\<not> blocked (reset s) t"
begin

text \<open>A run of failed dials at the given times.\<close>

definition failed_run :: "(time \<times> go_error) list \<Rightarrow> 's \<Rightarrow> 's" where
  "failed_run fs s = fold (\<lambda>(now, e). record_failure now e) fs s"

lemma failures_run: "failures (failed_run fs s) = failures s + length fs"
  unfolding failed_run_def by (induction fs arbitrary: s) (auto simp: failures_failure)

text \<open>After a connection, the nth failure in a row blocks dialling for exactly the nth delay.\<close>

lemma blocked_after_run:
  assumes "0 < now"
  shows "blocked (failed_run (fs @ [(now, e)]) (reset s)) t \<longleftrightarrow> t < now + backoffDelay (length fs)"
  using blocked_failure [OF assms, of e "failed_run fs (reset s)" t] failures_run [of fs "reset s"]
  by (simp add: failed_run_def failures_reset)

lemma retry_possible:
  assumes "0 < now" "now + 16 * second \<le> t"
  shows "\<not> blocked (record_failure now e s) t"
  using assms backoffDelay_bounds [of "failures s"] by (simp add: blocked_failure)

lemma no_immediate_retry:
  assumes "0 < now" "t < now + 500 * millisecond"
  shows "blocked (record_failure now e s) t"
  using assms backoffDelay_bounds [of "failures s"] by (simp add: blocked_failure)

end

end
