(* ===== verification/Server_Policy.thy ===== *)
theory Server_Policy
  imports Config
begin

text \<open>
  Access policy of a server (\<^verbatim>\<open>internal/server/policy.go\<close>): who may relay through the node, which
  peers may hand it the last hop of a route, which peers may use a service. The two lists that
  are open when empty share a contract, the locale \<open>open_list\<close>.
\<close>

section \<open>Operations\<close>

definition ErrServiceNotFound :: go_error where "ErrServiceNotFound = ErrorsNew ''service not found''"
definition ErrAccessDenied :: go_error where "ErrAccessDenied = ErrorsNew ''access denied''"

definition authorizeRelayIngress :: "Config \<Rightarrow> string \<Rightarrow> unit res" where
  "authorizeRelayIngress cfg peerID =
     (if cfg_AllowedRelayClients cfg = [] then Ok ()
      else if list_ex (\<lambda>allowed. allowed = peerID) (cfg_AllowedRelayClients cfg) then Ok ()
      else Err (ErrorfW ''%w: peer %q is not allowed to use this node as a relay'' [FQ peerID] ErrAccessDenied))"

definition requireConfiguredPeer :: "Config \<Rightarrow> string \<Rightarrow> unit res" where
  "requireConfiguredPeer cfg peerID =
     (if list_ex (\<lambda>peer. pc_ID peer = peerID) (cfg_Peers cfg) then Ok ()
      else Err (ErrorfW ''%w: peer %q is not configured as a relay peer'' [FQ peerID] ErrAccessDenied))"

fun findServiceIn :: "ServiceConfig list \<Rightarrow> string \<Rightarrow> string \<Rightarrow> ServiceConfig res" where
  "findServiceIn [] protocol service =
     Err (ErrorfW ''%w: %s service %q'' [FS protocol, FQ service] ErrServiceNotFound)"
| "findServiceIn (svc # svcs) protocol service =
     (if sv_Protocol svc = protocol \<and> sv_Name svc = service then Ok svc else findServiceIn svcs protocol service)"

definition findService :: "Config \<Rightarrow> string \<Rightarrow> string \<Rightarrow> ServiceConfig res" where
  "findService cfg protocol service = findServiceIn (cfg_Services cfg) protocol service"

definition authorizeServicePeer :: "ServiceConfig \<Rightarrow> string \<Rightarrow> string \<Rightarrow> string \<Rightarrow> unit res" where
  "authorizeServicePeer svc peerID protocol service =
     (if sv_Peers svc = [] then Ok ()
      else if list_ex (\<lambda>peer. peerID = peer) (sv_Peers svc) then Ok ()
      else Err (ErrorfW ''%w: peer %q is not allowed to access %s service %q''
                  [FQ peerID, FS protocol, FQ service] ErrAccessDenied))"

definition resolveService :: "Config \<Rightarrow> string \<Rightarrow> string \<Rightarrow> string \<Rightarrow> ServiceConfig res" where
  "resolveService cfg peerID protocol service =
     bindR (findService cfg protocol service) (\<lambda>svc.
     bindR (authorizeServicePeer svc peerID protocol service) (\<lambda>_.
     Ok svc))"

section \<open>The contract of an access list\<close>

text \<open>
  A check against a list of node identifiers that admits everybody when the list is empty and
  otherwise exactly its members, and refuses with an error that \<open>errors.Is\<close> finds to be
  \<open>ErrAccessDenied\<close>.
\<close>

locale open_list =
  fixes members :: "'k \<Rightarrow> string list"
    and check :: "'k \<Rightarrow> string \<Rightarrow> unit res"
  assumes admits: "check k ident = Ok () \<longleftrightarrow> members k = [] \<or> ident \<in> set (members k)"
    and refuses: "check k ident \<noteq> Ok () \<Longrightarrow> \<exists>e. check k ident = Err e \<and> errorsIs e ErrAccessDenied"
begin

lemma total: "check k ident \<noteq> Panic"
  using refuses [of k ident] by auto

lemma denied: "check k ident = Err e \<longleftrightarrow> check k ident = Err e \<and> members k \<noteq> [] \<and> ident \<notin> set (members k)"
  using admits [of k ident] by auto

lemma denied_code: "check k ident = Err e \<Longrightarrow> errorsIs e ErrAccessDenied"
  using refuses [of k ident] by auto

end

lemma errorsIs_wrapped [simp]: "errorsIs (ErrorfW f a e) e"
  using errChain_head [of e] by (auto simp: errorsIs_def)

interpretation relay_list: open_list cfg_AllowedRelayClients authorizeRelayIngress
  by unfold_locales (auto simp: authorizeRelayIngress_def list_ex_iff split: if_splits)

interpretation service_list: open_list "\<lambda>(svc, protocol, service). sv_Peers svc"
  "\<lambda>(svc, protocol, service) peerID. authorizeServicePeer svc peerID protocol service"
  by unfold_locales (auto simp: authorizeServicePeer_def list_ex_iff split: if_splits)

lemma authorizeServicePeer_Ok:
  "authorizeServicePeer svc peerID protocol service = Ok () \<longleftrightarrow> sv_Peers svc = [] \<or> peerID \<in> set (sv_Peers svc)"
  using service_list.admits [of "(svc, protocol, service)" peerID] by simp

lemma authorizeServicePeer_Err:
  "authorizeServicePeer svc peerID protocol service = Err e \<Longrightarrow> errorsIs e ErrAccessDenied"
  using service_list.denied_code [of "(svc, protocol, service)" peerID e] by simp

lemma authorizeServicePeer_total [simp]: "authorizeServicePeer svc peerID protocol service \<noteq> Panic"
  using service_list.total [of "(svc, protocol, service)" peerID] by simp

lemma requireConfiguredPeer_Ok: "requireConfiguredPeer cfg peerID = Ok () \<longleftrightarrow> peerID \<in> pc_ID ` set (cfg_Peers cfg)"
  by (auto simp: requireConfiguredPeer_def list_ex_iff split: if_splits)

lemma requireConfiguredPeer_Err: "requireConfiguredPeer cfg peerID = Err e \<Longrightarrow> errorsIs e ErrAccessDenied"
  by (auto simp: requireConfiguredPeer_def split: if_splits)

text \<open>The first service that matches is the one that counts.\<close>

lemma findServiceIn_find:
  "findServiceIn svcs protocol service =
   (case List.find (\<lambda>s. sv_Protocol s = protocol \<and> sv_Name s = service) svcs of
      Some svc \<Rightarrow> Ok svc
    | None \<Rightarrow> Err (ErrorfW ''%w: %s service %q'' [FS protocol, FQ service] ErrServiceNotFound))"
  by (induction svcs) auto

lemma findServiceIn_Ok:
  "findServiceIn svcs protocol service = Ok svc \<Longrightarrow>
   svc \<in> set svcs \<and> sv_Protocol svc = protocol \<and> sv_Name svc = service"
  by (induction svcs) (auto split: if_splits)

lemma findServiceIn_Err:
  "findServiceIn svcs protocol service = Err e \<longleftrightarrow>
   (\<forall>s\<in>set svcs. \<not> (sv_Protocol s = protocol \<and> sv_Name s = service)) \<and>
   e = ErrorfW ''%w: %s service %q'' [FS protocol, FQ service] ErrServiceNotFound"
  by (induction svcs) auto

lemma findServiceIn_total [simp]: "findServiceIn svcs protocol service \<noteq> Panic"
  by (induction svcs) auto

lemma findService_Ok:
  "findService cfg protocol service = Ok svc \<Longrightarrow>
   svc \<in> set (cfg_Services cfg) \<and> sv_Protocol svc = protocol \<and> sv_Name svc = service"
  by (simp add: findService_def findServiceIn_Ok)

lemma findService_Err: "findService cfg protocol service = Err e \<Longrightarrow> errorsIs e ErrServiceNotFound"
  by (auto simp: findService_def findServiceIn_Err)

lemma findService_total [simp]: "findService cfg protocol service \<noteq> Panic"
  by (simp add: findService_def)

lemma resolveService_Ok:
  "resolveService cfg peerID protocol service = Ok svc \<longleftrightarrow>
   findService cfg protocol service = Ok svc \<and> (sv_Peers svc = [] \<or> peerID \<in> set (sv_Peers svc))"
  by (auto simp: resolveService_def bindR_eq_Ok authorizeServicePeer_Ok)

lemma resolveService_total [simp]: "resolveService cfg peerID protocol service \<noteq> Panic"
  by (auto simp: resolveService_def bindR_eq_Panic)

end
