(* ===== verification/Quic.thy ===== *)
theory Quic
  imports Qoru_Prelude
begin

text \<open>
  A QUIC stream as its user sees it: the bytes that will arrive, the bytes sent, and whether
  \<open>Close\<close> was called (which ends the sending side). The package \<^verbatim>\<open>quic-go\<close> itself is not part
  of the repository; opening a stream is a parameter where it is needed. A connection is known
  by a number.
\<close>

type_synonym conn = nat

record qstream =
  qs_in :: istream
  qs_out :: ostream
  qs_closed :: bool

definition onIn :: "(istream \<Rightarrow> 'a res \<times> istream) \<Rightarrow> qstream \<Rightarrow> 'a res \<times> qstream" where
  "onIn rd st = (case rd (qs_in st) of (m, i) \<Rightarrow> (m, st\<lparr>qs_in := i\<rparr>))"

definition onOut :: "(ostream \<Rightarrow> 'a res \<times> ostream) \<Rightarrow> qstream \<Rightarrow> 'a res \<times> qstream" where
  "onOut wr st = (case wr (qs_out st) of (m, o') \<Rightarrow> (m, st\<lparr>qs_out := o'\<rparr>))"

definition closeStream :: "qstream \<Rightarrow> qstream" where
  "closeStream st = st\<lparr>qs_closed := True\<rparr>"

text \<open>An error wrapped on the way out of a stateful call.\<close>

definition mapErrR :: "(go_error \<Rightarrow> go_error) \<Rightarrow> 'a res \<times> 's \<Rightarrow> 'a res \<times> 's" where
  "mapErrR h p = (wrapErr h (fst p), snd p)"

lemma mapErrR_simps [simp]:
  "mapErrR h (Ok x, s) = (Ok x, s)" "mapErrR h (Err e, s) = (Err (h e), s)" "mapErrR h (Panic, s) = (Panic, s)"
  by (simp_all add: mapErrR_def)

text \<open>Phases of a handshake, \<open>e2ePhaseError(phase, err)\<close>, and the phase of an error.\<close>

definition phase :: "string \<Rightarrow> 'a res \<Rightarrow> 'a res" where
  "phase p m = wrapErr (ErrPhase p) m"

fun asPhase :: "go_error \<Rightarrow> string option" where
  "asPhase (ErrPhase p e) = Some p"
| "asPhase _ = None"

definition e2eErrorPhase :: "go_error \<Rightarrow> string" where
  "e2eErrorPhase err = (case errorsAs asPhase err of Some p \<Rightarrow> p | None \<Rightarrow> [])"

lemma phase_simps [simp]: "phase p (Ok x) = Ok x" "phase p (Err e) = Err (ErrPhase p e)" "phase p Panic = Panic"
  by (simp_all add: phase_def)

lemma seqR_Ok:
  "seqR p f = (Ok y, s) \<longleftrightarrow> (\<exists>x s'. p = (Ok x, s') \<and> f x s' = (Ok y, s))"
  by (cases p; cases "fst p") auto

lemma pureThen_Ok: "pureThen m s f = (Ok y, s') \<longleftrightarrow> (\<exists>x. m = Ok x \<and> f x = (Ok y, s'))"
  by (cases m) auto

lemma mapErrR_Ok [simp]: "mapErrR h p = (Ok x, s) \<longleftrightarrow> p = (Ok x, s)"
  by (cases p; cases "fst p") auto

lemma phase_Ok [simp]: "phase p m = Ok x \<longleftrightarrow> m = Ok x"
  by (simp add: phase_def)

lemma onIn_Ok: "onIn rd st = (Ok x, st') \<longleftrightarrow> (\<exists>i. rd (qs_in st) = (Ok x, i) \<and> st' = st\<lparr>qs_in := i\<rparr>)"
  by (auto simp: onIn_def split: prod.splits)

lemma onOut_Ok: "onOut wr st = (Ok x, st') \<longleftrightarrow> (\<exists>i. wr (qs_out st) = (Ok x, i) \<and> st' = st\<lparr>qs_out := i\<rparr>)"
  by (auto simp: onOut_def split: prod.splits)

end
