(* ===== verification/Server_Peers.thy ===== *)
theory Server_Peers
  imports Identity Reconnect Server_Policy Quic
begin

text \<open>
  The sessions of a relay with its peers (\<^verbatim>\<open>internal/server/peers.go\<close>). A QUIC connection is a
  number; \<open>ps_dead\<close> holds those whose context has ended, closed by this node or by the other
  side (it stands for \<open>conn.Context().Err()\<close>, it is not a field of the struct). The mutex is
  released while a connection is dialled, so \<open>connection\<close> is two atomic sections around the
  dial, \<open>connectionStart\<close> and \<open>connectionFinish\<close>; \<open>connection\<close> is their composition when no
  other goroutine interferes, and \<open>peers_reach\<close> interleaves the sections freely.
\<close>

section \<open>State\<close>

record peerReconnectState =
  pr_nextDial :: time
  pr_lastDialErr :: "go_error option"
  pr_failCount :: nat

record peerSessions =
  ps_nodeID :: string
  ps_identity :: IdentityConfig
  ps_peers :: "string \<rightharpoonup> PeerConfig"
  ps_conns :: "string \<rightharpoonup> conn"
  ps_reconnect :: "string \<rightharpoonup> peerReconnectState"
  ps_dead :: "conn set"

definition newPeerSessions :: "Config \<Rightarrow> conn set \<Rightarrow> peerSessions" where
  "newPeerSessions cfg dead =
     \<lparr>ps_nodeID = cfg_NodeID cfg, ps_identity = cfg_Identity cfg,
      ps_peers = foldl (\<lambda>m peer. m(pc_ID peer \<mapsto> peer)) Map.empty (cfg_Peers cfg),
      ps_conns = Map.empty, ps_reconnect = Map.empty, ps_dead = dead\<rparr>"

text \<open>\<open>conn.Context().Err() == nil\<close> and \<open>conn.CloseWithError\<close>.\<close>

definition live :: "peerSessions \<Rightarrow> conn \<Rightarrow> bool" where
  "live s c \<longleftrightarrow> c \<notin> ps_dead s"

definition closeConn :: "conn \<Rightarrow> peerSessions \<Rightarrow> peerSessions" where
  "closeConn c s = s\<lparr>ps_dead := insert c (ps_dead s)\<rparr>"

section \<open>Operations\<close>

definition peerResetDialBackoff :: "string \<Rightarrow> peerSessions \<Rightarrow> peerSessions" where
  "peerResetDialBackoff peerID s = s\<lparr>ps_reconnect := (ps_reconnect s)(peerID := None)\<rparr>"

definition RegisterInbound :: "string \<Rightarrow> conn \<Rightarrow> peerSessions \<Rightarrow> bool \<times> peerSessions" where
  "RegisterInbound peerID conn s =
     (if ps_peers s peerID = None then (False, s)
      else case ps_conns s peerID of
        Some existing \<Rightarrow>
          if existing = conn \<and> live s existing then (True, s)
          else if live s existing then (True, closeConn conn s)
          else (True, peerResetDialBackoff peerID (s\<lparr>ps_conns := (ps_conns s)(peerID \<mapsto> conn)\<rparr>))
      | None \<Rightarrow> (True, peerResetDialBackoff peerID (s\<lparr>ps_conns := (ps_conns s)(peerID \<mapsto> conn)\<rparr>)))"

definition peerRecordDialFailure :: "time \<Rightarrow> string \<Rightarrow> go_error \<Rightarrow> peerSessions \<Rightarrow> peerSessions" where
  "peerRecordDialFailure now peerID err s =
     (let state = (case ps_reconnect s peerID of Some st \<Rightarrow> st
                   | None \<Rightarrow> \<lparr>pr_nextDial = 0, pr_lastDialErr = None, pr_failCount = 0\<rparr>);
          delay = backoffDelay (pr_failCount state);
          state = state\<lparr>pr_failCount := pr_failCount state + 1, pr_nextDial := now + delay,
                        pr_lastDialErr := Some err\<rparr> in
      s\<lparr>ps_reconnect := (ps_reconnect s)(peerID \<mapsto> state)\<rparr>)"

datatype conn_start = HaveConn conn | StartFailed go_error | MustDial PeerConfig

definition connectionStart :: "time \<Rightarrow> string \<Rightarrow> peerSessions \<Rightarrow> conn_start \<times> peerSessions" where
  "connectionStart now peerID s =
     (let go = (\<lambda>s. case ps_peers s peerID of
            None \<Rightarrow> (StartFailed (Errorf ''peer %q is not configured'' [FQ peerID]), s)
          | Some peer \<Rightarrow>
              if pc_Address peer = [] then (StartFailed (Errorf ''peer %q has no dial address'' [FQ peerID]), s)
              else case ps_reconnect s peerID of
                Some state \<Rightarrow>
                  if \<not> isZeroTime (pr_nextDial state) \<and> now < pr_nextDial state
                  then (StartFailed (ErrPeerReconnectBackoff peerID (pc_Address peer) (pr_nextDial state)
                          (pr_lastDialErr state)), s)
                  else (MustDial peer, s)
              | None \<Rightarrow> (MustDial peer, s)) in
      case ps_conns s peerID of
        Some conn \<Rightarrow>
          if live s conn then (HaveConn conn, s)
          else go ((closeConn conn s)\<lparr>ps_conns := (ps_conns s)(peerID := None)\<rparr>)
      | None \<Rightarrow> go s)"

definition connectionFinish :: "string \<Rightarrow> conn \<Rightarrow> peerSessions \<Rightarrow> conn \<times> peerSessions" where
  "connectionFinish peerID dialed s =
     (case ps_conns s peerID of
        Some existing \<Rightarrow>
          if live s existing then (existing, closeConn dialed s)
          else (dialed, peerResetDialBackoff peerID (s\<lparr>ps_conns := (ps_conns s)(peerID \<mapsto> dialed)\<rparr>))
      | None \<Rightarrow> (dialed, peerResetDialBackoff peerID (s\<lparr>ps_conns := (ps_conns s)(peerID \<mapsto> dialed)\<rparr>)))"

definition peerDrop :: "string \<Rightarrow> conn \<Rightarrow> peerSessions \<Rightarrow> peerSessions" where
  "peerDrop peerID conn s =
     (if ps_conns s peerID = Some conn
      then (closeConn conn s)\<lparr>ps_conns := (ps_conns s)(peerID := None)\<rparr>
      else s)"

definition peersClose :: "peerSessions \<Rightarrow> peerSessions" where
  "peersClose s = s\<lparr>ps_dead := ps_dead s \<union> ran (ps_conns s), ps_conns := Map.empty\<rparr>"

text \<open>
  What one call of \<open>connection\<close> meets: the clock when it starts and when a failed dial is
  recorded, and the outcome of \<open>quic.DialAddr\<close> for an address and TLS configuration.
\<close>

record dial_env =
  de_now :: time
  de_failNow :: time
  de_dial :: "string \<Rightarrow> tls_config \<Rightarrow> conn res"

definition connection ::
    "crypto_lib \<Rightarrow> file_lib \<Rightarrow> dial_env \<Rightarrow> string \<Rightarrow> peerSessions \<Rightarrow> conn res \<times> peerSessions" where
  "connection C F E peerID s =
     (case connectionStart (de_now E) peerID s of
        (HaveConn c, s) \<Rightarrow> (Ok c, s)
      | (StartFailed e, s) \<Rightarrow> (Err e, s)
      | (MustDial peer, s) \<Rightarrow>
          pureThen (ClientTLSConfig C F (ps_identity s) peerID) s (\<lambda>tlsConfig.
          case de_dial E (pc_Address peer) tlsConfig of
            Err e \<Rightarrow> (Err e, peerRecordDialFailure (de_failNow E) peerID e s)
          | Panic \<Rightarrow> (Panic, s)
          | Ok dialed \<Rightarrow> (case connectionFinish peerID dialed s of (c, s) \<Rightarrow> (Ok c, s))))"

text \<open>\<open>OpenStream\<close>: \<open>openSync\<close> is \<open>conn.OpenStreamSync\<close>; the second environment serves the retry.\<close>

definition OpenStream ::
    "crypto_lib \<Rightarrow> file_lib \<Rightarrow> dial_env \<Rightarrow> dial_env \<Rightarrow> (conn \<Rightarrow> 'st res) \<Rightarrow> string \<Rightarrow> peerSessions \<Rightarrow>
     'st res \<times> peerSessions" where
  "OpenStream C F E1 E2 openSync peerID s =
     (case connection C F E1 peerID s of
        (Err e, s) \<Rightarrow> (Err e, s)
      | (Panic, s) \<Rightarrow> (Panic, s)
      | (Ok conn, s) \<Rightarrow>
          (case openSync conn of
             Ok stream \<Rightarrow> (Ok stream, s)
           | Panic \<Rightarrow> (Panic, s)
           | Err err \<Rightarrow>
               (case connection C F E2 peerID (peerDrop peerID conn s) of
                  (Err connErr, s) \<Rightarrow> (Err (ErrorfWV ''%w; reconnect failed: %v'' err connErr), s)
                | (Panic, s) \<Rightarrow> (Panic, s)
                | (Ok conn, s) \<Rightarrow> (openSync conn, s))))"

text \<open>
  \<open>ConnectAll\<close> over the peers in the order the map iteration gives; it starts a
  \<open>maintainConnection\<close> goroutine for each and never fails.
\<close>

definition peersConnectAll ::
    "crypto_lib \<Rightarrow> file_lib \<Rightarrow> (string \<Rightarrow> dial_env) \<Rightarrow> PeerConfig list \<Rightarrow> peerSessions \<Rightarrow> unit res \<times> peerSessions" where
  "peersConnectAll C F E order s =
     (Ok (), foldl (\<lambda>s peer. if pc_Dial peer then snd (connection C F (E (pc_ID peer)) (pc_ID peer) s) else s) s order)"

text \<open>\<open>sleepUntilNextDial\<close>: how long the maintaining goroutine sleeps.\<close>

definition sleepDelay :: "time \<Rightarrow> string \<Rightarrow> peerSessions \<Rightarrow> time" where
  "sleepDelay now peerID s =
     (let nxt = (case ps_reconnect s peerID of Some st \<Rightarrow> pr_nextDial st | None \<Rightarrow> 0) in
      if \<not> isZeroTime nxt \<and> nxt > now then nxt - now else 500 * millisecond)"

section \<open>Backoff\<close>

definition peerBlocked :: "string \<Rightarrow> peerSessions \<Rightarrow> time \<Rightarrow> bool" where
  "peerBlocked peerID s now \<longleftrightarrow>
     (case ps_reconnect s peerID of
        Some st \<Rightarrow> \<not> isZeroTime (pr_nextDial st) \<and> now < pr_nextDial st
      | None \<Rightarrow> False)"

definition peerFailures :: "string \<Rightarrow> peerSessions \<Rightarrow> nat" where
  "peerFailures peerID s = (case ps_reconnect s peerID of Some st \<Rightarrow> pr_failCount st | None \<Rightarrow> 0)"

interpretation peer_backoff: reconnect_backoff "peerBlocked p" "\<lambda>now e. peerRecordDialFailure now p e"
  "peerResetDialBackoff p" "peerFailures p" for p
proof
  fix now t :: time and e s
  show "peerBlocked p (peerRecordDialFailure now p e s) t \<longleftrightarrow> t < now + backoffDelay (peerFailures p s)" if "0 < now"
  proof -
    have "now + backoffDelay n \<noteq> 0" for n
      using that backoffDelay_pos [of n] by linarith
    then show ?thesis
      by (simp add: peerBlocked_def peerRecordDialFailure_def peerFailures_def Let_def isZeroTime_def
          split: option.splits)
  qed
qed (simp_all add: peerBlocked_def peerRecordDialFailure_def peerFailures_def peerResetDialBackoff_def Let_def
    split: option.splits)

section \<open>Interleavings\<close>

text \<open>
  The states the goroutines can reach, with the connections handed over so far for each peer:
  dialled by \<open>connection\<close>, or accepted and registered by \<open>handleConnection\<close> (which also
  registers the connections the node dialled itself). A connection may end at any moment.
\<close>

inductive peers_reach :: "peerSessions \<Rightarrow> peerSessions \<Rightarrow> (string \<times> conn) set \<Rightarrow> bool" for s0 where
  init: "peers_reach s0 s0 {}"
| start: "peers_reach s0 s H \<Longrightarrow> peers_reach s0 (snd (connectionStart now p s)) H"
| dial_failed: "peers_reach s0 s H \<Longrightarrow> peers_reach s0 (peerRecordDialFailure now p e s) H"
| dialed: "peers_reach s0 s H \<Longrightarrow> \<forall>q. (q, c) \<notin> H \<Longrightarrow> peers_reach s0 (snd (connectionFinish p c s)) (insert (p, c) H)"
| inbound: "peers_reach s0 s H \<Longrightarrow> \<forall>q. (q, c) \<notin> H \<Longrightarrow> fst (RegisterInbound p c s) \<Longrightarrow>
    peers_reach s0 (snd (RegisterInbound p c s)) (insert (p, c) H)"
| inbound_unknown: "peers_reach s0 s H \<Longrightarrow> \<not> fst (RegisterInbound p c s) \<Longrightarrow>
    peers_reach s0 (snd (RegisterInbound p c s)) H"
| registered_again: "peers_reach s0 s H \<Longrightarrow> (p, c) \<in> H \<Longrightarrow> peers_reach s0 (snd (RegisterInbound p c s)) H"
| drop: "peers_reach s0 s H \<Longrightarrow> peers_reach s0 (peerDrop p c s) H"
| close: "peers_reach s0 s H \<Longrightarrow> peers_reach s0 (peersClose s) H"
| ends: "peers_reach s0 s H \<Longrightarrow> peers_reach s0 (closeConn c s) H"

text \<open>Every live connection handed over is the registered session of its peer.\<close>

definition sessions_inv :: "peerSessions \<Rightarrow> (string \<times> conn) set \<Rightarrow> bool" where
  "sessions_inv s H \<longleftrightarrow> (\<forall>p c. (p, c) \<in> H \<longrightarrow> live s c \<longrightarrow> ps_conns s p = Some c)"

lemma sessions_inv_start: "sessions_inv s H \<Longrightarrow> sessions_inv (snd (connectionStart now p s)) H"
  by (auto simp: connectionStart_def sessions_inv_def live_def closeConn_def Let_def split: option.splits)

lemma sessions_inv_failure: "sessions_inv s H \<Longrightarrow> sessions_inv (peerRecordDialFailure now p e s) H"
  by (simp add: peerRecordDialFailure_def sessions_inv_def live_def Let_def)

lemma sessions_inv_finish:
  "sessions_inv s H \<Longrightarrow> sessions_inv (snd (connectionFinish p c s)) (insert (p, c) H)"
  by (auto simp: connectionFinish_def sessions_inv_def live_def closeConn_def peerResetDialBackoff_def
      split: option.splits)

lemma sessions_inv_register:
  "sessions_inv s H \<Longrightarrow> fst (RegisterInbound p c s) \<Longrightarrow>
   sessions_inv (snd (RegisterInbound p c s)) (insert (p, c) H)"
  by (auto simp: RegisterInbound_def sessions_inv_def live_def closeConn_def peerResetDialBackoff_def
      split: option.splits if_splits)

lemma register_unknown: "\<not> fst (RegisterInbound p c s) \<Longrightarrow> snd (RegisterInbound p c s) = s"
  by (simp add: RegisterInbound_def split: option.splits if_splits)

lemma sessions_inv_drop: "sessions_inv s H \<Longrightarrow> sessions_inv (peerDrop p c s) H"
  by (auto simp: peerDrop_def sessions_inv_def live_def closeConn_def)

lemma sessions_inv_close: "sessions_inv s H \<Longrightarrow> sessions_inv (peersClose s) H"
  by (auto simp: peersClose_def sessions_inv_def live_def ran_def)

lemma sessions_inv_ends: "sessions_inv s H \<Longrightarrow> sessions_inv (closeConn c s) H"
  by (auto simp: sessions_inv_def live_def closeConn_def)

lemma peers_reach_inv: "peers_reach s0 s H \<Longrightarrow> sessions_inv s H"
proof (induction rule: peers_reach.induct)
  case init
  show ?case by (simp add: sessions_inv_def)
next
  case (registered_again s H p c)
  then show ?case
    using sessions_inv_register [of s H p c] register_unknown [of p c s]
    by (cases "fst (RegisterInbound p c s)") (auto simp: insert_absorb)
qed (auto simp: sessions_inv_start sessions_inv_failure sessions_inv_finish sessions_inv_register
    sessions_inv_drop sessions_inv_close sessions_inv_ends register_unknown)

section \<open>Properties\<close>

text \<open>
  C5: a node keeps at most one live session per peer. In every interleaving of dials, inbound
  registrations, drops, closes and connection losses, all connections handed over for a peer
  that are still alive are one and the same, and it is the one registered for that peer.
\<close>

theorem one_live_session:
  assumes "peers_reach (newPeerSessions cfg dead) s H" "(p, c) \<in> H" "(p, c') \<in> H" "live s c" "live s c'"
  shows "c = c' \<and> ps_conns s p = Some c"
  using peers_reach_inv [OF assms(1)] assms(2-5) unfolding sessions_inv_def by (metis option.inject)

definition sample_peer_config :: Config where
  "sample_peer_config = \<lparr>cfg_NodeID = ''a'', cfg_Mode = ''server'',
     cfg_Identity = \<lparr>ic_Cert = ''c'', ic_Key = ''k'', ic_CA = ''ca''\<rparr>,
     cfg_ServiceIdentity = \<lparr>si_CA = []\<rparr>, cfg_Servers = [],
     cfg_Peers = [\<lparr>pc_ID = ''b'', pc_Address = ''b:1'', pc_Dial = True\<rparr>], cfg_Listen = '':1'',
     cfg_Forwards = [], cfg_Routes = [], cfg_Services = [], cfg_AllowedRelayClients = []\<rparr>"

theorem one_live_session_witness:
  "let s1 = snd (RegisterInbound ''b'' 7 (newPeerSessions sample_peer_config {}));
       s2 = snd (connectionFinish ''b'' 8 s1) in
   peers_reach (newPeerSessions sample_peer_config {}) s2 {(''b'', 8), (''b'', 7)} \<and> live s2 7 \<and> \<not> live s2 8 \<and>
   7 = (7 :: conn) \<and> ps_conns s2 ''b'' = Some 7"
proof -
  let ?s0 = "newPeerSessions sample_peer_config {}"
  let ?s1 = "snd (RegisterInbound ''b'' 7 ?s0)"
  let ?s2 = "snd (connectionFinish ''b'' 8 ?s1)"
  have f: "fst (RegisterInbound ''b'' 7 ?s0)"
    by (simp add: RegisterInbound_def newPeerSessions_def sample_peer_config_def)
  have 1: "peers_reach ?s0 ?s1 {(''b'', 7)}"
    by (rule peers_reach.inbound [OF peers_reach.init]) (use f in simp_all)
  have 2: "peers_reach ?s0 ?s2 {(''b'', 8), (''b'', 7)}"
    by (rule peers_reach.dialed [OF 1]) simp
  have 3: "live ?s2 7" "\<not> live ?s2 8"
    by (simp_all add: live_def connectionFinish_def RegisterInbound_def newPeerSessions_def
        sample_peer_config_def closeConn_def peerResetDialBackoff_def)
  show ?thesis
    using one_live_session [OF 2, of "''b''" 7 7] 2 3 by (simp add: Let_def)
qed

text \<open>
  A live session is never displaced. While the session registered for a peer is alive,
  dialling that peer again, losing the race against another dial, or accepting another
  connection from it leaves the session registered and alive; the newcomer is closed, and a
  caller that dialled is given the existing session.
\<close>

theorem live_session_kept:
  assumes "ps_conns s p = Some c" "live s c" "c' \<noteq> c"
  shows "connectionStart now p s = (HaveConn c, s) \<and>
    (case connectionFinish p c' s of (r, s') \<Rightarrow> r = c \<and> ps_conns s' p = Some c \<and> live s' c \<and> \<not> live s' c') \<and>
    (case RegisterInbound p c' s of (known, s') \<Rightarrow>
       ps_conns s' p = Some c \<and> live s' c \<and> known = (ps_peers s p \<noteq> None) \<and> (known \<longrightarrow> \<not> live s' c'))"
  using assms
  by (auto simp: connectionStart_def connectionFinish_def RegisterInbound_def live_def closeConn_def Let_def)

theorem live_session_kept_witness:
  "let s = snd (RegisterInbound ''b'' 7 (newPeerSessions sample_peer_config {})) in
   ps_conns s ''b'' = Some 7 \<and> live s 7 \<and> connectionStart 5 ''b'' s = (HaveConn 7, s)"
proof -
  define s where "s = snd (RegisterInbound ''b'' 7 (newPeerSessions sample_peer_config {}))"
  have "ps_conns s ''b'' = Some 7" "live s 7"
    by (simp_all add: s_def live_def RegisterInbound_def newPeerSessions_def sample_peer_config_def
        peerResetDialBackoff_def)
  then show ?thesis
    using live_session_kept [of s "''b''" 7 8 5] by (simp add: s_def Let_def)
qed

lemma connectionStart_dial:
  "connectionStart now p s = (MustDial peer, s') \<Longrightarrow> ps_peers s p = Some peer \<and> pc_Address peer \<noteq> [] \<and>
   \<not> peerBlocked p s now \<and> (\<forall>c. ps_conns s p = Some c \<longrightarrow> \<not> live s c)"
  by (auto simp: connectionStart_def peerBlocked_def closeConn_def Let_def split: option.splits if_splits)

text \<open>
  Reconnect attempts to a peer back off. After the session is reset, once the nth dial in a
  row has failed (n counted from 0), no call dials the peer before the nth delay of the table
  has passed, that is half a second doubled n times and at most 16 seconds.
\<close>

theorem peer_dials_back_off:
  assumes "0 < now"
    and "s1 = fold (\<lambda>(now, e). peerRecordDialFailure now p e) (fs @ [(now, e)]) (peerResetDialBackoff p s)"
    and "connectionStart t p s1 = (MustDial peer, s')"
  shows "now + (if length fs < 5 then 500000000 * 2 ^ length fs else 16000000000) \<le> t"
  using connectionStart_dial [OF assms(3)] peer_backoff.blocked_after_run [OF assms(1), of p fs e s t]
  by (simp add: assms(2) peer_backoff.failed_run_def backoffDelay_closed qoru_consts split: if_splits)

theorem peer_dials_back_off_witness:
  "let s = newPeerSessions sample_peer_config {};
       s1 = peerRecordDialFailure 10 ''b'' EOF (peerResetDialBackoff ''b'' s) in
   connectionStart 500000010 ''b'' s1 = (MustDial \<lparr>pc_ID = ''b'', pc_Address = ''b:1'', pc_Dial = True\<rparr>, s1) \<and>
   10 + (500000000 :: int) \<le> 500000010"
proof -
  define s where "s = newPeerSessions sample_peer_config {}"
  define s1 where "s1 = peerRecordDialFailure 10 ''b'' EOF (peerResetDialBackoff ''b'' s)"
  have d: "connectionStart 500000010 ''b'' s1 = (MustDial \<lparr>pc_ID = ''b'', pc_Address = ''b:1'', pc_Dial = True\<rparr>, s1)"
    by (simp add: s1_def s_def newPeerSessions_def sample_peer_config_def connectionStart_def isZeroTime_def
        peerRecordDialFailure_def peerResetDialBackoff_def backoffDelay_closed qoru_consts Let_def)
  show ?thesis
    using peer_dials_back_off [of 10 s1 "''b''" "[]" EOF s] d by (simp add: s1_def s_def Let_def)
qed

end
