(* ===== verification/RequestId.thy ===== *)
theory RequestId
  imports Qoru_Prelude
begin

text \<open>
  Request identifiers (\<^verbatim>\<open>internal/requestid/requestid.go\<close>). The UUID package
  \<^verbatim>\<open>github.com/google/uuid\<close> is not part of the repository: it is the parameter
  \<open>U\<close> of the definitions, a record of the functions the code calls. A UUID is its 16
  bytes. What the code relies on is \<open>uuid_laws\<close>.
\<close>

record uuid_lib =
  uuid_Parse :: "string \<Rightarrow> bytes res"
  uuid_FromBytes :: "bytes \<Rightarrow> bytes res"
  uuid_Version :: "bytes \<Rightarrow> nat"
  uuid_String :: "bytes \<Rightarrow> string"

text \<open>
  Documented behaviour of the package: \<open>Parse\<close> yields a 16-byte identifier or an error;
  \<open>FromBytes\<close> fails exactly when it is not given 16 bytes and otherwise keeps them;
  \<open>String\<close> prints the form that \<open>Parse\<close> reads back; the longest form \<open>Parse\<close> accepts is the
  URN of 45 characters.
\<close>

definition uuid_laws :: "uuid_lib \<Rightarrow> bool" where
  "uuid_laws U \<longleftrightarrow>
     (\<forall>s. uuid_Parse U s \<noteq> Panic) \<and>
     (\<forall>s b. uuid_Parse U s = Ok b \<longrightarrow> length b = 16) \<and>
     (\<forall>b. length b = 16 \<longrightarrow> uuid_FromBytes U b = Ok b) \<and>
     (\<forall>b. length b \<noteq> 16 \<longrightarrow> (\<exists>e. uuid_FromBytes U b = Err e)) \<and>
     (\<forall>b. length b = 16 \<longrightarrow> uuid_Parse U (uuid_String U b) = Ok b) \<and>
     (\<forall>s b. uuid_Parse U s = Ok b \<longrightarrow> length s \<le> 45)"

definition requestid_Version :: nat where
  [qoru_consts]: "requestid_Version = 7"

text \<open>\<open>New\<close>: the draw of \<open>uuid.NewV7\<close> is the argument.\<close>

definition requestid_New :: "uuid_lib \<Rightarrow> bytes res \<Rightarrow> string res" where
  "requestid_New U newV7 = bindR newV7 (\<lambda>i. Ok (uuid_String U i))"

definition ParseBytes :: "uuid_lib \<Rightarrow> string \<Rightarrow> bytes res" where
  "ParseBytes U s =
     bindR (uuid_Parse U s) (\<lambda>i.
       if uuid_Version U i \<noteq> requestid_Version
       then Err (Errorf ''request_id UUID version must be %d'' [FD (int requestid_Version)])
       else Ok i)"

definition FromBytes :: "uuid_lib \<Rightarrow> bytes \<Rightarrow> string res" where
  "FromBytes U b =
     bindR (uuid_FromBytes U b) (\<lambda>i.
       if uuid_Version U i \<noteq> requestid_Version
       then Err (Errorf ''request_id UUID version must be %d'' [FD (int requestid_Version)])
       else Ok (uuid_String U i))"

text \<open>A request identifier in the form the code generates: the printed form of a UUIDv7.\<close>

definition canonical_id :: "uuid_lib \<Rightarrow> string \<Rightarrow> bool" where
  "canonical_id U s \<longleftrightarrow> (case ParseBytes U s of Ok b \<Rightarrow> uuid_String U b = s | _ \<Rightarrow> False)"

text \<open>
  A concrete package for the witnesses: identifiers print as their 16 raw bytes, the version
  is the high nibble of byte 6 (as in RFC 9562).
\<close>

definition raw_uuid :: uuid_lib where
  "raw_uuid =
     \<lparr>uuid_Parse = (\<lambda>s. if length s = 16 then Ok (bytes_of s) else Err (LibError ''invalid UUID length'')),
      uuid_FromBytes = (\<lambda>b. if length b = 16 then Ok b else Err (LibError ''invalid UUID (got %d bytes)'')),
      uuid_Version = (\<lambda>b. unat (b ! 6) div 16),
      uuid_String = string_of\<rparr>"

lemma raw_uuid_laws: "uuid_laws raw_uuid"
  by (simp add: uuid_laws_def raw_uuid_def)

lemma ParseBytes_ne_Panic: "uuid_laws U \<Longrightarrow> ParseBytes U s \<noteq> Panic"
  by (auto simp: ParseBytes_def uuid_laws_def bindR_eqs)

lemma ParseBytes_length: "uuid_laws U \<Longrightarrow> ParseBytes U s = Ok b \<Longrightarrow> length b = 16"
  by (auto simp: ParseBytes_def uuid_laws_def bindR_eqs split: if_splits)

lemma ParseBytes_input_length: "uuid_laws U \<Longrightarrow> ParseBytes U s = Ok b \<Longrightarrow> length s \<le> 45"
  by (auto simp: ParseBytes_def uuid_laws_def bindR_eqs split: if_splits)

lemma ParseBytes_version: "ParseBytes U s = Ok b \<Longrightarrow> uuid_Version U b = requestid_Version"
  by (auto simp: ParseBytes_def bindR_eqs split: if_splits)

lemma FromBytes_ne_Panic: "uuid_laws U \<Longrightarrow> FromBytes U b \<noteq> Panic"
  by (cases "length b = 16") (auto simp: FromBytes_def uuid_laws_def bindR_eqs)

lemma uuid_String_Parse: "uuid_laws U \<Longrightarrow> length b = 16 \<Longrightarrow> uuid_Parse U (uuid_String U b) = Ok b"
  by (simp add: uuid_laws_def)

lemma uuid_FromBytes_Ok: "uuid_laws U \<Longrightarrow> length b = 16 \<Longrightarrow> uuid_FromBytes U b = Ok b"
  by (simp add: uuid_laws_def)

lemma FromBytes_ParseBytes:
  "uuid_laws U \<Longrightarrow> ParseBytes U s = Ok b \<Longrightarrow> FromBytes U b = Ok (uuid_String U b)"
  by (simp add: FromBytes_def ParseBytes_length ParseBytes_version uuid_FromBytes_Ok)

lemma ParseBytes_FromBytes:
  "uuid_laws U \<Longrightarrow> length b = 16 \<Longrightarrow> FromBytes U b = Ok s \<Longrightarrow> ParseBytes U s = Ok b"
  by (auto simp: FromBytes_def ParseBytes_def uuid_FromBytes_Ok uuid_String_Parse split: if_splits)

lemma canonical_id_iff:
  "canonical_id U s \<longleftrightarrow> (\<exists>b. ParseBytes U s = Ok b \<and> uuid_String U b = s)"
  by (simp add: canonical_id_def split: res.splits)

lemma FromBytes_canonical:
  "uuid_laws U \<Longrightarrow> length b = 16 \<Longrightarrow> FromBytes U b = Ok s \<Longrightarrow> canonical_id U s"
  by (auto simp: canonical_id_iff FromBytes_def ParseBytes_def uuid_FromBytes_Ok uuid_String_Parse
      split: if_splits)

text \<open>What \<open>New\<close> returns is canonical when the package draws a version 7 identifier.\<close>

lemma requestid_New_canonical:
  "uuid_laws U \<Longrightarrow> length b = 16 \<Longrightarrow> uuid_Version U b = 7 \<Longrightarrow>
   \<exists>s. requestid_New U (Ok b) = Ok s \<and> canonical_id U s"
  by (auto simp: requestid_New_def canonical_id_iff ParseBytes_def uuid_String_Parse qoru_consts)

end
