(* ===== verification/Protocol_Lemmas.thy ===== *)
theory Protocol_Lemmas
  imports Protocol
begin

text \<open>
  The byte layouts of the control protocol as plain concatenations, and the facts that the
  code's buffer-filling writers produce them and its offset-walking readers invert them.
  The interface of a framed message (\<open>frame_codec\<close>) collects what a client of the
  protocol package relies on; every message type of the program interprets it.
\<close>

section \<open>Frames\<close>

definition frameBytes :: "MessageType \<Rightarrow> bytes \<Rightarrow> bytes" where
  "frameBytes typ payload = [Version, typ] @ be16 (length payload) @ payload"

lemma WriteFrame_reliable:
  "reliable w \<Longrightarrow> length payload \<le> MaxPayloadSize \<Longrightarrow>
   WriteFrame w typ payload = (Ok (), w\<lparr>os_data := os_data w @ frameBytes typ payload\<rparr>)"
  by (simp add: WriteFrame_def frameBytes_def)

lemma WriteFrame_Ok_length: "fst (WriteFrame w typ payload) = Ok u \<Longrightarrow> length payload \<le> MaxPayloadSize"
  by (auto simp: WriteFrame_def split: if_splits)

lemma WriteFrame_ne_Panic [simp]: "fst (WriteFrame w typ payload) \<noteq> Panic"
  by (simp add: WriteFrame_def fst_seqR_Panic)

lemma ReadFrame_frameBytes:
  assumes "length payload \<le> MaxPayloadSize"
  shows "ReadFrame \<lparr>is_data = frameBytes typ payload @ rest, is_end = e\<rparr> =
     (Ok \<lparr>fr_Version = Version, fr_Type = typ, fr_Payload = payload\<rparr>, \<lparr>is_data = rest, is_end = e\<rparr>)"
proof -
  let ?h = "[Version, typ] @ be16 (length payload)"
  have split: "frameBytes typ payload @ rest = ?h @ payload @ rest"
    by (simp add: frameBytes_def)
  have "length payload < 65536"
    using assms by (simp add: qoru_consts)
  then have "uint16At ?h 2 = Ok (length payload)"
    using uint16At_append [of 2 "[Version, typ]" "length payload" "[]"] by simp
  moreover have "byteAt ?h 0 = Ok Version" "byteAt ?h 1 = Ok typ"
    by (simp_all add: byteAt_def)
  ultimately show ?thesis
    using assms
    unfolding ReadFrame_def split
    by (subst ReadFull_append) (simp_all add: ReadFull_append not_less del: append.simps)
qed

lemma ReadFrame_ne_Panic [simp]: "fst (ReadFrame r) \<noteq> Panic"
proof (cases "fst (ReadFull r 4)")
  case (Ok h)
  then have len: "length h = 4"
    by (metis ReadFull_length prod.collapse)
  then have "byteAt h 0 \<noteq> Panic" "byteAt h 1 \<noteq> Panic" "uint16At h 2 \<noteq> Panic"
    by simp_all
  then show ?thesis
    by (auto simp: ReadFrame_def fst_seqR_Panic fst_pureThen_Panic Ok split: if_splits)
next
  case (Err e)
  then show ?thesis by (simp add: ReadFrame_def fst_seqR_Panic)
next
  case Panic
  then show ?thesis by simp
qed

text \<open>A frame that is read was on the wire, in the layout \<open>WriteFrame\<close> produces.\<close>

lemma ReadFrame_Ok:
  assumes "ReadFrame r = (Ok f, r')"
  shows "is_data r = frameBytes (fr_Type f) (fr_Payload f) @ is_data r'"
    and "is_end r' = is_end r"
    and "fr_Version f = Version"
    and "length (fr_Payload f) \<le> MaxPayloadSize"
proof -
  obtain h r1 where h: "ReadFull r 4 = (Ok h, r1)"
    using assms by (cases "ReadFull r 4"; cases "fst (ReadFull r 4)") (auto simp: ReadFrame_def)
  obtain b0 b1 b2 b3 where hb: "h = [b0, b1, b2, b3]"
    using ReadFull_length [OF h] by (auto simp: length_Suc_conv numeral_eq_Suc)
  have b: "byteAt h 0 = Ok b0" "byteAt h 1 = Ok b1"
    by (simp_all add: hb byteAt_def)
  obtain n where n: "uint16At h 2 = Ok n"
    using hb by (cases "uint16At h 2") auto
  have n16: "be16 n = [b2, b3]"
    using be16_getUint16 [of "[b2, b3]" n] n by (simp add: hb uint16At_def slice_def)
  obtain p r2 where p: "ReadFull r1 n = (Ok p, r2)"
    using assms h b n
    by (cases "ReadFull r1 n"; cases "fst (ReadFull r1 n)")
      (auto simp: ReadFrame_def split: if_splits)
  have f: "f = \<lparr>fr_Version = Version, fr_Type = b1, fr_Payload = p\<rparr>" "r' = r2"
      "b0 = Version" "n \<le> MaxPayloadSize"
    using assms h b n p by (auto simp: ReadFrame_def split: if_splits)
  have "is_data r = [Version, b1] @ be16 n @ p @ is_data r2"
    using ReadFull_data [OF h] ReadFull_data [OF p] by (simp add: hb n16 f)
  then show "is_data r = frameBytes (fr_Type f) (fr_Payload f) @ is_data r'"
    using ReadFull_length [OF p] by (simp add: f frameBytes_def)
  show "is_end r' = is_end r" "fr_Version f = Version" "length (fr_Payload f) \<le> MaxPayloadSize"
    using ReadFull_data [OF h] ReadFull_data [OF p] ReadFull_length [OF p] f by simp_all
qed

text \<open>A frame cut short is never taken for a frame.\<close>

lemma ReadFrame_truncated:
  assumes "length payload \<le> MaxPayloadSize" "frameBytes typ payload = d @ d'" "d' \<noteq> []"
  shows "fst (ReadFrame \<lparr>is_data = d, is_end = EOF\<rparr>) \<in> {Err EOF, Err ErrUnexpectedEOF}"
proof (cases "length d < 4")
  case True
  then show ?thesis by (auto simp: ReadFrame_def ReadFull_def)
next
  case False
  let ?h = "[Version, typ] @ be16 (length payload)"
  have "?h = take 4 (frameBytes typ payload)"
    by (simp add: frameBytes_def be16_def)
  also have "\<dots> = take 4 d"
    using assms(2) False by simp
  finally have d: "d = ?h @ drop 4 d"
    by (metis append_take_drop_id)
  then have cut: "payload = drop 4 d @ d'"
    using assms(2) by (metis append.assoc frameBytes_def same_append_eq)
  have "length payload < 65536"
    using assms by (simp add: qoru_consts)
  then have "uint16At ?h 2 = Ok (length payload)"
    using uint16At_append [of 2 "[Version, typ]" "length payload" "[]"] by simp
  moreover have "byteAt ?h 0 = Ok Version" "byteAt ?h 1 = Ok typ"
    by (simp_all add: byteAt_def)
  moreover have "ReadFull \<lparr>is_data = d, is_end = EOF\<rparr> 4 = (Ok ?h, \<lparr>is_data = drop 4 d, is_end = EOF\<rparr>)"
    by (subst d) (rule ReadFull_append, simp)
  moreover have "\<not> length payload \<le> length (drop 4 d)"
    using cut assms(3) by (cases d') auto
  ultimately show ?thesis
    using assms(1) by (auto simp: ReadFrame_def ReadFull_def)
qed

section \<open>Routes\<close>

definition hopBytes :: "string \<Rightarrow> bytes" where
  "hopBytes hop = be16 (length hop) @ bytes_of hop"

definition hopsBytes :: "string list \<Rightarrow> bytes" where
  "hopsBytes route = concat (map hopBytes route)"

definition routeBytes :: "string list \<Rightarrow> bytes" where
  "routeBytes route = word_of_nat (length route) # hopsBytes route"

definition ok_hop :: "string \<Rightarrow> bool" where
  "ok_hop hop \<longleftrightarrow> hop \<noteq> [] \<and> length hop \<le> MaxTargetLength"

definition ok_route :: "string list \<Rightarrow> bool" where
  "ok_route route \<longleftrightarrow> length route \<le> 255 \<and> list_all ok_hop route"

lemma hopsBytes_simps [simp]:
  "hopsBytes [] = []" "hopsBytes (h # hs) = be16 (length h) @ bytes_of h @ hopsBytes hs"
  by (simp_all add: hopsBytes_def hopBytes_def)

lemma routeBytes_ne_Nil [simp]: "routeBytes route \<noteq> []" "[] \<noteq> routeBytes route"
  by (simp_all add: routeBytes_def)

lemma encodedRouteLengthFrom_Ok:
  "encodedRouteLengthFrom len i route label = Ok n \<longleftrightarrow>
   list_all ok_hop route \<and> n = len + length (hopsBytes route)"
  by (induction len i route label rule: encodedRouteLengthFrom.induct) (auto simp: ok_hop_def)

lemma encodedRouteLength_Ok:
  "encodedRouteLength route label = Ok n \<longleftrightarrow> ok_route route \<and> n = length (routeBytes route)"
  by (auto simp: encodedRouteLength_def ok_route_def routeBytes_def encodedRouteLengthFrom_Ok)

lemma encodedRouteLengthFrom_ne_Panic [simp]: "encodedRouteLengthFrom len i route label \<noteq> Panic"
  by (induction len i route label rule: encodedRouteLengthFrom.induct) auto

lemma encodedRouteLength_ne_Panic [simp]: "encodedRouteLength route label \<noteq> Panic"
  by (simp add: encodedRouteLength_def)

lemma writeHops_wbuf:
  "length (hopsBytes route) \<le> m \<Longrightarrow>
   writeHops (wbuf xs m) (length xs) route =
     Ok (wbuf (xs @ hopsBytes route) (m - length (hopsBytes route)),
         length xs + length (hopsBytes route))"
proof (induction route arbitrary: xs m)
  case Nil
  then show ?case by simp
next
  case (Cons hop route)
  then show ?case
    using Cons.IH [of "m - 2 - length hop" "xs @ be16 (length hop) @ bytes_of hop"]
    by (simp add: codec_simps)
qed

lemma writeRoute_wbuf [codec_simps]:
  "offset = length xs \<Longrightarrow> length (routeBytes route) \<le> m \<Longrightarrow>
   writeRoute (wbuf xs m) offset route =
     Ok (wbuf (xs @ routeBytes route) (m - length (routeBytes route)),
         offset + length (routeBytes route))"
  using writeHops_wbuf [of route "m - 1" "xs @ [word_of_nat (length route)]"]
  by (simp add: writeRoute_def codec_simps routeBytes_def)

lemma readRouteFrom_hops:
  "cursor payload offset (hopsBytes route @ rest) \<Longrightarrow> list_all ok_hop route \<Longrightarrow>
   readRouteFrom payload offset i (length route) label =
     Ok (route, offset + length (hopsBytes route))"
proof (induction route arbitrary: offset i)
  case Nil
  then show ?case by simp
next
  case (Cons hop route)
  let ?n = "length hop"
  from Cons.prems have hop: "hop \<noteq> []" "?n \<le> MaxTargetLength" "?n < 65536"
    by (auto simp: ok_hop_def qoru_consts)
  from Cons.prems have c0: "cursor payload offset (be16 ?n @ bytes_of hop @ hopsBytes route @ rest)"
    by simp
  then have c1: "cursor payload (offset + 2) (bytes_of hop @ hopsBytes route @ rest)"
    by (rule cursor_adv) simp
  then have c2: "cursor payload (offset + 2 + ?n) (hopsBytes route @ rest)"
    by (rule cursor_adv) simp
  have "readRouteFrom payload (offset + 2 + ?n) (i + 1) (length route) label =
      Ok (route, offset + 2 + ?n + length (hopsBytes route))"
    using Cons.prems c2 by (intro Cons.IH) auto
  moreover have "uint16At payload offset = Ok ?n"
    using c0 hop(3) by (rule cursor_uint16At)
  moreover have "slice payload (offset + 2) (offset + 2 + ?n) = Ok (bytes_of hop)"
    using c1 by (rule cursor_slice) simp
  ultimately show ?case
    using hop cursor_length [OF c0] cursor_length [OF c2] by simp
qed

lemma readRouteFrom_ne_Panic [simp]: "readRouteFrom payload offset i todo label \<noteq> Panic"
  by (induction payload offset i todo label rule: readRouteFrom.induct)
    (auto simp: bindR_eqs split: if_splits prod.splits)

lemma readRouteFrom_Ok:
  "readRouteFrom payload offset i todo label = Ok (route, nxt) \<Longrightarrow> offset \<le> length payload \<Longrightarrow>
   cursor payload offset (hopsBytes route @ drop nxt payload) \<and> nxt \<le> length payload \<and>
   length route = todo \<and> list_all ok_hop route"
proof (induction payload offset i todo label arbitrary: route nxt rule: readRouteFrom.induct)
  case (1 payload offset i label)
  then show ?case by (auto simp: cursor_def)
next
  case (2 payload offset i todo label)
  from "2.prems" obtain n hop hops where
    n: "uint16At payload offset = Ok n" "n \<noteq> 0" "n \<le> MaxTargetLength"
      "offset + 2 + n \<le> length payload"
    and hop: "slice payload (offset + 2) (offset + 2 + n) = Ok hop"
    and rec: "readRouteFrom payload (offset + 2 + n) (i + 1) todo label = Ok (hops, nxt)"
    and route: "route = string_of hop # hops"
    by (auto simp: bindR_eqs split: if_splits)
  have IH: "cursor payload (offset + 2 + n) (hopsBytes hops @ drop nxt payload)"
      "nxt \<le> length payload" "length hops = todo" "list_all ok_hop hops"
    using "2.IH" [OF _ _ _ _ rec] n "2.prems"(2) by auto
  have len: "length hop = n"
    using slice_length [OF hop] by simp
  have "cursor payload offset (be16 n @ hop @ drop (offset + 2 + n) payload)"
    using uint16At_cursor [OF n(1)] slice_cursor [OF hop] by (simp add: cursor_def)
  then show ?case
    using IH n len by (auto simp: route cursor_def ok_hop_def [of "string_of hop"])
qed

lemma readRoute_ne_Panic [simp]: "readRoute payload offset n label \<noteq> Panic"
  by (simp add: readRoute_def)

section \<open>The connect request\<close>

definition valid_request :: "uuid_lib \<Rightarrow> ConnectRequest \<Rightarrow> bool" where
  "valid_request U req \<longleftrightarrow>
     is_Ok (ParseBytes U (rq_RequestID req)) \<and>
     rq_Protocol req \<noteq> [] \<and> length (rq_Protocol req) \<le> MaxProtocolLength \<and>
     rq_Service req \<noteq> [] \<and> length (rq_Service req) \<le> MaxTargetLength \<and>
     length (rq_Egress req) \<le> MaxTargetLength \<and>
     ok_route (rq_Route req) \<and> ok_route (rq_E2ERoute req)"

definition requestBytes :: "bytes \<Rightarrow> ConnectRequest \<Rightarrow> bytes" where
  "requestBytes idb req =
     idb @ word_of_nat (length (rq_Protocol req)) # bytes_of (rq_Protocol req) @
     be16 (length (rq_Service req)) @ bytes_of (rq_Service req) @
     be16 (length (rq_Egress req)) @ bytes_of (rq_Egress req) @
     routeBytes (rq_Route req) @ (if rq_E2ERequired req then 1 else 0) # routeBytes (rq_E2ERoute req)"

lemma flag_wbuf [codec_simps]:
  "offset = length xs \<Longrightarrow> 0 < m \<Longrightarrow>
   (if c then putByteAt (wbuf xs m) offset 1 else Ok (wbuf xs m)) =
   Ok (wbuf (xs @ [if c then 1 else 0]) (m - 1))"
  using putByteAt_wbuf [of offset xs m 1] wbuf_zero [of m xs] by (cases c) simp_all

lemma connectRequestPayload_valid:
  assumes "uuid_laws U" "valid_request U req" "ParseBytes U (rq_RequestID req) = Ok idb"
  shows "connectRequestPayload U req = Ok (requestBytes idb req)"
proof -
  have idb: "length idb = 16"
    using assms ParseBytes_length by blast
  have r: "encodedRouteLength (rq_Route req) l = Ok (length (routeBytes (rq_Route req)))"
      "encodedRouteLength (rq_E2ERoute req) l = Ok (length (routeBytes (rq_E2ERoute req)))" for l
    using assms(2) by (simp_all add: encodedRouteLength_Ok valid_request_def)
  show ?thesis
    using assms idb
    by (simp add: connectRequestPayload_def valid_request_def r replicate_wbuf Let_def
        codec_simps requestBytes_def not_less)
qed

lemma connectRequestPayload_Ok:
  assumes "uuid_laws U" "connectRequestPayload U req = Ok p"
  shows "valid_request U req"
    and "\<exists>idb. ParseBytes U (rq_RequestID req) = Ok idb \<and> p = requestBytes idb req"
proof -
  show v: "valid_request U req"
    using assms(2)
    by (auto simp: connectRequestPayload_def valid_request_def bindR_eq_Ok encodedRouteLength_Ok
        not_less split: if_splits)
  then obtain idb where "ParseBytes U (rq_RequestID req) = Ok idb"
    by (auto simp: valid_request_def is_Ok_iff)
  then show "\<exists>idb. ParseBytes U (rq_RequestID req) = Ok idb \<and> p = requestBytes idb req"
    using connectRequestPayload_valid [OF assms(1) v] assms(2) by auto
qed

lemma connectRequestPayload_ne_Panic:
  assumes "uuid_laws U"
  shows "connectRequestPayload U req \<noteq> Panic"
proof
  assume P: "connectRequestPayload U req = Panic"
  then have "valid_request U req"
    using ParseBytes_ne_Panic [OF assms]
    by (auto simp: connectRequestPayload_def valid_request_def bindR_eq_Panic encodedRouteLength_Ok
        not_less split: if_splits)
  then show False
    using P connectRequestPayload_valid [OF assms] by (auto simp: valid_request_def is_Ok_iff)
qed

text \<open>The request as the next node sees it: the identifier in its printed form.\<close>

definition canonRequest :: "uuid_lib \<Rightarrow> ConnectRequest \<Rightarrow> ConnectRequest" where
  "canonRequest U req =
     (case ParseBytes U (rq_RequestID req) of
        Ok idb \<Rightarrow> req\<lparr>rq_RequestID := uuid_String U idb\<rparr>
      | _ \<Rightarrow> req)"

lemma canonRequest_id: "canonical_id U (rq_RequestID req) \<Longrightarrow> canonRequest U req = req"
  by (auto simp: canonRequest_def canonical_id_iff)

lemma readE2ERequired_cursor:
  "cursor p off ((if c then 1 else 0) # rest) \<Longrightarrow> readE2ERequired p off = Ok (c, off + 1)"
  by (simp add: readE2ERequired_def cursor_sliceFrom cursor_byteAt)

lemma readE2ERoute_cursor:
  "cursor p off (routeBytes route) \<Longrightarrow> ok_route route \<Longrightarrow>
   readE2ERoute p off = Ok (route, off + length (routeBytes route))"
  using cursor_adv1 [of p off "word_of_nat (length route)" "hopsBytes route" "off + 1"]
    readRouteFrom_hops [of p "off + 1" route "[]"]
  by (simp add: readE2ERoute_def cursor_sliceFrom cursor_byteAt routeBytes_def readRoute_def
      ok_route_def unat_byte_of_nat)

text \<open>Where the fields of an encoded request lie.\<close>

definition offS :: "ConnectRequest \<Rightarrow> nat" where
  "offS req = 17 + length (rq_Protocol req)"
definition offE :: "ConnectRequest \<Rightarrow> nat" where
  "offE req = offS req + (2 + length (rq_Service req))"
definition offR :: "ConnectRequest \<Rightarrow> nat" where
  "offR req = offE req + (2 + length (rq_Egress req))"
definition offF :: "ConnectRequest \<Rightarrow> nat" where
  "offF req = offR req + 1 + length (hopsBytes (rq_Route req))"

lemma requestBytes_cursors:
  assumes idb: "length idb = 16" and p: "p = requestBytes idb req"
  shows "cursor p 16 (word_of_nat (length (rq_Protocol req)) # bytes_of (rq_Protocol req) @ drop (offS req) p)"
    and "cursor p (offS req) (be16 (length (rq_Service req)) @ bytes_of (rq_Service req) @ drop (offE req) p)"
    and "cursor p (offE req) (be16 (length (rq_Egress req)) @ bytes_of (rq_Egress req) @ drop (offR req) p)"
    and "cursor p (offR req) (word_of_nat (length (rq_Route req)) # hopsBytes (rq_Route req) @ drop (offF req) p)"
    and "cursor p (offF req) ((if rq_E2ERequired req then 1 else 0) # routeBytes (rq_E2ERoute req))"
proof -
  define tF tR tE tS where
        "tF = (if rq_E2ERequired req then 1 else 0) # routeBytes (rq_E2ERoute req)"
    and "tR = word_of_nat (length (rq_Route req)) # hopsBytes (rq_Route req) @ tF"
    and "tE = be16 (length (rq_Egress req)) @ bytes_of (rq_Egress req) @ tR"
    and "tS = be16 (length (rq_Service req)) @ bytes_of (rq_Service req) @ tE"
  note parts = tF_def tR_def tE_def tS_def
  have "p = idb @ word_of_nat (length (rq_Protocol req)) # bytes_of (rq_Protocol req) @ tS"
    by (simp add: p requestBytes_def routeBytes_def parts)
  then have c0: "cursor p 16 (word_of_nat (length (rq_Protocol req)) # bytes_of (rq_Protocol req) @ tS)"
    using idb by (simp add: cursor_def)
  then have cS: "cursor p (offS req) tS"
    by (rule cursor_adv_field8) (simp add: offS_def)
  then have cE: "cursor p (offE req) tE"
    unfolding tS_def by (rule cursor_adv_field16) (simp add: offE_def)
  then have cR: "cursor p (offR req) tR"
    unfolding tE_def by (rule cursor_adv_field16) (simp add: offR_def)
  then have cF: "cursor p (offF req) tF"
    unfolding tR_def by (rule cursor_adv_field8) (simp add: offF_def)
  show "cursor p 16 (word_of_nat (length (rq_Protocol req)) # bytes_of (rq_Protocol req) @ drop (offS req) p)"
    using c0 by (simp add: cursor_drop [OF cS])
  show "cursor p (offS req) (be16 (length (rq_Service req)) @ bytes_of (rq_Service req) @ drop (offE req) p)"
    using cS by (simp add: cursor_drop [OF cE] tS_def)
  show "cursor p (offE req) (be16 (length (rq_Egress req)) @ bytes_of (rq_Egress req) @ drop (offR req) p)"
    using cE by (simp add: cursor_drop [OF cR] tE_def)
  show "cursor p (offR req) (word_of_nat (length (rq_Route req)) # hopsBytes (rq_Route req) @ drop (offF req) p)"
    using cR by (simp add: cursor_drop [OF cF] tR_def)
  show "cursor p (offF req) ((if rq_E2ERequired req then 1 else 0) # routeBytes (rq_E2ERoute req))"
    using cF by (simp add: tF_def)
qed

text \<open>Reading a length-prefixed field at a cursor.\<close>

lemma cursor_field16:
  assumes "cursor p off (be16 n @ ys @ rest)" "n < 65536" "length ys = n"
  shows "uint16At p off = Ok n" "slice p (off + 2) (off + 2 + n) = Ok ys" "off + 2 + n \<le> length p"
proof -
  show "uint16At p off = Ok n"
    using assms(1,2) by (rule cursor_uint16At)
  have c: "cursor p (off + 2) (ys @ rest)"
    using assms(1) by (rule cursor_adv) simp
  then show "slice p (off + 2) (off + 2 + n) = Ok ys"
    by (rule cursor_slice) (simp add: assms)
  show "off + 2 + n \<le> length p"
    using cursor_length [OF c] assms(3) by simp
qed

lemma connectRequestOfFrame_requestBytes:
  assumes U: "uuid_laws U" and v: "valid_request U req"
    and idb: "ParseBytes U (rq_RequestID req) = Ok idb"
  shows "connectRequestOfFrame U \<lparr>fr_Version = Version, fr_Type = TypeConnectRequest,
           fr_Payload = requestBytes idb req\<rparr> = Ok (canonRequest U req)"
proof -
  define p where "p = requestBytes idb req"
  have len: "length idb = 16" "length (rq_Protocol req) \<le> 32" "rq_Protocol req \<noteq> []"
      "length (rq_Service req) \<le> 4096" "rq_Service req \<noteq> []" "length (rq_Egress req) \<le> 4096"
      "length (rq_Route req) \<le> 255" "list_all ok_hop (rq_Route req)" "ok_route (rq_E2ERoute req)"
    using v ParseBytes_length [OF U idb] by (auto simp: valid_request_def ok_route_def qoru_consts)
  note c = requestBytes_cursors [OF len(1) p_def]
  have P: "byteAt p 16 = Ok (word_of_nat (length (rq_Protocol req)))"
      "slice p 17 (offS req) = Ok (bytes_of (rq_Protocol req))" "slice p 0 16 = Ok idb"
    using cursor_byteAt [OF c(1)] cursor_slice [OF cursor_adv1 [OF c(1)], of 17 "offS req"] len(1)
    by (simp_all add: offS_def p_def requestBytes_def slice_def)
  have S: "uint16At p (offS req) = Ok (length (rq_Service req))"
      "slice p (offS req + 2) (offE req) = Ok (bytes_of (rq_Service req))"
    using cursor_field16 [OF c(2)] len by (simp_all add: offE_def)
  have E: "uint16At p (offE req) = Ok (length (rq_Egress req))"
      "slice p (offE req + 2) (offR req) = Ok (bytes_of (rq_Egress req))"
    using cursor_field16 [OF c(3)] len by (simp_all add: offR_def)
  have R: "byteAt p (offR req) = Ok (word_of_nat (length (rq_Route req)))"
      "readRoute p (offR req + 1) (length (rq_Route req)) ''route'' = Ok (rq_Route req, offF req)"
    using cursor_byteAt [OF c(4)] readRouteFrom_hops [OF cursor_adv1 [OF c(4) refl] len(8)]
    by (simp_all add: readRoute_def offF_def)
  have F: "readE2ERequired p (offF req) = Ok (rq_E2ERequired req, offF req + 1)"
    using c(5) by (rule readE2ERequired_cursor)
  have X: "readE2ERoute p (offF req + 1) = Ok (rq_E2ERoute req, length p)"
    using readE2ERoute_cursor [OF cursor_adv1 [OF c(5) refl] len(9)] cursor_length [OF c(5)] by simp
  show ?thesis
    using len P S E R F X FromBytes_ParseBytes [OF U idb] cursor_length [OF c(5)]
    by (simp add: connectRequestOfFrame_def p_def [symmetric] Let_def canonRequest_def idb
        qoru_consts offS_def offE_def offR_def offF_def ac_simps unat_byte_of_nat)
qed

subsection \<open>What a successful read says\<close>

lemma readRoute_Ok:
  assumes "readRoute p off (unat (c :: byte)) label = Ok (route, nxt)" "off \<le> length p"
  shows "cursor p off (hopsBytes route @ drop nxt p)" "nxt \<le> length p"
    "length route = unat c" "ok_route route"
  using readRouteFrom_Ok [OF assms(1) [unfolded readRoute_def] assms(2)] unat_byte_less [of c]
  by (auto simp: ok_route_def)

lemma readE2ERequired_ne_Panic: "off \<le> length p \<Longrightarrow> readE2ERequired p off \<noteq> Panic"
  by (auto simp: readE2ERequired_def bindR_eqs)

lemma readE2ERequired_Ok:
  "readE2ERequired p off = Ok (c, nxt) \<Longrightarrow> off \<le> length p \<Longrightarrow>
   nxt \<le> length p \<and>
   (cursor p off [] \<and> \<not> c \<and> nxt = off \<or> cursor p off ((if c then 1 else 0) # drop nxt p))"
  by (cases "length p - off")
    (auto simp: readE2ERequired_def bindR_eqs cursor_def dest: byteAt_cursor split: if_splits)

lemma readE2ERoute_ne_Panic: "off \<le> length p \<Longrightarrow> readE2ERoute p off \<noteq> Panic"
  by (auto simp: readE2ERoute_def bindR_eqs)

lemma readE2ERoute_Ok:
  assumes "readE2ERoute p off = Ok (route, nxt)" "off \<le> length p"
  shows "nxt \<le> length p \<and> ok_route route \<and>
    (cursor p off [] \<and> route = [] \<and> nxt = off \<or> cursor p off (routeBytes route @ drop nxt p))"
proof (cases "off < length p")
  case True
  with assms obtain c where c: "byteAt p off = Ok c"
      and r: "readRoute p (off + 1) (unat c) ''e2e_route'' = Ok (route, nxt)"
    by (auto simp: readE2ERoute_def bindR_eqs split: if_splits)
  note R = readRoute_Ok [OF r]
  have "cursor p off (c # hopsBytes route @ drop nxt p)"
    using byteAt_cursor [OF c] R(1) True by (simp add: cursor_def)
  then show ?thesis
    using R True by (simp add: routeBytes_def)
next
  case False
  with assms show ?thesis
    by (auto simp: readE2ERoute_def bindR_eqs cursor_def ok_route_def split: if_splits)
qed

lemma connectRequestOfFrame_ne_Panic:
  "uuid_laws U \<Longrightarrow> connectRequestOfFrame U f \<noteq> Panic"
  using FromBytes_ne_Panic [of U]
  by (auto simp: connectRequestOfFrame_def Let_def bindR_eq_Panic readE2ERequired_ne_Panic
      readE2ERoute_ne_Panic dest!: readRoute_Ok(2) readE2ERequired_Ok readE2ERoute_Ok
      split: if_splits res.splits)

text \<open>
  The trailing part of a request payload: older senders may leave out the end-to-end route,
  or both it and the end-to-end flag.
\<close>

definition request_tail :: "ConnectRequest \<Rightarrow> bytes \<Rightarrow> bool" where
  "request_tail req tail \<longleftrightarrow>
     tail = (if rq_E2ERequired req then 1 else 0) # routeBytes (rq_E2ERoute req) \<or>
     tail = [if rq_E2ERequired req then 1 else 0] \<and> rq_E2ERoute req = [] \<or>
     tail = [] \<and> \<not> rq_E2ERequired req \<and> rq_E2ERoute req = []"

lemma request_trailer:
  assumes F: "readE2ERequired p off = Ok (rq_E2ERequired req, off1)"
    and X: "readE2ERoute p off1 = Ok (rq_E2ERoute req, off2)"
    and T: "sliceFrom p off2 = Ok []" and off: "off \<le> length p"
  shows "request_tail req (drop off p)" "ok_route (rq_E2ERoute req)"
proof -
  note F' = readE2ERequired_Ok [OF F off]
  then have off1: "off1 \<le> length p" by simp
  note X' = readE2ERoute_Ok [OF X off1]
  then show "ok_route (rq_E2ERoute req)" by simp
  have "drop off2 p = []"
    using T X' by simp
  then show "request_tail req (drop off p)"
    using F' X' by (auto simp: request_tail_def cursor_def)
qed

lemma connectRequestOfFrame_Ok:
  assumes U: "uuid_laws U" and f: "connectRequestOfFrame U f = Ok req"
  shows "fr_Type f = TypeConnectRequest" "valid_request U req" "canonical_id U (rq_RequestID req)"
    and "\<exists>idb rest. fr_Payload f =
           idb @ word_of_nat (length (rq_Protocol req)) # bytes_of (rq_Protocol req) @
           be16 (length (rq_Service req)) @ bytes_of (rq_Service req) @
           be16 (length (rq_Egress req)) @ bytes_of (rq_Egress req) @
           routeBytes (rq_Route req) @ rest \<and>
         ParseBytes U (rq_RequestID req) = Ok idb \<and> request_tail req rest"
proof -
  define p where "p = fr_Payload f"
  from f obtain idb pb pro sl svc el egr rc off off1 off2 where
        ty: "fr_Type f = TypeConnectRequest"
    and idb: "slice p 0 16 = Ok idb" "FromBytes U idb = Ok (rq_RequestID req)"
    and pb: "byteAt p 16 = Ok pb" "unat pb \<noteq> 0" "unat pb \<le> MaxProtocolLength"
    and pro: "slice p 17 (17 + unat pb) = Ok pro" "rq_Protocol req = string_of pro"
    and sl: "uint16At p (17 + unat pb) = Ok sl" "sl \<noteq> 0" "sl \<le> MaxTargetLength"
    and svc: "slice p (19 + unat pb) (19 + (unat pb + sl)) = Ok svc" "rq_Service req = string_of svc"
    and el: "uint16At p (19 + (unat pb + sl)) = Ok el" "el \<le> MaxTargetLength"
    and egr: "slice p (21 + (unat pb + sl)) (21 + (unat pb + (sl + el))) = Ok egr"
      "rq_Egress req = string_of egr"
    and rc: "byteAt p (21 + (unat pb + (sl + el))) = Ok rc"
    and route: "readRoute p (22 + (unat pb + (sl + el))) (unat rc) ''route'' = Ok (rq_Route req, off)"
    and F: "readE2ERequired p off = Ok (rq_E2ERequired req, off1)"
    and X: "readE2ERoute p off1 = Ok (rq_E2ERoute req, off2)"
    and T: "sliceFrom p off2 = Ok []"
    by (auto simp: connectRequestOfFrame_def p_def [symmetric] Let_def bindR_eq_Ok not_less
        add.assoc split: if_splits)
  have lens: "length idb = 16" "length pro = unat pb" "length svc = sl" "length egr = el"
    using slice_length [OF idb(1)] slice_length [OF pro(1)] slice_length [OF svc(1)]
      slice_length [OF egr(1)] by simp_all
  have "21 + (unat pb + (sl + el)) < length p"
    using rc by (auto simp: byteAt_def split: if_splits)
  then have off: "22 + (unat pb + (sl + el)) \<le> length p" by simp
  note R = readRoute_Ok [OF route off]
  note tail = request_trailer [OF F X T R(2)]
  show "fr_Type f = TypeConnectRequest" by (rule ty)
  have pid: "ParseBytes U (rq_RequestID req) = Ok idb"
    using ParseBytes_FromBytes [OF U lens(1) idb(2)] .
  show "canonical_id U (rq_RequestID req)"
    using FromBytes_canonical [OF U lens(1) idb(2)] .
  show "valid_request U req"
    using pid pb sl el lens R(4) tail(2)
    by (auto simp: valid_request_def pro svc egr simp flip: length_greater_0_conv)
  have "p = idb @ pb # pro @ be16 sl @ svc @ be16 el @ egr @ rc # hopsBytes (rq_Route req) @ drop off p"
    using slice_cursor [OF idb(1)] byteAt_cursor [OF pb(1)] slice_cursor [OF pro(1)]
      uint16At_cursor [OF sl(1)] slice_cursor [OF svc(1)] uint16At_cursor [OF el(1)]
      slice_cursor [OF egr(1)] byteAt_cursor [OF rc] R(1)
    by (simp add: cursor_def ac_simps)
  then show "\<exists>idb rest. fr_Payload f =
           idb @ word_of_nat (length (rq_Protocol req)) # bytes_of (rq_Protocol req) @
           be16 (length (rq_Service req)) @ bytes_of (rq_Service req) @
           be16 (length (rq_Egress req)) @ bytes_of (rq_Egress req) @
           routeBytes (rq_Route req) @ rest \<and>
         ParseBytes U (rq_RequestID req) = Ok idb \<and> request_tail req rest"
    using pid tail(1) R(3) lens
    by (intro exI [of _ idb] exI [of _ "drop off p"])
      (simp add: p_def [symmetric] pro svc egr routeBytes_def)
qed

section \<open>The connect response\<close>

definition canonResponse :: "ConnectResponse \<Rightarrow> ConnectResponse" where
  "canonResponse resp =
     (if rs_OK resp then resp\<lparr>rs_Code := ConnectCodeOK\<rparr>
      else if rs_Code resp = ConnectCodeOK then resp\<lparr>rs_Code := ConnectCodeInternalError\<rparr>
      else resp)"

definition responseBytes :: "ConnectResponse \<Rightarrow> bytes" where
  "responseBytes resp =
     [if rs_OK resp then ConnectStatusOK else ConnectStatusError, rs_Code (canonResponse resp)] @
     be16 (length (rs_Message resp)) @ bytes_of (rs_Message resp)"

lemma canonResponse_idem [simp]: "canonResponse (canonResponse resp) = canonResponse resp"
  by (simp add: canonResponse_def qoru_consts)

lemma connectResponsePayload_eq:
  "connectResponsePayload resp =
     (if length (rs_Message resp) \<le> MaxPayloadSize - 4 then Ok (responseBytes resp)
      else Err (Errorf ''message too long: %d > %d''
                  [FD (int (length (rs_Message resp))), FD (int (MaxPayloadSize - 4))]))"
  by (auto simp: connectResponsePayload_def Let_def replicate_wbuf codec_simps responseBytes_def
      canonResponse_def not_less)

lemma connectResponseOfFrame_responseBytes:
  assumes "length (rs_Message resp) \<le> MaxPayloadSize - 4" "ConnectCode_Valid (rs_Code resp)"
  shows "connectResponseOfFrame \<lparr>fr_Version = Version, fr_Type = TypeConnectResponse,
           fr_Payload = responseBytes resp\<rparr> = Ok (canonResponse resp)"
proof -
  let ?st = "if rs_OK resp then ConnectStatusOK else ConnectStatusError"
  let ?n = "length (rs_Message resp)"
  define p where "p = responseBytes resp"
  have p: "p = [?st, rs_Code (canonResponse resp)] @ be16 ?n @ bytes_of (rs_Message resp)"
    by (simp add: p_def responseBytes_def)
  have "byteAt p 0 = Ok ?st" "byteAt p 1 = Ok (rs_Code (canonResponse resp))"
    by (simp_all add: p byteAt_def)
  moreover have "uint16At p 2 = Ok ?n"
    unfolding p using assms(1) by (intro uint16At_append) (simp_all add: qoru_consts)
  moreover have "sliceFrom p 4 = Ok (bytes_of (rs_Message resp))"
    using sliceFrom_append [of 4 "[?st, rs_Code (canonResponse resp)] @ be16 ?n"] by (simp add: p)
  moreover have "ConnectCode_Valid (rs_Code (canonResponse resp))" "\<not> length p < 4"
    using assms(2) by (simp_all add: canonResponse_def ConnectCode_Valid_def qoru_consts p)
  ultimately show ?thesis
    by (simp add: connectResponseOfFrame_def p_def [symmetric] Let_def)
      (simp add: canonResponse_def qoru_consts)
qed

lemma connectResponseOfFrame_ne_Panic: "connectResponseOfFrame f \<noteq> Panic"
  by (auto simp: connectResponseOfFrame_def Let_def bindR_eq_Panic split: if_splits)

text \<open>Every response that is accepted is consistent: a status OK with code OK, or an error with an error code.\<close>

lemma connectResponseOfFrame_Ok:
  "connectResponseOfFrame f = Ok resp \<Longrightarrow>
   fr_Type f = TypeConnectResponse \<and> ConnectCode_Valid (rs_Code resp) \<and>
   (rs_OK resp \<longleftrightarrow> rs_Code resp = ConnectCodeOK) \<and>
   length (rs_Message resp) = length (fr_Payload f) - 4"
  by (auto simp: connectResponseOfFrame_def Let_def bindR_eq_Ok ConnectCode_Valid_def
      split: if_splits)

section \<open>The interface of a framed message\<close>

text \<open>
  Sending and receiving several messages over one stream.
\<close>

fun writeAll :: "(ostream \<Rightarrow> 'a \<Rightarrow> unit res \<times> ostream) \<Rightarrow> ostream \<Rightarrow> 'a list \<Rightarrow> unit res \<times> ostream" where
  "writeAll write w [] = (Ok (), w)"
| "writeAll write w (m # ms) = seqR (write w m) (\<lambda>_ w. writeAll write w ms)"

fun readMany :: "(istream \<Rightarrow> 'b res \<times> istream) \<Rightarrow> nat \<Rightarrow> istream \<Rightarrow> 'b list res \<times> istream" where
  "readMany read 0 r = (Ok [], r)"
| "readMany read (Suc n) r =
     seqR (read r) (\<lambda>m r. seqR (readMany read n r) (\<lambda>ms r. (Ok (m # ms), r)))"

text \<open>
  What the rest of the program relies on for each message type: \<open>wr\<close> frames an
  encoded payload, \<open>rd\<close> takes one frame and decodes it, \<open>norm\<close> is the form the
  receiver sees, \<open>ok\<close> the messages that survive the trip, and \<open>lib\<close> the assumption on the
  libraries below (\<open>True\<close> where there is none).
\<close>

locale frame_codec =
  fixes lib :: bool
    and mtype :: MessageType
    and enc :: "'a \<Rightarrow> bytes res"
    and dec :: "Frame \<Rightarrow> 'a res"
    and ok :: "'a \<Rightarrow> bool"
    and norm :: "'a \<Rightarrow> 'a"
    and wr :: "ostream \<Rightarrow> 'a \<Rightarrow> unit res \<times> ostream"
    and rd :: "istream \<Rightarrow> 'a res \<times> istream"
  assumes write_eq: "wr w m = pureThen (enc m) w (\<lambda>p. WriteFrame w mtype p)"
    and read_eq: "rd r = thenPure (ReadFrame r) dec"
    and enc_total: "lib \<Longrightarrow> enc m \<noteq> Panic"
    and dec_total: "lib \<Longrightarrow> dec f \<noteq> Panic"
    and dec_type: "fr_Type f \<noteq> mtype \<Longrightarrow> \<exists>e. dec f = Err e"
    and dec_enc: "lib \<Longrightarrow> ok m \<Longrightarrow> enc m = Ok p \<Longrightarrow> length p \<le> MaxPayloadSize \<Longrightarrow>
      dec \<lparr>fr_Version = Version, fr_Type = mtype, fr_Payload = p\<rparr> = Ok (norm m)"
begin

lemma write_total: "lib \<Longrightarrow> fst (wr w m) \<noteq> Panic"
  by (simp add: write_eq fst_pureThen_Panic enc_total)

lemma read_total: "lib \<Longrightarrow> fst (rd r) \<noteq> Panic"
  by (simp add: read_eq bindR_eq_Panic dec_total)

lemma write_Ok:
  assumes "wr w m = (Ok u, w')" "reliable w"
  obtains p where "enc m = Ok p" "length p \<le> MaxPayloadSize"
    "w' = w\<lparr>os_data := os_data w @ frameBytes mtype p\<rparr>"
proof -
  obtain p where p: "enc m = Ok p"
    using assms(1) by (cases "enc m") (auto simp: write_eq)
  moreover have "length p \<le> MaxPayloadSize"
    using assms(1) p WriteFrame_Ok_length [of w mtype p] by (simp add: write_eq)
  ultimately show ?thesis
    using that assms by (simp add: write_eq WriteFrame_reliable)
qed

lemma write_enc:
  "enc m = Ok p \<Longrightarrow> length p \<le> MaxPayloadSize \<Longrightarrow> reliable w \<Longrightarrow>
   wr w m = (Ok (), w\<lparr>os_data := os_data w @ frameBytes mtype p\<rparr>)"
  by (simp add: write_eq WriteFrame_reliable)

lemma read_enc:
  "lib \<Longrightarrow> ok m \<Longrightarrow> enc m = Ok p \<Longrightarrow> length p \<le> MaxPayloadSize \<Longrightarrow>
   rd \<lparr>is_data = frameBytes mtype p @ rest, is_end = e\<rparr> = (Ok (norm m), \<lparr>is_data = rest, is_end = e\<rparr>)"
  by (simp add: read_eq ReadFrame_frameBytes dec_enc)

text \<open>Round trip: what was written is read back, and the bytes that follow are untouched.\<close>

lemma read_write:
  assumes "lib" "ok m" "reliable w" "wr w m = (Ok u, w')"
  shows "reliable w' \<and> (\<exists>d. os_data w' = os_data w @ d \<and>
    (\<forall>rest e. rd \<lparr>is_data = d @ rest, is_end = e\<rparr> = (Ok (norm m), \<lparr>is_data = rest, is_end = e\<rparr>)))"
proof -
  obtain p where p: "enc m = Ok p" "length p \<le> MaxPayloadSize"
    "w' = w\<lparr>os_data := os_data w @ frameBytes mtype p\<rparr>"
    using write_Ok [OF assms(4,3)] .
  then show ?thesis
    using assms(1-3) dec_enc [OF assms(1,2) p(1,2)]
    by (intro conjI exI [of _ "frameBytes mtype p"]) (auto simp: read_eq ReadFrame_frameBytes)
qed

text \<open>Messages sent back to back are separated again.\<close>

lemma readMany_writeAll:
  assumes "lib" "list_all ok ms" "reliable w" "writeAll wr w ms = (Ok u, w')"
  shows "reliable w' \<and> (\<exists>d. os_data w' = os_data w @ d \<and>
    (\<forall>rest e. readMany rd (length ms) \<lparr>is_data = d @ rest, is_end = e\<rparr> =
      (Ok (map norm ms), \<lparr>is_data = rest, is_end = e\<rparr>)))"
  using assms(2-4)
proof (induction ms arbitrary: w)
  case Nil
  then show ?case by simp
next
  case (Cons m ms)
  obtain u1 w1 where w1: "wr w m = (Ok u1, w1)"
    using Cons.prems(3) by (cases "wr w m"; cases "fst (wr w m)") auto
  have "ok m" using Cons.prems(1) by simp
  from read_write [OF assms(1) this Cons.prems(2) w1]
  obtain d where w1r: "reliable w1" and d: "os_data w1 = os_data w @ d"
    "\<And>rest e. rd \<lparr>is_data = d @ rest, is_end = e\<rparr> = (Ok (norm m), \<lparr>is_data = rest, is_end = e\<rparr>)"
    by blast
  have "list_all ok ms" "writeAll wr w1 ms = (Ok u, w')"
    using Cons.prems w1 by auto
  from Cons.IH [OF this(1) w1r this(2)] obtain d' where "reliable w'" "os_data w' = os_data w1 @ d'"
    "\<And>rest e. readMany rd (length ms) \<lparr>is_data = d' @ rest, is_end = e\<rparr> =
      (Ok (map norm ms), \<lparr>is_data = rest, is_end = e\<rparr>)"
    by blast
  then show ?case
    using d by (intro conjI exI [of _ "d @ d'"]) simp_all
qed

text \<open>A message cut short by the end of the stream is an error, never another message.\<close>

lemma read_truncated:
  assumes "reliable w" "wr w m = (Ok u, w')" "os_data w' = os_data w @ d @ d'" "d' \<noteq> []"
  shows "fst (rd \<lparr>is_data = d, is_end = EOF\<rparr>) \<in> {Err EOF, Err ErrUnexpectedEOF}"
proof -
  obtain p where p: "length p \<le> MaxPayloadSize" "w' = w\<lparr>os_data := os_data w @ frameBytes mtype p\<rparr>"
    using write_Ok [OF assms(2,1)] by blast
  then have "frameBytes mtype p = d @ d'"
    using assms(3) by simp
  from ReadFrame_truncated [OF p(1) this assms(4)] show ?thesis
    by (auto simp: read_eq)
qed

text \<open>A frame of another type is refused.\<close>

lemma read_other_type:
  assumes "t \<noteq> mtype" "length p \<le> MaxPayloadSize"
  shows "\<exists>e. fst (rd \<lparr>is_data = frameBytes t p @ rest, is_end = ie\<rparr>) = Err e"
  using assms dec_type [of "\<lparr>fr_Version = Version, fr_Type = t, fr_Payload = p\<rparr>"]
  by (auto simp: read_eq ReadFrame_frameBytes)

end

interpretation connectRequest: frame_codec "uuid_laws U" TypeConnectRequest
  "connectRequestPayload U" "connectRequestOfFrame U" "\<lambda>_. True" "canonRequest U"
  "WriteConnectRequest U" "ReadConnectRequest U" for U
proof
  fix f :: Frame
  assume "fr_Type f \<noteq> TypeConnectRequest"
  then show "\<exists>e. connectRequestOfFrame U f = Err e"
    by (simp add: connectRequestOfFrame_def)
next
  fix m p
  assume "uuid_laws U" "connectRequestPayload U m = Ok p"
  then show "connectRequestOfFrame U \<lparr>fr_Version = Version, fr_Type = TypeConnectRequest, fr_Payload = p\<rparr> =
      Ok (canonRequest U m)"
    using connectRequestPayload_Ok connectRequestOfFrame_requestBytes by blast
qed (simp_all add: WriteConnectRequest_def ReadConnectRequest_def connectRequestPayload_ne_Panic
    connectRequestOfFrame_ne_Panic)

interpretation connectResponse: frame_codec True TypeConnectResponse
  connectResponsePayload connectResponseOfFrame "\<lambda>m. ConnectCode_Valid (rs_Code m)" canonResponse
  WriteConnectResponse ReadConnectResponse
proof
  fix f :: Frame
  assume "fr_Type f \<noteq> TypeConnectResponse"
  then show "\<exists>e. connectResponseOfFrame f = Err e"
    by (simp add: connectResponseOfFrame_def)
qed (auto simp: WriteConnectResponse_def ReadConnectResponse_def connectResponsePayload_eq
    connectResponseOfFrame_ne_Panic connectResponseOfFrame_responseBytes split: if_splits)

end
