(* ===== verification/Protocol_E2E.thy ===== *)
theory Protocol_E2E
  imports Protocol_Lemmas
begin

text \<open>
  The end-to-end messages of the control protocol (\<^verbatim>\<open>internal/protocol/protocol.go\<close>,
  lines 35 to 44, 111 to 136 and 430 to 738): the two hellos, the client's finished message,
  encrypted data and close. Each interprets \<open>strict_frame_codec\<close>: its wire form is unique.
\<close>

section \<open>Constants and types\<close>

definition MaxE2ECertChainCount :: nat where [qoru_consts]: "MaxE2ECertChainCount = 8"
definition MaxE2ECertLength :: nat where [qoru_consts]: "MaxE2ECertLength = 16 * 1024"
definition MaxE2EEphemeralKeyLength :: nat where [qoru_consts]: "MaxE2EEphemeralKeyLength = 4096"
definition MaxE2ESignatureLength :: nat where [qoru_consts]: "MaxE2ESignatureLength = 8192"
definition MaxE2EFinishedSignatureLength :: nat where
  [qoru_consts]: "MaxE2EFinishedSignatureLength = MaxE2ESignatureLength"
definition MaxE2ENonceSuffixLength :: nat where [qoru_consts]: "MaxE2ENonceSuffixLength = 24"
definition MaxE2ECiphertextLength :: nat where
  [qoru_consts]: "MaxE2ECiphertextLength = MaxPayloadSize - 1 - MaxE2ENonceSuffixLength - 2"
definition MaxE2ECloseMessageLength :: nat where
  [qoru_consts]: "MaxE2ECloseMessageLength = MaxPayloadSize - 4"

record E2EClientHello =
  ch_ClientCertChain :: "bytes list"
  ch_EphemeralPublicKey :: bytes
  ch_Signature :: bytes

record E2EServerHello =
  sh_ServiceCertChain :: "bytes list"
  sh_EphemeralPublicKey :: bytes
  sh_Signature :: bytes

record E2EData =
  ed_NonceSuffix :: bytes
  ed_Ciphertext :: bytes

record E2EClose =
  ec_Code :: byte
  ec_ConnectCode :: ConnectCode
  ec_Message :: string

record E2EClientFinished =
  cf_Signature :: bytes

section \<open>The hellos\<close>

fun helloChainLength :: "nat \<Rightarrow> nat \<Rightarrow> bytes list \<Rightarrow> string \<Rightarrow> nat res" where
  "helloChainLength payloadLen i [] label = Ok payloadLen"
| "helloChainLength payloadLen i (cert # certs) label =
     (if cert = [] then Err (Errorf ''%s cert chain[%d] is required'' [FS label, FD (int i)])
      else if length cert > MaxE2ECertLength
      then Err (Errorf ''%s cert chain[%d] too long: %d > %d''
                  [FS label, FD (int i), FD (int (length cert)), FD (int MaxE2ECertLength)])
      else helloChainLength (payloadLen + (2 + length cert)) (i + 1) certs label)"

fun writeCerts :: "bytes \<Rightarrow> nat \<Rightarrow> bytes list \<Rightarrow> (bytes \<times> nat) res" where
  "writeCerts payload offset [] = Ok (payload, offset)"
| "writeCerts payload offset (cert # certs) =
     bindR (putUint16At payload offset (length cert)) (\<lambda>payload.
     bindR (copyAt payload (offset + 2) cert) (\<lambda>payload.
     writeCerts payload (offset + (2 + length cert)) certs))"

definition marshalE2EHello :: "bytes list \<Rightarrow> bytes \<Rightarrow> bytes \<Rightarrow> string \<Rightarrow> bytes res" where
  "marshalE2EHello certChain ephemeralPublicKey signature label =
     (if length certChain = 0 then Err (Errorf ''%s cert chain is required'' [FS label])
      else if length certChain > MaxE2ECertChainCount
      then Err (Errorf ''%s cert chain too long: %d > %d''
                  [FS label, FD (int (length certChain)), FD (int MaxE2ECertChainCount)])
      else bindR (helloChainLength 1 0 certChain label) (\<lambda>payloadLen.
      if length ephemeralPublicKey = 0
      then Err (Errorf ''%s ephemeral public key is required'' [FS label])
      else if length ephemeralPublicKey > MaxE2EEphemeralKeyLength
      then Err (Errorf ''%s ephemeral public key too long: %d > %d''
                  [FS label, FD (int (length ephemeralPublicKey)), FD (int MaxE2EEphemeralKeyLength)])
      else if length signature = 0 then Err (Errorf ''%s signature is required'' [FS label])
      else if length signature > MaxE2ESignatureLength
      then Err (Errorf ''%s signature too long: %d > %d''
                  [FS label, FD (int (length signature)), FD (int MaxE2ESignatureLength)])
      else
        let payloadLen = payloadLen + (2 + length ephemeralPublicKey + 2 + length signature) in
        if payloadLen > MaxPayloadSize
        then Err (Errorf ''%s hello payload too large: %d > %d''
                    [FS label, FD (int payloadLen), FD (int MaxPayloadSize)])
        else
          let payload = replicate payloadLen 0; offset = 0 in
          bindR (putByteAt payload offset (word_of_nat (length certChain))) (\<lambda>payload.
          let offset = offset + 1 in
          bindR (writeCerts payload offset certChain) (\<lambda>(payload, offset).
          bindR (putUint16At payload offset (length ephemeralPublicKey)) (\<lambda>payload.
          bindR (copyAt payload (offset + 2) ephemeralPublicKey) (\<lambda>payload.
          let offset = offset + (2 + length ephemeralPublicKey) in
          bindR (putUint16At payload offset (length signature)) (\<lambda>payload.
          copyAt payload (offset + 2) signature))))))) "

definition readLengthPrefixedBytes ::
    "bytes \<Rightarrow> nat \<Rightarrow> nat \<Rightarrow> string \<Rightarrow> (bytes \<times> nat) res" where
  "readLengthPrefixedBytes payload offset maxLen field =
     (if length payload < offset + 2
      then Err (Errorf ''malformed e2e hello payload: missing %s length'' [FS field])
      else bindR (uint16At payload offset) (\<lambda>len.
      if len = 0 then Err (Errorf ''%s is required'' [FS field])
      else if len > maxLen
      then Err (Errorf ''%s too long: %d > %d'' [FS field, FD (int len), FD (int maxLen)])
      else if length payload < offset + 2 + len
      then Err (Errorf ''malformed e2e hello payload: %s length mismatch'' [FS field])
      else bindR (slice payload (offset + 2) (offset + 2 + len)) (\<lambda>value.
      Ok (value, offset + 2 + len))))"

fun readCerts :: "bytes \<Rightarrow> nat \<Rightarrow> nat \<Rightarrow> nat \<Rightarrow> string \<Rightarrow> (bytes list \<times> nat) res" where
  "readCerts payload offset i 0 label = Ok ([], offset)"
| "readCerts payload offset i (Suc todo) label =
     bindR (readLengthPrefixedBytes payload offset MaxE2ECertLength
              (label @ '' cert chain['' @ show_nat i @ '']'')) (\<lambda>(cert, nxt).
     bindR (readCerts payload nxt (i + 1) todo label) (\<lambda>(certs, off).
     Ok (cert # certs, off)))"

definition unmarshalE2EHello :: "bytes \<Rightarrow> string \<Rightarrow> (bytes list \<times> bytes \<times> bytes) res" where
  "unmarshalE2EHello payload label =
     (if length payload < 1 then Err (Errorf ''malformed %s hello payload'' [FS label])
      else
        let offset = 0 in
        bindR (byteAt payload offset) (\<lambda>countByte.
        let chainCount = unat countByte; offset = offset + 1 in
        if chainCount = 0 then Err (Errorf ''%s cert chain is required'' [FS label])
        else if chainCount > MaxE2ECertChainCount
        then Err (Errorf ''%s cert chain too long: %d > %d''
                    [FS label, FD (int chainCount), FD (int MaxE2ECertChainCount)])
        else bindR (readCerts payload offset 0 chainCount label) (\<lambda>(chain, offset).
        bindR (readLengthPrefixedBytes payload offset MaxE2EEphemeralKeyLength
                 (label @ '' ephemeral public key'')) (\<lambda>(ephemeralPublicKey, offset).
        bindR (readLengthPrefixedBytes payload offset MaxE2ESignatureLength
                 (label @ '' signature'')) (\<lambda>(signature, offset).
        bindR (sliceFrom payload offset) (\<lambda>rest.
        if length rest \<noteq> 0
        then Err (Errorf ''malformed %s hello payload: trailing bytes'' [FS label])
        else Ok (chain, ephemeralPublicKey, signature)))))))"

definition clientHelloPayload :: "E2EClientHello \<Rightarrow> bytes res" where
  "clientHelloPayload hello =
     marshalE2EHello (ch_ClientCertChain hello) (ch_EphemeralPublicKey hello) (ch_Signature hello) ''client''"

definition WriteE2EClientHello :: "ostream \<Rightarrow> E2EClientHello \<Rightarrow> unit res \<times> ostream" where
  "WriteE2EClientHello w hello =
     pureThen (clientHelloPayload hello) w (\<lambda>payload. WriteFrame w TypeE2EClientHello payload)"

definition helloOfFrame :: "MessageType \<Rightarrow> string \<Rightarrow> Frame \<Rightarrow> (bytes list \<times> bytes \<times> bytes) res" where
  "helloOfFrame typ label frame =
     (if fr_Type frame \<noteq> typ
      then Err (Errorf ''unexpected message type %d'' [FD (uint (fr_Type frame))])
      else unmarshalE2EHello (fr_Payload frame) label)"

definition readE2EHelloFrame ::
    "istream \<Rightarrow> MessageType \<Rightarrow> string \<Rightarrow> (bytes list \<times> bytes \<times> bytes) res \<times> istream" where
  "readE2EHelloFrame r typ label = thenPure (ReadFrame r) (helloOfFrame typ label)"

definition ReadE2EClientHello :: "istream \<Rightarrow> E2EClientHello res \<times> istream" where
  "ReadE2EClientHello r =
     thenPure (readE2EHelloFrame r TypeE2EClientHello ''client'') (\<lambda>(chain, key, sig).
       Ok \<lparr>ch_ClientCertChain = chain, ch_EphemeralPublicKey = key, ch_Signature = sig\<rparr>)"

definition serverHelloPayload :: "E2EServerHello \<Rightarrow> bytes res" where
  "serverHelloPayload hello =
     marshalE2EHello (sh_ServiceCertChain hello) (sh_EphemeralPublicKey hello) (sh_Signature hello) ''server''"

definition WriteE2EServerHello :: "ostream \<Rightarrow> E2EServerHello \<Rightarrow> unit res \<times> ostream" where
  "WriteE2EServerHello w hello =
     pureThen (serverHelloPayload hello) w (\<lambda>payload. WriteFrame w TypeE2EServerHello payload)"

definition DecodeE2EServerHelloPayload :: "bytes \<Rightarrow> E2EServerHello res" where
  "DecodeE2EServerHelloPayload payload =
     bindR (unmarshalE2EHello payload ''server'') (\<lambda>(chain, key, sig).
       Ok \<lparr>sh_ServiceCertChain = chain, sh_EphemeralPublicKey = key, sh_Signature = sig\<rparr>)"

definition serverHelloOfFrame :: "Frame \<Rightarrow> E2EServerHello res" where
  "serverHelloOfFrame frame =
     (if fr_Type frame \<noteq> TypeE2EServerHello
      then Err (Errorf ''unexpected message type %d'' [FD (uint (fr_Type frame))])
      else DecodeE2EServerHelloPayload (fr_Payload frame))"

definition ReadE2EServerHello :: "istream \<Rightarrow> E2EServerHello res \<times> istream" where
  "ReadE2EServerHello r = thenPure (ReadFrame r) serverHelloOfFrame"

section \<open>Encrypted data\<close>

definition dataPayload :: "E2EData \<Rightarrow> bytes res" where
  "dataPayload data =
     (if length (ed_NonceSuffix data) = 0 then Err (Errorf ''nonce suffix is required'' [])
      else if length (ed_NonceSuffix data) > MaxE2ENonceSuffixLength
      then Err (Errorf ''nonce suffix too long: %d > %d''
                  [FD (int (length (ed_NonceSuffix data))), FD (int MaxE2ENonceSuffixLength)])
      else if length (ed_Ciphertext data) = 0 then Err (Errorf ''ciphertext is required'' [])
      else if length (ed_Ciphertext data) > MaxE2ECiphertextLength
      then Err (Errorf ''ciphertext too long: %d > %d''
                  [FD (int (length (ed_Ciphertext data))), FD (int MaxE2ECiphertextLength)])
      else
        let payload = replicate (1 + length (ed_NonceSuffix data) + 2 + length (ed_Ciphertext data)) 0;
            offset = 0 in
        bindR (putByteAt payload offset (word_of_nat (length (ed_NonceSuffix data)))) (\<lambda>payload.
        let offset = offset + 1 in
        bindR (copyAt payload offset (ed_NonceSuffix data)) (\<lambda>payload.
        let offset = offset + length (ed_NonceSuffix data) in
        bindR (putUint16At payload offset (length (ed_Ciphertext data))) (\<lambda>payload.
        copyAt payload (offset + 2) (ed_Ciphertext data)))))"

definition WriteE2EData :: "ostream \<Rightarrow> E2EData \<Rightarrow> unit res \<times> ostream" where
  "WriteE2EData w data = pureThen (dataPayload data) w (\<lambda>payload. WriteFrame w TypeE2EData payload)"

definition DecodeE2EDataPayload :: "bytes \<Rightarrow> E2EData res" where
  "DecodeE2EDataPayload payload =
     (if length payload < 4 then Err (Errorf ''malformed e2e data payload'' [])
      else
        let offset = 0 in
        bindR (byteAt payload offset) (\<lambda>nonceByte.
        let nonceLen = unat nonceByte in
        if nonceLen = 0 then Err (Errorf ''nonce suffix is required'' [])
        else if nonceLen > MaxE2ENonceSuffixLength
        then Err (Errorf ''nonce suffix too long: %d > %d'' [FD (int nonceLen), FD (int MaxE2ENonceSuffixLength)])
        else
          let offset = offset + 1 in
          if length payload < offset + nonceLen + 2
          then Err (Errorf ''malformed e2e data payload: missing ciphertext length'' [])
          else bindR (slice payload offset (offset + nonceLen)) (\<lambda>nonce.
          let offset = offset + nonceLen in
          bindR (uint16At payload offset) (\<lambda>ciphertextLen.
          if ciphertextLen = 0 then Err (Errorf ''ciphertext is required'' [])
          else if ciphertextLen > MaxE2ECiphertextLength
          then Err (Errorf ''ciphertext too long: %d > %d''
                      [FD (int ciphertextLen), FD (int MaxE2ECiphertextLength)])
          else
            let offset = offset + 2 in
            bindR (sliceFrom payload offset) (\<lambda>ciphertext.
            if length ciphertext \<noteq> ciphertextLen
            then Err (Errorf ''malformed e2e data payload: ciphertext length mismatch'' [])
            else Ok \<lparr>ed_NonceSuffix = nonce, ed_Ciphertext = ciphertext\<rparr>)))))"

definition dataOfFrame :: "Frame \<Rightarrow> E2EData res" where
  "dataOfFrame frame =
     (if fr_Type frame \<noteq> TypeE2EData
      then Err (Errorf ''unexpected message type %d'' [FD (uint (fr_Type frame))])
      else DecodeE2EDataPayload (fr_Payload frame))"

definition ReadE2EData :: "istream \<Rightarrow> E2EData res \<times> istream" where
  "ReadE2EData r = thenPure (ReadFrame r) dataOfFrame"

section \<open>Close\<close>

definition closePayload :: "E2EClose \<Rightarrow> bytes res" where
  "closePayload cl =
     (if \<not> ConnectCode_Valid (ec_ConnectCode cl)
      then Err (Errorf ''invalid e2e close connect code %d'' [FD (uint (ec_ConnectCode cl))])
      else if length (ec_Message cl) > MaxE2ECloseMessageLength
      then Err (Errorf ''close message too long: %d > %d''
                  [FD (int (length (ec_Message cl))), FD (int MaxE2ECloseMessageLength)])
      else
        let payload = replicate (4 + length (ec_Message cl)) 0 in
        bindR (putByteAt payload 0 (ec_Code cl)) (\<lambda>payload.
        bindR (putByteAt payload 1 (ec_ConnectCode cl)) (\<lambda>payload.
        bindR (putUint16At payload 2 (length (ec_Message cl))) (\<lambda>payload.
        copyAt payload 4 (bytes_of (ec_Message cl))))))"

definition WriteE2EClose :: "ostream \<Rightarrow> E2EClose \<Rightarrow> unit res \<times> ostream" where
  "WriteE2EClose w cl = pureThen (closePayload cl) w (\<lambda>payload. WriteFrame w TypeE2EClose payload)"

definition DecodeE2EClosePayload :: "bytes \<Rightarrow> E2EClose res" where
  "DecodeE2EClosePayload payload =
     (if length payload < 4 then Err (Errorf ''malformed e2e close payload'' [])
      else bindR (byteAt payload 1) (\<lambda>connectCode.
      if \<not> ConnectCode_Valid connectCode
      then Err (Errorf ''unknown e2e close connect code %d'' [FD (uint connectCode)])
      else bindR (uint16At payload 2) (\<lambda>messageLen.
      if messageLen > MaxE2ECloseMessageLength
      then Err (Errorf ''close message too long: %d > %d'' [FD (int messageLen), FD (int MaxE2ECloseMessageLength)])
      else bindR (sliceFrom payload 4) (\<lambda>rest.
      if length rest \<noteq> messageLen
      then Err (Errorf ''malformed e2e close payload: message length mismatch'' [])
      else bindR (byteAt payload 0) (\<lambda>code.
      Ok \<lparr>ec_Code = code, ec_ConnectCode = connectCode, ec_Message = string_of rest\<rparr>)))))"

definition closeOfFrame :: "Frame \<Rightarrow> E2EClose res" where
  "closeOfFrame frame =
     (if fr_Type frame \<noteq> TypeE2EClose
      then Err (Errorf ''unexpected message type %d'' [FD (uint (fr_Type frame))])
      else DecodeE2EClosePayload (fr_Payload frame))"

definition ReadE2EClose :: "istream \<Rightarrow> E2EClose res \<times> istream" where
  "ReadE2EClose r = thenPure (ReadFrame r) closeOfFrame"

section \<open>Client finished\<close>

definition finishedPayload :: "E2EClientFinished \<Rightarrow> bytes res" where
  "finishedPayload finished =
     (if length (cf_Signature finished) = 0
      then Err (Errorf ''client finished signature is required'' [])
      else if length (cf_Signature finished) > MaxE2EFinishedSignatureLength
      then Err (Errorf ''client finished signature too long: %d > %d''
                  [FD (int (length (cf_Signature finished))), FD (int MaxE2EFinishedSignatureLength)])
      else
        let payload = replicate (2 + length (cf_Signature finished)) 0 in
        bindR (putUint16At payload 0 (length (cf_Signature finished))) (\<lambda>payload.
        copyAt payload 2 (cf_Signature finished)))"

definition WriteE2EClientFinished :: "ostream \<Rightarrow> E2EClientFinished \<Rightarrow> unit res \<times> ostream" where
  "WriteE2EClientFinished w finished =
     pureThen (finishedPayload finished) w (\<lambda>payload. WriteFrame w TypeE2EClientFinished payload)"

definition finishedOfFrame :: "Frame \<Rightarrow> E2EClientFinished res" where
  "finishedOfFrame frame =
     (let payload = fr_Payload frame in
      if fr_Type frame \<noteq> TypeE2EClientFinished
      then Err (Errorf ''unexpected message type %d'' [FD (uint (fr_Type frame))])
      else if length payload < 2 then Err (Errorf ''malformed e2e client finished payload'' [])
      else bindR (uint16At payload 0) (\<lambda>signatureLen.
      if signatureLen = 0 then Err (Errorf ''client finished signature is required'' [])
      else if signatureLen > MaxE2EFinishedSignatureLength
      then Err (Errorf ''client finished signature too long: %d > %d''
                  [FD (int signatureLen), FD (int MaxE2EFinishedSignatureLength)])
      else bindR (sliceFrom payload 2) (\<lambda>rest.
      if length rest \<noteq> signatureLen
      then Err (Errorf ''malformed e2e client finished payload: signature length mismatch'' [])
      else Ok \<lparr>cf_Signature = rest\<rparr>)))"

definition ReadE2EClientFinished :: "istream \<Rightarrow> E2EClientFinished res \<times> istream" where
  "ReadE2EClientFinished r = thenPure (ReadFrame r) finishedOfFrame"

end
