(* ===== verification/Protocol_E2E_Lemmas.thy ===== *)
theory Protocol_E2E_Lemmas
  imports Protocol_E2E
begin

text \<open>
  Layouts of the end-to-end messages and the interpretations of the framed-message
  interface. \<open>strict_frame_codec\<close> adds that a payload that decodes is the one payload
  the encoder produces for the decoded message.
\<close>

locale strict_frame_codec = frame_codec +
  assumes enc_dec: "lib \<Longrightarrow> dec f = Ok m \<Longrightarrow> length (fr_Payload f) \<le> MaxPayloadSize \<Longrightarrow>
    fr_Type f = mtype \<and> enc m = Ok (fr_Payload f)"
begin

text \<open>What is read from the wire is, byte for byte, what writing the message would send.\<close>

lemma write_read:
  assumes "lib" "rd r = (Ok m, r')" "reliable w"
  shows "\<exists>d. is_data r = d @ is_data r' \<and> wr w m = (Ok (), w\<lparr>os_data := os_data w @ d\<rparr>)"
proof -
  obtain f where f: "ReadFrame r = (Ok f, r')" "dec f = Ok m"
    using assms(2) by (cases "ReadFrame r"; cases "fst (ReadFrame r)") (auto simp: read_eq)
  note F = ReadFrame_Ok [OF f(1)]
  have "fr_Type f = mtype" "enc m = Ok (fr_Payload f)"
    using enc_dec [OF assms(1) f(2) F(4)] by simp_all
  then show ?thesis
    using F WriteFrame_reliable [OF assms(3) F(4)] by (auto simp: write_eq)
qed

lemma read_injective:
  assumes "lib" "rd r1 = (Ok m, r1')" "rd r2 = (Ok m, r2')"
    "is_data r1' = is_data r2'"
  shows "is_data r1 = is_data r2"
proof -
  let ?w = "\<lparr>os_data = [], os_script = []\<rparr>"
  have "reliable ?w" by simp
  from write_read [OF assms(1,2) this] write_read [OF assms(1,3) this] assms(4)
  show ?thesis by auto
qed

end

text \<open>The response codec is strict as well.\<close>

lemma connectResponsePayload_of_frame:
  assumes "connectResponseOfFrame f = Ok resp" "length (fr_Payload f) \<le> MaxPayloadSize"
  shows "connectResponsePayload resp = Ok (fr_Payload f)"
proof -
  define p where "p = fr_Payload f"
  from assms(1) obtain st code where
        b: "byteAt p 0 = Ok st" "byteAt p 1 = Ok code" "uint16At p 2 = Ok (length p - 4)" "4 \<le> length p"
    and m: "rs_Message resp = string_of (drop 4 p)"
    and st: "st = ConnectStatusOK \<and> rs_OK resp \<and> rs_Code resp = code \<and> code = ConnectCodeOK \<or>
       st = ConnectStatusError \<and> \<not> rs_OK resp \<and> rs_Code resp = code \<and> code \<noteq> ConnectCodeOK"
    by (auto simp: connectResponseOfFrame_def p_def [symmetric] Let_def bindR_eq_Ok not_less
        split: if_splits)
  have "p = [st, code] @ be16 (length p - 4) @ drop 4 p"
    using byteAt_cursor [OF b(1)] byteAt_cursor [OF b(2)] uint16At_cursor [OF b(3)]
    by (simp add: cursor_def eval_nat_numeral)
  then show ?thesis
    using st assms(2) by (auto simp: connectResponsePayload_eq responseBytes_def canonResponse_def m
        p_def [symmetric])
qed

interpretation connectResponse: strict_frame_codec True TypeConnectResponse
  connectResponsePayload connectResponseOfFrame "\<lambda>m. ConnectCode_Valid (rs_Code m)" canonResponse
  WriteConnectResponse ReadConnectResponse
  by unfold_locales (use connectResponseOfFrame_Ok connectResponsePayload_of_frame in blast)

section \<open>Length-prefixed fields and hellos\<close>

definition certsBytes :: "bytes list \<Rightarrow> bytes" where
  "certsBytes certs = concat (map (\<lambda>c. be16 (length c) @ c) certs)"

lemma certsBytes_simps [simp]:
  "certsBytes [] = []" "certsBytes (c # cs) = be16 (length c) @ c @ certsBytes cs"
  by (simp_all add: certsBytes_def)

definition helloBytes :: "bytes list \<Rightarrow> bytes \<Rightarrow> bytes \<Rightarrow> bytes" where
  "helloBytes chain key sig =
     word_of_nat (length chain) # certsBytes chain @ be16 (length key) @ key @ be16 (length sig) @ sig"

definition ok_field :: "nat \<Rightarrow> bytes \<Rightarrow> bool" where
  "ok_field maxLen b \<longleftrightarrow> b \<noteq> [] \<and> length b \<le> maxLen"

definition valid_hello :: "bytes list \<Rightarrow> bytes \<Rightarrow> bytes \<Rightarrow> bool" where
  "valid_hello chain key sig \<longleftrightarrow>
     chain \<noteq> [] \<and> length chain \<le> MaxE2ECertChainCount \<and>
     list_all (ok_field MaxE2ECertLength) chain \<and>
     ok_field MaxE2EEphemeralKeyLength key \<and> ok_field MaxE2ESignatureLength sig \<and>
     length (helloBytes chain key sig) \<le> MaxPayloadSize"

lemma helloChainLength_Ok:
  "helloChainLength len i certs label = Ok n \<longleftrightarrow>
   list_all (ok_field MaxE2ECertLength) certs \<and> n = len + length (certsBytes certs)"
  by (induction len i certs label rule: helloChainLength.induct) (auto simp: ok_field_def)

lemma helloChainLength_ne_Panic [simp]: "helloChainLength len i certs label \<noteq> Panic"
  by (induction len i certs label rule: helloChainLength.induct) auto

lemma writeCerts_wbuf:
  "length (certsBytes certs) \<le> m \<Longrightarrow>
   writeCerts (wbuf xs m) (length xs) certs =
     Ok (wbuf (xs @ certsBytes certs) (m - length (certsBytes certs)),
         length xs + length (certsBytes certs))"
proof (induction certs arbitrary: xs m)
  case Nil
  then show ?case by simp
next
  case (Cons c certs)
  then show ?case
    using Cons.IH [of "m - 2 - length c" "xs @ be16 (length c) @ c"]
    by (simp add: codec_simps)
qed

lemma writeCerts_wbuf1 [codec_simps]:
  "off = length xs \<Longrightarrow> length (certsBytes certs) \<le> m \<Longrightarrow>
   writeCerts (wbuf xs m) off certs =
     Ok (wbuf (xs @ certsBytes certs) (m - length (certsBytes certs)),
         off + length (certsBytes certs))"
  by (simp add: writeCerts_wbuf)

lemma marshalE2EHello_Ok:
  "marshalE2EHello chain key sig label = Ok p \<longleftrightarrow> valid_hello chain key sig \<and> p = helloBytes chain key sig"
  by (auto simp: marshalE2EHello_def valid_hello_def bindR_eq_Ok helloChainLength_Ok Let_def
      ok_field_def helloBytes_def replicate_wbuf codec_simps not_less split: if_splits)

lemma marshalE2EHello_ne_Panic: "marshalE2EHello chain key sig label \<noteq> Panic"
  by (auto simp: marshalE2EHello_def bindR_eq_Panic helloChainLength_Ok Let_def replicate_wbuf
      codec_simps split: if_splits)

lemma readLengthPrefixedBytes_cursor:
  assumes "cursor p off (be16 (length b) @ b @ rest)" "ok_field maxLen b" "maxLen < 65536"
  shows "readLengthPrefixedBytes p off maxLen field = Ok (b, off + 2 + length b)"
  using cursor_field16 [OF assms(1)] assms
  by (simp add: readLengthPrefixedBytes_def ok_field_def)

lemma readLengthPrefixedBytes_ne_Panic [simp]:
  "readLengthPrefixedBytes p off maxLen field \<noteq> Panic"
  by (auto simp: readLengthPrefixedBytes_def bindR_eq_Panic split: if_splits)

lemma readLengthPrefixedBytes_Ok:
  assumes "readLengthPrefixedBytes p off maxLen field = Ok (b, nxt)"
  shows "cursor p off (be16 (length b) @ b @ drop nxt p)" "ok_field maxLen b"
    "nxt \<le> length p" "nxt = off + (2 + length b)"
proof -
  from assms obtain n where n: "uint16At p off = Ok n" "n \<noteq> 0" "n \<le> maxLen"
      "off + 2 + n \<le> length p" "slice p (off + 2) (off + 2 + n) = Ok b" "nxt = off + 2 + n"
    by (auto simp: readLengthPrefixedBytes_def bindR_eq_Ok not_less split: if_splits)
  have len: "length b = n"
    using slice_length [OF n(5)] by simp
  then show "ok_field maxLen b" "nxt \<le> length p" "nxt = off + (2 + length b)"
    using n by (auto simp: ok_field_def)
  show "cursor p off (be16 (length b) @ b @ drop nxt p)"
    using uint16At_cursor [OF n(1)] slice_cursor [OF n(5)] n(6) len by (simp add: cursor_def)
qed

lemma readCerts_cursor:
  "cursor p off (certsBytes certs @ rest) \<Longrightarrow> list_all (ok_field MaxE2ECertLength) certs \<Longrightarrow>
   readCerts p off i (length certs) label = Ok (certs, off + length (certsBytes certs))"
proof (induction certs arbitrary: off i)
  case Nil
  then show ?case by simp
next
  case (Cons c certs)
  then have c: "cursor p off (be16 (length c) @ c @ certsBytes certs @ rest)" by simp
  have "readCerts p (off + 2 + length c) (i + 1) (length certs) label =
      Ok (certs, off + 2 + length c + length (certsBytes certs))"
    using Cons.prems cursor_adv_field16 [OF c] by (intro Cons.IH) auto
  moreover have "readLengthPrefixedBytes p off MaxE2ECertLength l = Ok (c, off + 2 + length c)" for l
    using Cons.prems by (intro readLengthPrefixedBytes_cursor [OF c]) (auto simp: qoru_consts)
  ultimately show ?case by simp
qed

lemma readCerts_ne_Panic [simp]: "readCerts p off i todo label \<noteq> Panic"
  by (induction p off i todo label rule: readCerts.induct)
    (auto simp: bindR_eq_Panic split: prod.splits)

lemma readCerts_Ok:
  "readCerts p off i todo label = Ok (certs, nxt) \<Longrightarrow> off \<le> length p \<Longrightarrow>
   cursor p off (certsBytes certs @ drop nxt p) \<and> nxt \<le> length p \<and> length certs = todo \<and>
   list_all (ok_field MaxE2ECertLength) certs"
proof (induction p off i todo label arbitrary: certs nxt rule: readCerts.induct)
  case (1 p off i label)
  then show ?case by (auto simp: cursor_def)
next
  case (2 p off i todo label)
  let ?l = "label @ '' cert chain['' @ show_nat i @ '']''"
  from "2.prems" obtain c n1 cs where
      c: "readLengthPrefixedBytes p off MaxE2ECertLength ?l = Ok (c, n1)"
    and rec: "readCerts p n1 (i + 1) todo label = Ok (cs, nxt)" and certs: "certs = c # cs"
    by (auto simp: bindR_eq_Ok)
  note C = readLengthPrefixedBytes_Ok [OF c]
  show ?case
    using C "2.IH" [OF rec C(3)] by (auto simp: certs cursor_def)
qed

lemma unmarshalE2EHello_ne_Panic: "unmarshalE2EHello p label \<noteq> Panic"
  by (auto simp: unmarshalE2EHello_def Let_def bindR_eq_Panic split: if_splits
      dest: readLengthPrefixedBytes_Ok(3))

lemma unmarshalE2EHello_helloBytes:
  assumes "valid_hello chain key sig"
  shows "unmarshalE2EHello (helloBytes chain key sig) label = Ok (chain, key, sig)"
proof -
  define p where "p = helloBytes chain key sig"
  have v: "chain \<noteq> []" "length chain \<le> 8" "list_all (ok_field MaxE2ECertLength) chain"
      "ok_field MaxE2EEphemeralKeyLength key" "ok_field MaxE2ESignatureLength sig"
    using assms by (auto simp: valid_hello_def qoru_consts)
  let ?o = "1 + length (certsBytes chain)"
  have c0: "cursor p 0 (word_of_nat (length chain) # certsBytes chain @ be16 (length key) @ key @
      be16 (length sig) @ sig @ [])"
    by (simp add: cursor_def p_def helloBytes_def)
  then have c1: "cursor p 1 (certsBytes chain @ be16 (length key) @ key @ be16 (length sig) @ sig @ [])"
    by (rule cursor_adv1) simp
  then have c2: "cursor p ?o (be16 (length key) @ key @ be16 (length sig) @ sig @ [])"
    by (rule cursor_adv) simp
  then have c3: "cursor p (?o + 2 + length key) (be16 (length sig) @ sig @ [])"
    by (rule cursor_adv_field16) simp
  have "readLengthPrefixedBytes p ?o MaxE2EEphemeralKeyLength l = Ok (key, ?o + 2 + length key)" for l
    using v(4) by (rule readLengthPrefixedBytes_cursor [OF c2]) (simp add: qoru_consts)
  moreover have "readLengthPrefixedBytes p (?o + 2 + length key) MaxE2ESignatureLength l =
      Ok (sig, ?o + 2 + length key + 2 + length sig)" for l
    using v(5) by (rule readLengthPrefixedBytes_cursor [OF c3]) (simp add: qoru_consts)
  moreover have "sliceFrom p (?o + 2 + length key + 2 + length sig) = Ok []"
    using cursor_length [OF c3] by simp
  ultimately show ?thesis
    using v cursor_byteAt [OF c0] cursor_length [OF c3] readCerts_cursor [OF c1 v(3), of 0 label]
    by (simp add: unmarshalE2EHello_def p_def [symmetric] Let_def unat_byte_of_nat qoru_consts)
qed

lemma unmarshalE2EHello_Ok:
  assumes "unmarshalE2EHello p label = Ok (chain, key, sig)" "length p \<le> MaxPayloadSize"
  shows "valid_hello chain key sig \<and> p = helloBytes chain key sig"
proof -
  from assms(1) obtain c o1 o2 o3 where
      c: "byteAt p 0 = Ok c" "unat c \<noteq> 0" "unat c \<le> MaxE2ECertChainCount"
    and chain: "readCerts p 1 0 (unat c) label = Ok (chain, o1)"
    and key: "readLengthPrefixedBytes p o1 MaxE2EEphemeralKeyLength (label @ '' ephemeral public key'') = Ok (key, o2)"
    and sig: "readLengthPrefixedBytes p o2 MaxE2ESignatureLength (label @ '' signature'') = Ok (sig, o3)"
    and rest: "sliceFrom p o3 = Ok []"
    by (auto simp: unmarshalE2EHello_def Let_def bindR_eq_Ok not_less split: if_splits)
  have "1 \<le> length p"
    using c(1) by (cases p) (simp_all add: byteAt_def)
  note Ch = readCerts_Ok [OF chain this]
  note K = readLengthPrefixedBytes_Ok [OF key]
  note S = readLengthPrefixedBytes_Ok [OF sig]
  have "drop o3 p = []"
    using rest S(3) by simp
  then have "p = c # certsBytes chain @ be16 (length key) @ key @ be16 (length sig) @ sig"
    using byteAt_cursor [OF c(1)] Ch K(1) S(1) by (simp add: cursor_def)
  then have p: "p = helloBytes chain key sig"
    using Ch by (auto simp: helloBytes_def)
  with Ch K(2) S(2) c(2,3) assms(2) show ?thesis
    by (auto simp: valid_hello_def)
qed

text \<open>The client hello reads through the shared helper; as one decoder of a frame:\<close>

definition clientHelloOfFrame :: "Frame \<Rightarrow> E2EClientHello res" where
  "clientHelloOfFrame f = bindR (helloOfFrame TypeE2EClientHello ''client'' f) (\<lambda>(chain, key, sig).
     Ok \<lparr>ch_ClientCertChain = chain, ch_EphemeralPublicKey = key, ch_Signature = sig\<rparr>)"

lemma ReadE2EClientHello_eq: "ReadE2EClientHello r = thenPure (ReadFrame r) clientHelloOfFrame"
  by (simp add: ReadE2EClientHello_def readE2EHelloFrame_def clientHelloOfFrame_def [abs_def]
      thenPure_def bindR_assoc)

interpretation clientHello: strict_frame_codec True TypeE2EClientHello
  clientHelloPayload clientHelloOfFrame "\<lambda>_. True" "\<lambda>m. m" WriteE2EClientHello ReadE2EClientHello
proof
  fix f :: Frame and m p
  show "clientHelloPayload m \<noteq> Panic"
    by (simp add: clientHelloPayload_def marshalE2EHello_ne_Panic)
  show "clientHelloOfFrame f \<noteq> Panic"
    by (auto simp: clientHelloOfFrame_def helloOfFrame_def bindR_eq_Panic unmarshalE2EHello_ne_Panic)
  show "\<exists>e. clientHelloOfFrame f = Err e" if "fr_Type f \<noteq> TypeE2EClientHello"
    using that by (simp add: clientHelloOfFrame_def helloOfFrame_def)
  show "clientHelloOfFrame \<lparr>fr_Version = Version, fr_Type = TypeE2EClientHello, fr_Payload = p\<rparr> = Ok m"
    if "clientHelloPayload m = Ok p"
    using that by (simp add: clientHelloPayload_def marshalE2EHello_Ok clientHelloOfFrame_def
        helloOfFrame_def unmarshalE2EHello_helloBytes)
  show "fr_Type f = TypeE2EClientHello \<and> clientHelloPayload m = Ok (fr_Payload f)"
    if "clientHelloOfFrame f = Ok m" "length (fr_Payload f) \<le> MaxPayloadSize"
    using that unmarshalE2EHello_Ok [of "fr_Payload f"]
    by (auto simp: clientHelloOfFrame_def helloOfFrame_def bindR_eq_Ok clientHelloPayload_def
        marshalE2EHello_Ok split: if_splits)
qed (simp_all add: WriteE2EClientHello_def ReadE2EClientHello_eq)

interpretation serverHello: strict_frame_codec True TypeE2EServerHello
  serverHelloPayload serverHelloOfFrame "\<lambda>_. True" "\<lambda>m. m" WriteE2EServerHello ReadE2EServerHello
proof
  fix f :: Frame and m p
  show "serverHelloPayload m \<noteq> Panic"
    by (simp add: serverHelloPayload_def marshalE2EHello_ne_Panic)
  show "serverHelloOfFrame f \<noteq> Panic"
    by (auto simp: serverHelloOfFrame_def DecodeE2EServerHelloPayload_def bindR_eq_Panic
        unmarshalE2EHello_ne_Panic)
  show "\<exists>e. serverHelloOfFrame f = Err e" if "fr_Type f \<noteq> TypeE2EServerHello"
    using that by (simp add: serverHelloOfFrame_def)
  show "serverHelloOfFrame \<lparr>fr_Version = Version, fr_Type = TypeE2EServerHello, fr_Payload = p\<rparr> = Ok m"
    if "serverHelloPayload m = Ok p"
    using that by (simp add: serverHelloPayload_def marshalE2EHello_Ok serverHelloOfFrame_def
        DecodeE2EServerHelloPayload_def unmarshalE2EHello_helloBytes)
  show "fr_Type f = TypeE2EServerHello \<and> serverHelloPayload m = Ok (fr_Payload f)"
    if "serverHelloOfFrame f = Ok m" "length (fr_Payload f) \<le> MaxPayloadSize"
    using that unmarshalE2EHello_Ok [of "fr_Payload f"]
    by (auto simp: serverHelloOfFrame_def DecodeE2EServerHelloPayload_def bindR_eq_Ok
        serverHelloPayload_def marshalE2EHello_Ok split: if_splits)
qed (simp_all add: WriteE2EServerHello_def ReadE2EServerHello_def)

section \<open>Data, close and finished\<close>

definition dataBytes :: "E2EData \<Rightarrow> bytes" where
  "dataBytes d = word_of_nat (length (ed_NonceSuffix d)) # ed_NonceSuffix d @
     be16 (length (ed_Ciphertext d)) @ ed_Ciphertext d"

definition valid_data :: "E2EData \<Rightarrow> bool" where
  "valid_data d \<longleftrightarrow> ok_field MaxE2ENonceSuffixLength (ed_NonceSuffix d) \<and>
     ok_field MaxE2ECiphertextLength (ed_Ciphertext d)"

lemma dataPayload_Ok: "dataPayload d = Ok p \<longleftrightarrow> valid_data d \<and> p = dataBytes d"
  by (auto simp: dataPayload_def valid_data_def ok_field_def dataBytes_def Let_def replicate_wbuf
      codec_simps split: if_splits)

lemma dataPayload_ne_Panic: "dataPayload d \<noteq> Panic"
  by (auto simp: dataPayload_def Let_def replicate_wbuf codec_simps)

lemma dataBytes_length: "valid_data d \<Longrightarrow> length (dataBytes d) \<le> MaxPayloadSize"
  by (auto simp: valid_data_def ok_field_def dataBytes_def qoru_consts)

lemma DecodeE2EDataPayload_ne_Panic: "DecodeE2EDataPayload p \<noteq> Panic"
  by (auto simp: DecodeE2EDataPayload_def Let_def bindR_eq_Panic split: if_splits)

lemma DecodeE2EDataPayload_dataBytes:
  assumes "valid_data d"
  shows "DecodeE2EDataPayload (dataBytes d) = Ok d"
proof -
  define p where "p = dataBytes d"
  let ?n = "length (ed_NonceSuffix d)" and ?c = "length (ed_Ciphertext d)"
  have v: "0 < ?n" "?n \<le> 24" "0 < ?c" "?c \<le> MaxE2ECiphertextLength" "?c < 65536"
    using assms by (auto simp: valid_data_def ok_field_def qoru_consts)
  have c0: "cursor p 0 (word_of_nat ?n # ed_NonceSuffix d @ be16 ?c @ ed_Ciphertext d @ [])"
    by (simp add: cursor_def p_def dataBytes_def)
  then have c1: "cursor p 1 (ed_NonceSuffix d @ be16 ?c @ ed_Ciphertext d @ [])"
    by (rule cursor_adv1) simp
  then have c2: "cursor p (1 + ?n) (be16 ?c @ ed_Ciphertext d @ [])"
    by (rule cursor_adv) simp
  then have c3: "cursor p (1 + ?n + 2) (ed_Ciphertext d @ [])"
    by (rule cursor_adv) simp
  show ?thesis
    using v cursor_byteAt [OF c0] cursor_slice [OF c1 refl] cursor_uint16At [OF c2]
      cursor_sliceFrom [OF c3] cursor_length [OF c3]
    by (simp add: DecodeE2EDataPayload_def p_def [symmetric] Let_def unat_byte_of_nat qoru_consts)
qed

lemma DecodeE2EDataPayload_Ok:
  assumes "DecodeE2EDataPayload p = Ok d"
  shows "valid_data d \<and> p = dataBytes d"
proof -
  from assms obtain nb nonce c where
      b: "byteAt p 0 = Ok nb" "unat nb \<noteq> 0" "unat nb \<le> MaxE2ENonceSuffixLength"
    and nonce: "slice p 1 (1 + unat nb) = Ok nonce"
    and c: "uint16At p (1 + unat nb) = Ok c" "c \<noteq> 0" "c \<le> MaxE2ECiphertextLength"
      "length (drop (1 + unat nb + 2) p) = c"
    and d: "d = \<lparr>ed_NonceSuffix = nonce, ed_Ciphertext = drop (1 + unat nb + 2) p\<rparr>"
    by (auto simp: DecodeE2EDataPayload_def Let_def bindR_eq_Ok not_less split: if_splits)
  have "length nonce = unat nb"
    using slice_length [OF nonce] by simp
  moreover have "p = nb # nonce @ be16 c @ drop (1 + unat nb + 2) p"
    using byteAt_cursor [OF b(1)] slice_cursor [OF nonce] uint16At_cursor [OF c(1)]
    by (simp add: cursor_def)
  ultimately show ?thesis
    using b c by (auto simp: d valid_data_def ok_field_def dataBytes_def simp flip: length_greater_0_conv)
qed

interpretation e2eData: strict_frame_codec True TypeE2EData
  dataPayload dataOfFrame "\<lambda>_. True" "\<lambda>m. m" WriteE2EData ReadE2EData
  by unfold_locales
    (auto simp: WriteE2EData_def ReadE2EData_def dataOfFrame_def dataPayload_ne_Panic
      DecodeE2EDataPayload_ne_Panic dataPayload_Ok DecodeE2EDataPayload_dataBytes
      dest: DecodeE2EDataPayload_Ok split: if_splits)

definition closeBytes :: "E2EClose \<Rightarrow> bytes" where
  "closeBytes c = [ec_Code c, ec_ConnectCode c] @ be16 (length (ec_Message c)) @ bytes_of (ec_Message c)"

definition valid_close :: "E2EClose \<Rightarrow> bool" where
  "valid_close c \<longleftrightarrow> ConnectCode_Valid (ec_ConnectCode c) \<and> length (ec_Message c) \<le> MaxE2ECloseMessageLength"

lemma closePayload_Ok: "closePayload c = Ok p \<longleftrightarrow> valid_close c \<and> p = closeBytes c"
  by (auto simp: closePayload_def valid_close_def closeBytes_def Let_def replicate_wbuf codec_simps
      split: if_splits)

lemma closePayload_ne_Panic: "closePayload c \<noteq> Panic"
  by (auto simp: closePayload_def Let_def replicate_wbuf codec_simps)

lemma DecodeE2EClosePayload_ne_Panic: "DecodeE2EClosePayload p \<noteq> Panic"
  by (auto simp: DecodeE2EClosePayload_def bindR_eq_Panic split: if_splits)

lemma DecodeE2EClosePayload_closeBytes:
  assumes "valid_close c"
  shows "DecodeE2EClosePayload (closeBytes c) = Ok c"
proof -
  let ?n = "length (ec_Message c)"
  have "uint16At (closeBytes c) 2 = Ok ?n"
    unfolding closeBytes_def using assms
    by (intro uint16At_append) (simp_all add: valid_close_def qoru_consts)
  moreover have "sliceFrom (closeBytes c) 4 = Ok (bytes_of (ec_Message c))"
    using sliceFrom_append [of 4 "[ec_Code c, ec_ConnectCode c] @ be16 ?n"] by (simp add: closeBytes_def)
  ultimately show ?thesis
    using assms by (simp add: DecodeE2EClosePayload_def valid_close_def byteAt_def)
      (simp add: closeBytes_def)
qed

lemma DecodeE2EClosePayload_Ok:
  assumes "DecodeE2EClosePayload p = Ok c"
  shows "valid_close c \<and> p = closeBytes c"
proof -
  from assms obtain code cc where
      b: "byteAt p 0 = Ok code" "byteAt p 1 = Ok cc" "ConnectCode_Valid cc"
        "uint16At p 2 = Ok (length p - 4)" "length p - 4 \<le> MaxE2ECloseMessageLength" "4 \<le> length p"
    and c: "c = \<lparr>ec_Code = code, ec_ConnectCode = cc, ec_Message = string_of (drop 4 p)\<rparr>"
    by (auto simp: DecodeE2EClosePayload_def bindR_eq_Ok not_less split: if_splits)
  have "p = [code, cc] @ be16 (length p - 4) @ drop 4 p"
    using byteAt_cursor [OF b(1)] byteAt_cursor [OF b(2)] uint16At_cursor [OF b(4)]
    by (simp add: cursor_def eval_nat_numeral)
  then show ?thesis
    using b by (auto simp: c valid_close_def closeBytes_def)
qed

interpretation e2eClose: strict_frame_codec True TypeE2EClose
  closePayload closeOfFrame "\<lambda>_. True" "\<lambda>m. m" WriteE2EClose ReadE2EClose
  by unfold_locales
    (auto simp: WriteE2EClose_def ReadE2EClose_def closeOfFrame_def closePayload_ne_Panic
      DecodeE2EClosePayload_ne_Panic closePayload_Ok DecodeE2EClosePayload_closeBytes
      dest: DecodeE2EClosePayload_Ok split: if_splits)

definition finishedBytes :: "E2EClientFinished \<Rightarrow> bytes" where
  "finishedBytes m = be16 (length (cf_Signature m)) @ cf_Signature m"

lemma finishedPayload_Ok:
  "finishedPayload m = Ok p \<longleftrightarrow> ok_field MaxE2EFinishedSignatureLength (cf_Signature m) \<and> p = finishedBytes m"
  by (auto simp: finishedPayload_def ok_field_def finishedBytes_def Let_def replicate_wbuf codec_simps
      split: if_splits)

lemma finishedOfFrame_finishedBytes:
  assumes "ok_field MaxE2EFinishedSignatureLength (cf_Signature m)"
  shows "finishedOfFrame \<lparr>fr_Version = Version, fr_Type = TypeE2EClientFinished,
           fr_Payload = finishedBytes m\<rparr> = Ok m"
  using assms uint16At_append [of 0 "[]" "length (cf_Signature m)" "cf_Signature m"]
    sliceFrom_append [of 2 "be16 (length (cf_Signature m))" "cf_Signature m"]
  by (simp add: finishedOfFrame_def ok_field_def finishedBytes_def Let_def qoru_consts)

lemma finishedOfFrame_Ok:
  assumes "finishedOfFrame f = Ok m"
  shows "fr_Type f = TypeE2EClientFinished \<and> finishedPayload m = Ok (fr_Payload f)"
proof -
  define p where "p = fr_Payload f"
  from assms have ty: "fr_Type f = TypeE2EClientFinished"
    and n: "uint16At p 0 = Ok (length p - 2)" "length p - 2 \<noteq> 0"
      "length p - 2 \<le> MaxE2EFinishedSignatureLength"
    and m: "m = \<lparr>cf_Signature = drop 2 p\<rparr>"
    by (auto simp: finishedOfFrame_def p_def [symmetric] Let_def bindR_eq_Ok not_less split: if_splits)
  have "p = be16 (length p - 2) @ drop 2 p"
    using uint16At_cursor [OF n(1)] by (simp add: cursor_def numeral_2_eq_2)
  then show ?thesis
    using ty n by (auto simp: finishedPayload_Ok m ok_field_def finishedBytes_def p_def [symmetric])
qed

interpretation e2eFinished: strict_frame_codec True TypeE2EClientFinished
  finishedPayload finishedOfFrame "\<lambda>_. True" "\<lambda>m. m" WriteE2EClientFinished ReadE2EClientFinished
proof
  fix f :: Frame and m
  show "finishedPayload m \<noteq> Panic"
    by (auto simp: finishedPayload_def Let_def replicate_wbuf codec_simps)
  show "finishedOfFrame f \<noteq> Panic"
    by (auto simp: finishedOfFrame_def Let_def bindR_eq_Panic split: if_splits)
  show "\<exists>e. finishedOfFrame f = Err e" if "fr_Type f \<noteq> TypeE2EClientFinished"
    using that by (simp add: finishedOfFrame_def)
qed (auto simp: WriteE2EClientFinished_def ReadE2EClientFinished_def finishedPayload_Ok
    finishedOfFrame_finishedBytes dest: finishedOfFrame_Ok)

end
