(* ===== verification/E2E_Record.thy ===== *)
theory E2E_Record
  imports Crypto Protocol_E2E_Lemmas
begin

text \<open>
  The encrypted record layer (\<^verbatim>\<open>internal/e2e/record.go\<close>): \<open>EncryptedWriter\<close> cuts plaintext
  into sealed \<open>E2EData\<close> frames numbered by a 64-bit sequence, \<open>EncryptedReader\<close> opens
  them in order and turns an \<open>E2EClose\<close> frame into end of file or an error. The state of
  each is a record with the struct's fields; the sequence number is a \<^typ>\<open>64 word\<close>. The
  writer's mutex serialises its operations, which are therefore single steps here.
\<close>

section \<open>Constants and helpers\<close>

definition CloseCodeOK :: byte where [qoru_consts]: "CloseCodeOK = 0"
definition CloseCodeError :: byte where [qoru_consts]: "CloseCodeError = 1"
definition recordNonceSuffixSize :: nat where [qoru_consts]: "recordNonceSuffixSize = 8"
definition recordDomain :: string where "recordDomain = ''qoru-e2e-data-v1''"

definition ErrEncryptedWriterClosed :: go_error where
  "ErrEncryptedWriterClosed = ErrorsNew ''e2e encrypted writer closed''"

text \<open>\<open>writeBytes\<close> and \<open>writeString\<close> of \<^verbatim>\<open>handshake.go\<close>, on a growing buffer.\<close>

definition writeBytes :: "bytes \<Rightarrow> bytes \<Rightarrow> bytes" where
  "writeBytes buf value = buf @ be32 (length value) @ value"

definition writeString :: "bytes \<Rightarrow> string \<Rightarrow> bytes" where
  "writeString buf value = writeBytes buf (bytes_of value)"

definition newRecordAEAD :: "bytes \<Rightarrow> bytes res" where
  "newRecordAEAD key = wrapErr (ErrorfW ''create e2e record cipher: %w'' []) (aes_NewCipher key)"

definition nonceSuffix :: "64 word \<Rightarrow> bytes" where
  "nonceSuffix seq = be64 seq"

definition suffixSequence :: "bytes \<Rightarrow> nat" where
  "suffixSequence suffix =
     (if length suffix \<noteq> recordNonceSuffixSize then 0
      else foldl (\<lambda>acc b. acc * 256 + unat b) 0 suffix)"

definition nonceFromSuffix :: "bytes \<Rightarrow> nat \<Rightarrow> bytes res" where
  "nonceFromSuffix suffix nonceSize =
     (if nonceSize < length suffix then Panic
      else copyAt (replicate nonceSize 0) (nonceSize - length suffix) suffix)"

definition recordAAD :: "bytes \<Rightarrow> bytes \<Rightarrow> bytes" where
  "recordAAD transcriptHash suffix =
     writeBytes (writeBytes (writeString [] recordDomain) transcriptHash) suffix"

section \<open>The writer\<close>

record EncryptedWriter =
  ew_w :: ostream
  ew_key :: bytes
  ew_transcriptHash :: bytes
  ew_maxPlaintext :: nat
  ew_seq :: "64 word"
  ew_closed :: bool

definition NewEncryptedWriter :: "ostream option \<Rightarrow> bytes \<Rightarrow> bytes \<Rightarrow> EncryptedWriter res" where
  "NewEncryptedWriter wo key transcriptHash =
     (case wo of None \<Rightarrow> Err (Errorf ''writer is required'' []) | Some w \<Rightarrow>
      bindR (newRecordAEAD key) (\<lambda>aead.
      if length transcriptHash = 0 then Err (Errorf ''transcript hash is required'' [])
      else
        let maxPlaintext = int MaxE2ECiphertextLength - int gcm_Overhead in
        if maxPlaintext \<le> 0 then Err (Errorf ''encrypted record plaintext limit is invalid'' [])
        else Ok \<lparr>ew_w = w, ew_key = aead, ew_transcriptHash = transcriptHash,
                 ew_maxPlaintext = nat maxPlaintext, ew_seq = 0, ew_closed = False\<rparr>))"

definition writeRecordLocked ::
    "crypto_lib \<Rightarrow> EncryptedWriter \<Rightarrow> bytes \<Rightarrow> unit res \<times> EncryptedWriter" where
  "writeRecordLocked C w plaintext =
     (if ew_seq w = - 1 then (Err (Errorf ''e2e record sequence exhausted'' []), w)
      else
        let suffix = nonceSuffix (ew_seq w) in
        pureThen (nonceFromSuffix suffix gcm_NonceSize) w (\<lambda>nonce.
        let ciphertext = gcm_Seal C (ew_key w) nonce plaintext (recordAAD (ew_transcriptHash w) suffix);
            (r, s) = WriteE2EData (ew_w w) \<lparr>ed_NonceSuffix = suffix, ed_Ciphertext = ciphertext\<rparr>;
            w = w\<lparr>ew_w := s\<rparr> in
        case r of
          Ok _ \<Rightarrow> (Ok (), w\<lparr>ew_seq := ew_seq w + 1\<rparr>)
        | Err e \<Rightarrow> (Err e, w)
        | Panic \<Rightarrow> (Panic, w)))"

text \<open>
  The loop of \<open>Write\<close>: it returns the count of bytes written and an error. With a zero
  record limit it would not end, hence the \<open>option\<close>.
\<close>

partial_function (option) encWriteLoop ::
    "crypto_lib \<Rightarrow> EncryptedWriter \<Rightarrow> bytes \<Rightarrow> nat \<Rightarrow> ((nat \<times> unit res) \<times> EncryptedWriter) option" where
  "encWriteLoop C w p written =
     (if written < length p then
        let stop = min (written + ew_maxPlaintext w) (length p);
            (r, w') = writeRecordLocked C w (take (stop - written) (drop written p)) in
        (case r of
           Ok _ \<Rightarrow> encWriteLoop C w' p stop
         | Err e \<Rightarrow> Some ((written, Err e), w')
         | Panic \<Rightarrow> Some ((written, Panic), w'))
      else Some ((written, Ok ()), w))"

definition encWrite ::
    "crypto_lib \<Rightarrow> EncryptedWriter \<Rightarrow> bytes \<Rightarrow> ((nat \<times> unit res) \<times> EncryptedWriter) option" where
  "encWrite C w p =
     (if length p = 0 then Some ((0, Ok ()), w)
      else if ew_closed w then Some ((0, Err ErrEncryptedWriterClosed), w)
      else encWriteLoop C w p 0)"

definition encCloseWrite :: "EncryptedWriter \<Rightarrow> unit res \<times> EncryptedWriter" where
  "encCloseWrite w =
     (if ew_closed w then (Ok (), w)
      else
        let w = w\<lparr>ew_closed := True\<rparr>;
            (r, s) = WriteE2EClose (ew_w w) \<lparr>ec_Code = CloseCodeOK, ec_ConnectCode = 0, ec_Message = []\<rparr> in
        (r, w\<lparr>ew_w := s\<rparr>))"

definition encClose :: "EncryptedWriter \<Rightarrow> unit res \<times> EncryptedWriter" where
  "encClose w = encCloseWrite w"

text \<open>The text of a \<open>CloseError\<close>.\<close>

definition CloseError_Error :: "CloseError \<Rightarrow> string" where
  "CloseError_Error e =
     (if ce_Message e = []
      then ''e2e stream closed with code '' @ show_nat (unat (ce_Code e)) @ '' connect_code '' @ ConnectCode_String (ce_ConnectCode e)
      else ''e2e stream closed with code '' @ show_nat (unat (ce_Code e)) @ '' connect_code '' @ ConnectCode_String (ce_ConnectCode e) @
        '': '' @ ce_Message e)"

section \<open>The reader\<close>

record EncryptedReader =
  er_r :: istream
  er_key :: bytes
  er_transcriptHash :: bytes
  er_seq :: "64 word"
  er_buf :: bytes
  er_closed :: bool

definition NewEncryptedReader :: "istream option \<Rightarrow> bytes \<Rightarrow> bytes \<Rightarrow> EncryptedReader res" where
  "NewEncryptedReader ro key transcriptHash =
     (case ro of None \<Rightarrow> Err (Errorf ''reader is required'' []) | Some r \<Rightarrow>
      bindR (newRecordAEAD key) (\<lambda>aead.
      if length transcriptHash = 0 then Err (Errorf ''transcript hash is required'' [])
      else Ok \<lparr>er_r = r, er_key = aead, er_transcriptHash = transcriptHash,
               er_seq = 0, er_buf = [], er_closed = False\<rparr>))"

definition openDataFrame ::
    "crypto_lib \<Rightarrow> EncryptedReader \<Rightarrow> bytes \<Rightarrow> bytes res \<times> EncryptedReader" where
  "openDataFrame C r payload =
     pureThen (DecodeE2EDataPayload payload) r (\<lambda>data.
     let expected = nonceSuffix (er_seq r) in
     if ed_NonceSuffix data \<noteq> expected
     then (Err (Errorf ''unexpected e2e record sequence: got %d want %d''
             [FD (int (suffixSequence (ed_NonceSuffix data))), FD (uint (er_seq r))]), r)
     else pureThen (nonceFromSuffix (ed_NonceSuffix data) gcm_NonceSize) r (\<lambda>nonce.
     pureThen (wrapErr (ErrorfW ''decrypt e2e record: %w'' [])
        (gcm_Open C (er_key r) nonce (ed_Ciphertext data)
           (recordAAD (er_transcriptHash r) (ed_NonceSuffix data)))) r (\<lambda>plaintext.
     if er_seq r = - 1 then (Err (Errorf ''e2e record sequence exhausted'' []), r)
     else (Ok plaintext, r\<lparr>er_seq := er_seq r + 1\<rparr>))))"

text \<open>\<open>bytes.Buffer.Read\<close> on a buffer that is not empty.\<close>

definition bufRead :: "EncryptedReader \<Rightarrow> nat \<Rightarrow> bytes res \<times> EncryptedReader" where
  "bufRead r n = (Ok (take n (er_buf r)), r\<lparr>er_buf := drop n (er_buf r)\<rparr>)"

text \<open>One turn of the loop in \<open>Read\<close>: \<open>Inl\<close> ends the call with an error, \<open>Inr\<close> goes on.\<close>

definition readStep :: "crypto_lib \<Rightarrow> EncryptedReader \<Rightarrow> unit res \<times> EncryptedReader" where
  "readStep C r =
     (let (fr, s) = ReadFrame (er_r r); r = r\<lparr>er_r := s\<rparr> in
      pureThen fr r (\<lambda>frame.
      if fr_Type frame = TypeE2EData then
        seqR (openDataFrame C r (fr_Payload frame)) (\<lambda>plaintext r.
        (Ok (), r\<lparr>er_buf := er_buf r @ plaintext\<rparr>))
      else if fr_Type frame = TypeE2EClose then
        pureThen (DecodeE2EClosePayload (fr_Payload frame)) r (\<lambda>closeFrame.
        let r = r\<lparr>er_closed := True\<rparr> in
        if ec_Code closeFrame = CloseCodeOK then (Err EOF, r)
        else (Err (ErrClose \<lparr>ce_Code = ec_Code closeFrame, ce_ConnectCode = ec_ConnectCode closeFrame,
                             ce_Message = ec_Message closeFrame\<rparr>), r))
      else (Err (Errorf ''unexpected e2e frame type %d'' [FD (uint (fr_Type frame))]), r)))"

lemma openDataFrame_frame:
  "er_r (snd (openDataFrame C r p)) = er_r r" "er_buf (snd (openDataFrame C r p)) = er_buf r"
  by (simp_all add: openDataFrame_def pureThen_def Let_def split: res.splits)

lemma readStep_shorter:
  assumes "readStep C r = (Ok u, r')"
  shows "length (is_data (er_r r')) < length (is_data (er_r r))"
proof -
  obtain f s where f: "ReadFrame (er_r r) = (Ok f, s)"
    using assms by (cases "ReadFrame (er_r r)"; cases "fst (ReadFrame (er_r r))") (auto simp: readStep_def)
  have "er_r r' = s"
  proof (cases "openDataFrame C (r\<lparr>er_r := s\<rparr>) (fr_Payload f)")
    case (Pair a b)
    then show ?thesis
      using assms f openDataFrame_frame(1) [of C "r\<lparr>er_r := s\<rparr>" "fr_Payload f"]
      by (cases a) (auto simp: readStep_def pureThen_def Let_def split: if_splits res.splits)
  qed
  then show ?thesis
    using ReadFrame_Ok(1) [OF f] by (simp add: frameBytes_def)
qed

function readLoop :: "crypto_lib \<Rightarrow> EncryptedReader \<Rightarrow> nat \<Rightarrow> bytes res \<times> EncryptedReader" where
  "readLoop C r n =
     (if er_buf r = [] then
        (case readStep C r of
           (Ok _, r') \<Rightarrow> readLoop C r' n
         | (Err e, r') \<Rightarrow> (Err e, r')
         | (Panic, r') \<Rightarrow> (Panic, r'))
      else bufRead r n)"
  by pat_completeness auto
termination
  by (relation "measure (\<lambda>(C, r, n). length (is_data (er_r r)))") (auto simp: readStep_shorter)

declare readLoop.simps [simp del]

definition encRead :: "crypto_lib \<Rightarrow> EncryptedReader \<Rightarrow> nat \<Rightarrow> bytes res \<times> EncryptedReader" where
  "encRead C r n =
     (if length (er_buf r) > 0 then bufRead r n
      else if er_closed r then (Err EOF, r)
      else readLoop C r n)"

end
