(* ===== verification/E2E_Handshake.thy ===== *)
theory E2E_Handshake
  imports E2E_Record Identity
begin

text \<open>
  The end-to-end handshake (\<^verbatim>\<open>internal/e2e/handshake.go\<close>): the routing context bound into it,
  the transcript that is hashed and signed, the three signed messages and their verification,
  the shared secret and the traffic keys. The identifier package \<open>U\<close> and the primitives \<open>C\<close>
  are parameters. A \<open>nil\<close> slice is \<^const>\<open>None\<close> where the code tells it from other slices; a
  field that came off the wire or was copied by \<open>append\<close> is \<open>nil\<close> when it is empty.
\<close>

section \<open>Context and keys\<close>

definition clientHelloDomain :: string where "clientHelloDomain = ''qoru-e2e-client-hello-v1''"
definition serverHelloDomain :: string where "serverHelloDomain = ''qoru-e2e-server-hello-v1''"
definition clientFinishedDomain :: string where "clientFinishedDomain = ''qoru-e2e-client-finished-v1''"
definition transcriptDomain :: string where "transcriptDomain = ''qoru-e2e-transcript-v1''"
definition trafficKeysInfo :: string where "trafficKeysInfo = ''qoru-e2e-traffic-keys-v1''"
definition trafficKeySize :: nat where [qoru_consts]: "trafficKeySize = 32"

record Context =
  cx_RequestID :: string
  cx_Service :: string
  cx_Egress :: string
  cx_Route :: "string list"

record EphemeralKeyPair =
  kp_Private :: "bytes option"
  kp_Public :: bytes

record TrafficKeys =
  tk_ClientToServer :: bytes
  tk_ServerToClient :: bytes

text \<open>\<open>GenerateEphemeralKey\<close>: the private key drawn by \<open>X25519().GenerateKey\<close> is the argument.\<close>

definition GenerateEphemeralKey :: "crypto_lib \<Rightarrow> bytes res \<Rightarrow> EphemeralKeyPair res" where
  "GenerateEphemeralKey C drawn =
     bindR (wrapErr (ErrorfW ''generate e2e ephemeral key: %w'' []) drawn) (\<lambda>priv.
     Ok \<lparr>kp_Private = Some priv, kp_Public = x25519_PublicKey C priv\<rparr>)"

definition SharedSecret :: "crypto_lib \<Rightarrow> bytes option \<Rightarrow> bytes \<Rightarrow> bytes res" where
  "SharedSecret C private peerPublic =
     (case private of None \<Rightarrow> Err (Errorf ''private ephemeral key is required'' []) | Some private \<Rightarrow>
      bindR (wrapErr (ErrorfW ''parse peer ephemeral public key: %w'' []) (x25519_NewPublicKey peerPublic)) (\<lambda>peer.
      wrapErr (ErrorfW ''derive shared secret: %w'' []) (x25519_ECDH C private peer)))"

section \<open>The transcript\<close>

definition nilable :: "bytes \<Rightarrow> bytes option" where
  "nilable bs = (if bs = [] then None else Some bs)"

definition writeHopStrings :: "bytes \<Rightarrow> string list \<Rightarrow> bytes" where
  "writeHopStrings buf hops = foldl writeString buf hops"

definition checkEphemeral :: "string \<Rightarrow> bytes \<Rightarrow> unit res" where
  "checkEphemeral who key =
     (if length key = 0 then Err (Errorf (who @ '' ephemeral public key is required'') [])
      else if length key > MaxE2EEphemeralKeyLength
      then Err (Errorf (who @ '' ephemeral public key too long: %d > %d'')
                  [FD (int (length key)), FD (int MaxE2EEphemeralKeyLength)])
      else bindR (wrapErr (ErrorfW (''parse '' @ who @ '' ephemeral public key: %w'') []) (x25519_NewPublicKey key))
             (\<lambda>_. Ok ()))"

definition marshalTranscript ::
    "uuid_lib \<Rightarrow> string \<Rightarrow> Context \<Rightarrow> bytes \<Rightarrow> bytes option \<Rightarrow> bytes res" where
  "marshalTranscript U domain ctx clientEphemeral serverEphemeral =
     (if domain = [] then Err (Errorf ''transcript domain is required'' [])
      else bindR (wrapErr (ErrorfW ''request_id must be a valid UUIDv7: %w'' []) (ParseBytes U (cx_RequestID ctx))) (\<lambda>_.
      if cx_Service ctx = [] then Err (Errorf ''service is required'' [])
      else if length (cx_Service ctx) > MaxTargetLength
      then Err (Errorf ''service too long: %d > %d'' [FD (int (length (cx_Service ctx))), FD (int MaxTargetLength)])
      else if length (cx_Egress ctx) > MaxTargetLength
      then Err (Errorf ''egress too long: %d > %d'' [FD (int (length (cx_Egress ctx))), FD (int MaxTargetLength)])
      else if length (cx_Route ctx) > 255
      then Err (Errorf ''route too long: %d > %d'' [FD (int (length (cx_Route ctx))), FD 255])
      else bindR (forEach (\<lambda>i hop.
          if hop = [] then Err (Errorf ''route[%d] is required'' [FD (int i)])
          else if length hop > MaxTargetLength
          then Err (Errorf ''route[%d] too long: %d > %d'' [FD (int i), FD (int (length hop)), FD (int MaxTargetLength)])
          else Ok ()) 0 (cx_Route ctx)) (\<lambda>_.
      bindR (checkEphemeral ''client'' clientEphemeral) (\<lambda>_.
      bindR (case serverEphemeral of None \<Rightarrow> Ok () | Some key \<Rightarrow> checkEphemeral ''server'' key) (\<lambda>_.
      let buf = writeString [] domain;
          buf = writeString buf (cx_RequestID ctx);
          buf = writeString buf (cx_Service ctx);
          buf = writeString buf (cx_Egress ctx);
          buf = buf @ [word_of_nat (length (cx_Route ctx))];
          buf = writeHopStrings buf (cx_Route ctx);
          buf = writeBytes buf clientEphemeral in
      Ok (case serverEphemeral of None \<Rightarrow> buf @ [0] | Some key \<Rightarrow> writeBytes (buf @ [1]) key))))))"

definition digestTranscript ::
    "crypto_lib \<Rightarrow> uuid_lib \<Rightarrow> string \<Rightarrow> Context \<Rightarrow> bytes \<Rightarrow> bytes option \<Rightarrow> bytes res" where
  "digestTranscript C U domain ctx clientEphemeral serverEphemeral =
     bindR (marshalTranscript U domain ctx clientEphemeral serverEphemeral) (\<lambda>payload.
     Ok (sha256_Sum C payload))"

definition clientHelloDigest :: "crypto_lib \<Rightarrow> uuid_lib \<Rightarrow> Context \<Rightarrow> bytes \<Rightarrow> bytes res" where
  "clientHelloDigest C U ctx clientEphemeral = digestTranscript C U clientHelloDomain ctx clientEphemeral None"

definition serverHelloDigest :: "crypto_lib \<Rightarrow> uuid_lib \<Rightarrow> Context \<Rightarrow> bytes \<Rightarrow> bytes \<Rightarrow> bytes res" where
  "serverHelloDigest C U ctx clientEphemeral serverEphemeral =
     digestTranscript C U serverHelloDomain ctx clientEphemeral (nilable serverEphemeral)"

definition clientFinishedDigest :: "crypto_lib \<Rightarrow> uuid_lib \<Rightarrow> Context \<Rightarrow> bytes \<Rightarrow> bytes \<Rightarrow> bytes res" where
  "clientFinishedDigest C U ctx clientEphemeral serverEphemeral =
     digestTranscript C U clientFinishedDomain ctx clientEphemeral (nilable serverEphemeral)"

definition TranscriptHash :: "crypto_lib \<Rightarrow> uuid_lib \<Rightarrow> Context \<Rightarrow> bytes \<Rightarrow> bytes \<Rightarrow> bytes res" where
  "TranscriptHash C U ctx clientEphemeral serverEphemeral =
     digestTranscript C U transcriptDomain ctx clientEphemeral (nilable serverEphemeral)"

definition DeriveTrafficKeys :: "crypto_lib \<Rightarrow> bytes \<Rightarrow> bytes \<Rightarrow> TrafficKeys res" where
  "DeriveTrafficKeys C sharedSecret transcriptHash =
     (if length sharedSecret = 0 then Err (Errorf ''shared secret is required'' [])
      else if length transcriptHash = 0 then Err (Errorf ''transcript hash is required'' [])
      else bindR (wrapErr (ErrorfW ''derive traffic keys: %w'' [])
               (hkdf_Key C sharedSecret transcriptHash trafficKeysInfo (trafficKeySize * 2))) (\<lambda>keyMaterial.
      bindR (slice keyMaterial 0 trafficKeySize) (\<lambda>c2s.
      bindR (sliceFrom keyMaterial trafficKeySize) (\<lambda>s2c.
      Ok \<lparr>tk_ClientToServer = c2s, tk_ServerToClient = s2c\<rparr>))))"

section \<open>Certificates and signatures\<close>

definition parseLeafCertificate :: "crypto_lib \<Rightarrow> bytes list \<Rightarrow> x509_cert res" where
  "parseLeafCertificate C rawCerts =
     (case rawCerts of [] \<Rightarrow> Err (Errorf ''certificate is required'' []) | raw # _ \<Rightarrow>
      wrapErr (ErrorfW ''parse certificate: %w'' []) (x509_Parse C raw))"

definition parseCertificates :: "crypto_lib \<Rightarrow> bytes list \<Rightarrow> x509_cert list res" where
  "parseCertificates C rawCerts = parseCerts C ''parse certificate: %w'' rawCerts"

definition signDigest :: "crypto_lib \<Rightarrow> tls_cert \<Rightarrow> bytes \<Rightarrow> bytes res" where
  "signDigest C cert digest =
     (if tc_Certificate cert = [] then Err (Errorf ''certificate chain is required'' [])
      else case tc_PrivateKey cert of
        NotSigner \<Rightarrow> Err (Errorf ''certificate private key does not implement crypto.Signer'' [])
      | Signer pub sk \<Rightarrow>
          bindR (parseLeafCertificate C (tc_Certificate cert)) (\<lambda>_.
          case pub of
            PubEd25519 _ \<Rightarrow> signer_Sign C pub sk digest False
          | _ \<Rightarrow> signer_Sign C pub sk digest True))"

definition verifySignature :: "crypto_lib \<Rightarrow> x509_cert option \<Rightarrow> bytes \<Rightarrow> bytes \<Rightarrow> unit res" where
  "verifySignature C cert digest signature =
     (case cert of None \<Rightarrow> Err (Errorf ''certificate is required'' []) | Some cert \<Rightarrow>
      if length signature = 0 then Err (Errorf ''signature is required'' [])
      else case xc_PublicKey cert of
        PubRSA pub \<Rightarrow> rsa_Verify C pub digest signature
      | PubECDSA pub \<Rightarrow>
          if \<not> ecdsa_Verify C pub digest signature then Err (Errorf ''invalid ECDSA signature'' []) else Ok ()
      | PubEd25519 pub \<Rightarrow>
          if \<not> ed25519_Verify C pub digest signature then Err (Errorf ''invalid Ed25519 signature'' []) else Ok ()
      | PubOther t \<Rightarrow> Err (Errorf ''unsupported certificate public key type %T'' [FS t]))"

definition verifyClientCertificate ::
    "crypto_lib \<Rightarrow> bytes list \<Rightarrow> cert_pool option \<Rightarrow> (x509_cert \<times> string) res" where
  "verifyClientCertificate C rawCerts roots =
     (if rawCerts = [] then Err (Errorf ''client certificate is required'' [])
      else case roots of None \<Rightarrow> Err (Errorf ''node CA roots are required'' []) | Some roots \<Rightarrow>
      bindR (parseCertificates C rawCerts) (\<lambda>certs.
      bindR (wrapErr (ErrorfW ''verify client certificate chain: %w'' [])
               (x509_Verify C (hd certs) roots (tl certs) ExtKeyUsageClientAuth)) (\<lambda>_.
      bindR (PeerNodeID certs) (\<lambda>nodeID.
      Ok (hd certs, nodeID)))))"

section \<open>The messages\<close>

definition cloneChain :: "bytes list \<Rightarrow> bytes list" where
  "cloneChain chain = map (\<lambda>cert. [] @ cert) chain"

lemma cloneChain_id [simp]: "cloneChain chain = chain"
  by (simp add: cloneChain_def)

definition NewClientHello :: "crypto_lib \<Rightarrow> uuid_lib \<Rightarrow> Context \<Rightarrow> tls_cert \<Rightarrow> bytes \<Rightarrow> E2EClientHello res" where
  "NewClientHello C U ctx cert clientEphemeral =
     (if tc_Certificate cert = [] then Err (Errorf ''client certificate chain is required'' [])
      else bindR (clientHelloDigest C U ctx clientEphemeral) (\<lambda>digest.
      bindR (wrapErr (ErrorfW ''sign client hello: %w'' []) (signDigest C cert digest)) (\<lambda>sig.
      Ok \<lparr>ch_ClientCertChain = cloneChain (tc_Certificate cert), ch_EphemeralPublicKey = clientEphemeral, ch_Signature = sig\<rparr>)))"

definition VerifyClientHello ::
    "crypto_lib \<Rightarrow> uuid_lib \<Rightarrow> Context \<Rightarrow> E2EClientHello \<Rightarrow> cert_pool option \<Rightarrow> (string \<times> x509_cert) res" where
  "VerifyClientHello C U ctx hello roots =
     bindR (verifyClientCertificate C (ch_ClientCertChain hello) roots) (\<lambda>(leaf, clientID).
     bindR (clientHelloDigest C U ctx (ch_EphemeralPublicKey hello)) (\<lambda>digest.
     bindR (wrapErr (ErrorfW ''verify client hello signature: %w'' [])
              (verifySignature C (Some leaf) digest (ch_Signature hello))) (\<lambda>_.
     Ok (clientID, leaf))))"

definition NewServerHello ::
    "crypto_lib \<Rightarrow> uuid_lib \<Rightarrow> Context \<Rightarrow> tls_cert \<Rightarrow> bytes \<Rightarrow> bytes \<Rightarrow> E2EServerHello res" where
  "NewServerHello C U ctx cert clientEphemeral serverEphemeral =
     (if tc_Certificate cert = [] then Err (Errorf ''service certificate chain is required'' [])
      else bindR (serverHelloDigest C U ctx clientEphemeral serverEphemeral) (\<lambda>digest.
      bindR (wrapErr (ErrorfW ''sign server hello: %w'' []) (signDigest C cert digest)) (\<lambda>sig.
      Ok \<lparr>sh_ServiceCertChain = cloneChain (tc_Certificate cert), sh_EphemeralPublicKey = serverEphemeral, sh_Signature = sig\<rparr>)))"

definition VerifyServerHello ::
    "crypto_lib \<Rightarrow> uuid_lib \<Rightarrow> Context \<Rightarrow> E2EServerHello \<Rightarrow> cert_pool option \<Rightarrow> bytes \<Rightarrow> x509_cert res" where
  "VerifyServerHello C U ctx hello roots clientEphemeral =
     bindR (VerifyServiceCertificate C (sh_ServiceCertChain hello) roots (cx_Service ctx)) (\<lambda>_.
     bindR (parseLeafCertificate C (sh_ServiceCertChain hello)) (\<lambda>leaf.
     bindR (serverHelloDigest C U ctx clientEphemeral (sh_EphemeralPublicKey hello)) (\<lambda>digest.
     bindR (wrapErr (ErrorfW ''verify server hello signature: %w'' [])
              (verifySignature C (Some leaf) digest (sh_Signature hello))) (\<lambda>_.
     Ok leaf))))"

definition NewClientFinished ::
    "crypto_lib \<Rightarrow> uuid_lib \<Rightarrow> Context \<Rightarrow> tls_cert \<Rightarrow> bytes \<Rightarrow> bytes \<Rightarrow> E2EClientFinished res" where
  "NewClientFinished C U ctx cert clientEphemeral serverEphemeral =
     bindR (clientFinishedDigest C U ctx clientEphemeral serverEphemeral) (\<lambda>digest.
     bindR (wrapErr (ErrorfW ''sign client finished: %w'' []) (signDigest C cert digest)) (\<lambda>sig.
     Ok \<lparr>cf_Signature = sig\<rparr>))"

definition VerifyClientFinished ::
    "crypto_lib \<Rightarrow> uuid_lib \<Rightarrow> Context \<Rightarrow> E2EClientFinished \<Rightarrow> x509_cert option \<Rightarrow> bytes \<Rightarrow> bytes \<Rightarrow> unit res" where
  "VerifyClientFinished C U ctx finished clientLeaf clientEphemeral serverEphemeral =
     bindR (clientFinishedDigest C U ctx clientEphemeral serverEphemeral) (\<lambda>digest.
     wrapErr (ErrorfW ''verify client finished signature: %w'' [])
       (verifySignature C clientLeaf digest (cf_Signature finished)))"

end
