(* ===== verification/Server_E2E.thy ===== *)
theory Server_E2E
  imports E2E_Handshake Quic Server_Policy
begin

text \<open>
  The server's side of the end-to-end handshake (\<^verbatim>\<open>internal/server/e2e.go\<close>): the service
  certificates loaded and verified at start, and \<open>runHandshake\<close> on the stream of a request.
  The callback that prepares the service (it dials the target) is an argument; the connection
  it made is part of the state, so that the caller can close it when a later step fails.
\<close>

record e2eServerRuntime =
  sr_nodeRoots :: cert_pool
  sr_serviceCerts :: "string \<rightharpoonup> tls_cert"

definition isServiceE2EConfigured :: "ServiceConfig \<Rightarrow> bool" where
  "isServiceE2EConfigured svc \<longleftrightarrow> se_Cert (sv_E2E svc) \<noteq> [] \<or> se_Key (sv_E2E svc) \<noteq> []"

definition nul :: char where "nul = char_of (0 :: nat)"

definition serviceE2ECacheKey :: "ServiceConfig \<Rightarrow> string" where
  "serviceE2ECacheKey svc =
     sv_Protocol svc @ [nul] @ sv_Name svc @ [nul] @ se_Cert (sv_E2E svc) @ [nul] @ se_Key (sv_E2E svc)"

text \<open>The loop of \<open>loadServiceCertificates\<close>; the service CA is loaded at the first use.\<close>

definition loadServiceCertificates ::
    "crypto_lib \<Rightarrow> file_lib \<Rightarrow> Config \<Rightarrow> e2eServerRuntime \<Rightarrow> e2eServerRuntime res" where
  "loadServiceCertificates C F cfg rt =
     bindR (foldEach (\<lambda>i svc (serviceRoots, rt).
       if \<not> isServiceE2EConfigured svc then Ok (serviceRoots, rt)
       else bindR (case serviceRoots of Some roots \<Rightarrow> Ok roots
                   | None \<Rightarrow> wrapErr (ErrorfW ''load service identity CA: %w'' [])
                       (LoadCertPool F (si_CA (cfg_ServiceIdentity cfg)))) (\<lambda>roots.
       bindR (wrapErr (ErrorfW ''load services[%d] e2e certificate: %w'' [FD (int i)])
                (LoadServiceCertificate F (sv_E2E svc))) (\<lambda>cert.
       bindR (wrapErr (ErrorfW ''verify services[%d] e2e certificate for service %q: %w'' [FD (int i), FQ (sv_Name svc)])
                (VerifyServiceCertificate C (tc_Certificate cert) (Some roots) (sv_Name svc))) (\<lambda>_.
       Ok (Some roots, rt\<lparr>sr_serviceCerts := (sr_serviceCerts rt)(serviceE2ECacheKey svc \<mapsto> cert)\<rparr>)))))
       0 (cfg_Services cfg) (None, rt)) (\<lambda>(_, rt). Ok rt)"

definition newE2EServerRuntime :: "crypto_lib \<Rightarrow> file_lib \<Rightarrow> Config \<Rightarrow> e2eServerRuntime res" where
  "newE2EServerRuntime C F cfg =
     bindR (wrapErr (ErrorfW ''load node identity CA: %w'' []) (LoadCertPool F (ic_CA (cfg_Identity cfg)))) (\<lambda>roots.
     loadServiceCertificates C F cfg \<lparr>sr_nodeRoots = roots, sr_serviceCerts = Map.empty\<rparr>)"

definition serviceCertificate :: "e2eServerRuntime \<Rightarrow> ServiceConfig \<Rightarrow> tls_cert res" where
  "serviceCertificate rt svc =
     (if se_Cert (sv_E2E svc) = [] \<or> se_Key (sv_E2E svc) = []
      then Err (Errorf ''service %q is not configured for e2e'' [FQ (sv_Name svc)])
      else case sr_serviceCerts rt (serviceE2ECacheKey svc) of
        None \<Rightarrow> Err (Errorf ''service %q e2e certificate is not loaded'' [FQ (sv_Name svc)])
      | Some cert \<Rightarrow> Ok cert)"

record e2eServerHandshakeResult =
  hr_reader :: EncryptedReader
  hr_writer :: EncryptedWriter
  hr_clientID :: string

text \<open>The context the server binds: the full route of the request, not what is left of it.\<close>

definition serverContext :: "ConnectRequest \<Rightarrow> Context" where
  "serverContext req =
     (let transcriptRoute = (if rq_E2ERoute req = [] then rq_Route req else rq_E2ERoute req) in
      \<lparr>cx_RequestID = rq_RequestID req, cx_Service = rq_Service req, cx_Egress = rq_Egress req,
       cx_Route = transcriptRoute\<rparr>)"

text \<open>The last steps of both sides: the keys, and a reader and a writer on the stream.\<close>

definition serverKeys ::
    "crypto_lib \<Rightarrow> uuid_lib \<Rightarrow> Context \<Rightarrow> bytes option \<Rightarrow> bytes \<Rightarrow> bytes \<Rightarrow> qstream \<Rightarrow>
     (EncryptedReader \<times> EncryptedWriter) res" where
  "serverKeys C U ctx private clientEphemeral serverEphemeral st =
     bindR (phase ''derive_shared_secret'' (SharedSecret C private clientEphemeral)) (\<lambda>sharedSecret.
     bindR (phase ''hash_transcript'' (TranscriptHash C U ctx clientEphemeral serverEphemeral)) (\<lambda>transcriptHash.
     bindR (phase ''derive_traffic_keys'' (DeriveTrafficKeys C sharedSecret transcriptHash)) (\<lambda>keys.
     bindR (phase ''create_encrypted_reader''
              (NewEncryptedReader (Some (qs_in st)) (tk_ClientToServer keys) transcriptHash)) (\<lambda>reader.
     bindR (phase ''create_encrypted_writer''
              (NewEncryptedWriter (Some (qs_out st)) (tk_ServerToClient keys) transcriptHash)) (\<lambda>writer.
     Ok (reader, writer))))))"

definition serverRunHandshake ::
    "crypto_lib \<Rightarrow> uuid_lib \<Rightarrow> e2eServerRuntime option \<Rightarrow> ConnectRequest \<Rightarrow> ServiceConfig \<Rightarrow> bytes res \<Rightarrow>
     (string \<Rightarrow> 'c res) \<Rightarrow> qstream \<Rightarrow> e2eServerHandshakeResult res \<times> qstream \<times> 'c option" where
  "serverRunHandshake C U rto req svc drawn prepare st =
     (case rto of None \<Rightarrow> (Err (Errorf ''e2e runtime is not initialized'' []), st, None) | Some rt \<Rightarrow>
      pureThen (phase ''load_service_certificate'' (serviceCertificate rt svc)) (st, None) (\<lambda>serviceCert.
      let handshakeCtx = serverContext req;
          (hello, st) = onIn ReadE2EClientHello st in
      pureThen (phase ''read_client_hello'' (wrapErr (ErrorfW ''read e2e client hello: %w'' []) hello)) (st, None) (\<lambda>clientHello.
      pureThen (phase ''verify_client_hello'' (VerifyClientHello C U handshakeCtx clientHello (Some (sr_nodeRoots rt))))
        (st, None) (\<lambda>(clientID, clientLeaf).
      pureThen (phase ''authorize_client'' (authorizeServicePeer svc clientID (rq_Protocol req) (rq_Service req)))
        (st, None) (\<lambda>_.
      pureThen (phase ''prepare_service'' (prepare clientID)) (st, None) (\<lambda>target.
      pureThen (phase ''generate_server_ephemeral'' (GenerateEphemeralKey C drawn)) (st, Some target) (\<lambda>serverEphemeral.
      pureThen (phase ''sign_server_hello''
          (NewServerHello C U handshakeCtx serviceCert (ch_EphemeralPublicKey clientHello) (kp_Public serverEphemeral)))
        (st, Some target) (\<lambda>serverHello.
      let (wrote, st) = onOut (\<lambda>w. WriteE2EServerHello w serverHello) st in
      pureThen (phase ''write_server_hello'' (wrapErr (ErrorfW ''write e2e server hello: %w'' []) wrote)) (st, Some target) (\<lambda>_.
      let (fin, st) = onIn ReadE2EClientFinished st in
      pureThen (phase ''read_client_finished'' (wrapErr (ErrorfW ''read e2e client finished: %w'' []) fin)) (st, Some target) (\<lambda>finished.
      pureThen (phase ''verify_client_finished''
          (VerifyClientFinished C U handshakeCtx finished (Some clientLeaf) (ch_EphemeralPublicKey clientHello)
             (sh_EphemeralPublicKey serverHello))) (st, Some target) (\<lambda>_.
      pureThen (serverKeys C U handshakeCtx (kp_Private serverEphemeral) (ch_EphemeralPublicKey clientHello)
          (sh_EphemeralPublicKey serverHello) st) (st, Some target) (\<lambda>(reader, writer).
      (Ok \<lparr>hr_reader = reader, hr_writer = writer, hr_clientID = clientID\<rparr>, st, Some target)))))))))))))"

text \<open>\<open>writeE2ECloseConnectError\<close>: the error as an \<open>E2EClose\<close> frame; \<open>errText\<close> is \<open>err.Error()\<close>.\<close>

definition writeE2ECloseConnectError ::
    "(go_error \<Rightarrow> string) \<Rightarrow> ConnectCode \<Rightarrow> go_error \<Rightarrow> qstream \<Rightarrow> unit res \<times> qstream" where
  "writeE2ECloseConnectError errText code err st =
     onOut (\<lambda>w. WriteE2EClose w \<lparr>ec_Code = CloseCodeError, ec_ConnectCode = code, ec_Message = errText err\<rparr>) st"

definition writeE2ECloseError :: "(go_error \<Rightarrow> string) \<Rightarrow> go_error \<Rightarrow> qstream \<Rightarrow> unit res \<times> qstream" where
  "writeE2ECloseError errText err st = writeE2ECloseConnectError errText ConnectCodeInternalError err st"

end
