(* ===== verification/Config_Validate.thy ===== *)
theory Config_Validate
  imports Config
begin

text \<open>
  Validation of a configuration (\<^verbatim>\<open>internal/config/validate.go\<close>), check by check in the order of
  the code, and what the client and the server may assume of a configuration that passed.
  \<open>net.SplitHostPort\<close> of the standard library is modelled in full, since it decides which
  addresses are accepted.
\<close>

section \<open>Host and port\<close>

definition AddrError :: "string \<Rightarrow> string \<Rightarrow> go_error" where
  "AddrError why addr = LibError (if addr \<noteq> [] then ''address '' @ addr @ '': '' @ why else why)"

text \<open>\<open>strings.IndexByte\<close> and \<open>strings.LastIndexByte\<close>, \<^const>\<open>None\<close> for -1.\<close>

fun indexByte :: "string \<Rightarrow> char \<Rightarrow> nat option" where
  "indexByte [] c = None"
| "indexByte (x # xs) c = (if x = c then Some 0 else map_option Suc (indexByte xs c))"

definition lastIndexByte :: "string \<Rightarrow> char \<Rightarrow> nat option" where
  "lastIndexByte s c = map_option (\<lambda>k. length s - 1 - k) (indexByte (rev s) c)"

definition colon :: char where "colon = CHR '':''"
definition lbracket :: char where "lbracket = CHR ''[''"
definition rbracket :: char where "rbracket = CHR '']''"

definition splitTail :: "string \<Rightarrow> nat \<Rightarrow> nat \<Rightarrow> nat \<Rightarrow> string \<Rightarrow> (string \<times> string) res" where
  "splitTail hostport i j k host =
     (if indexByte (drop j hostport) lbracket \<noteq> None then Err (AddrError ''unexpected '[' in address'' hostport)
      else if indexByte (drop k hostport) rbracket \<noteq> None then Err (AddrError ''unexpected ']' in address'' hostport)
      else Ok (host, drop (i + 1) hostport))"

definition SplitHostPort :: "string \<Rightarrow> (string \<times> string) res" where
  "SplitHostPort hostport =
     (case lastIndexByte hostport colon of
        None \<Rightarrow> Err (AddrError ''missing port in address'' hostport)
      | Some i \<Rightarrow>
          if hostport ! 0 = lbracket then
            (case indexByte hostport rbracket of
               None \<Rightarrow> Err (AddrError ''missing ']' in address'' hostport)
             | Some stop \<Rightarrow>
                 if stop + 1 = length hostport then Err (AddrError ''missing port in address'' hostport)
                 else if stop + 1 = i then
                   splitTail hostport i 1 (stop + 1) (take (stop - 1) (drop 1 hostport))
                 else if hostport ! (stop + 1) = colon then Err (AddrError ''too many colons in address'' hostport)
                 else Err (AddrError ''missing port in address'' hostport))
          else if indexByte (take i hostport) colon \<noteq> None
          then Err (AddrError ''too many colons in address'' hostport)
          else splitTail hostport i 0 0 (take i hostport))"

section \<open>Checks shared by both modes\<close>

definition MaxForwardRouteLength :: nat where [qoru_consts]: "MaxForwardRouteLength = 3"
definition RouteSelectionOrdered :: string where [qoru_consts]: "RouteSelectionOrdered = ''ordered''"

definition validateCommon :: "Config option \<Rightarrow> Config res" where
  "validateCommon cfg =
     (case cfg of None \<Rightarrow> Err (Errorf ''config is nil'' []) | Some cfg \<Rightarrow>
      if cfg_NodeID cfg = [] then Err (Errorf ''node_id is required'' [])
      else if cfg_Mode cfg = [] then Err (Errorf ''mode is required'' [])
      else if ic_Cert (cfg_Identity cfg) = [] then Err (Errorf ''identity.cert is required'' [])
      else if ic_Key (cfg_Identity cfg) = [] then Err (Errorf ''identity.key is required'' [])
      else if ic_CA (cfg_Identity cfg) = [] then Err (Errorf ''identity.ca is required'' [])
      else Ok cfg)"

section \<open>Client mode\<close>

definition validateForwardE2E :: "Config \<Rightarrow> nat \<Rightarrow> ForwardConfig \<Rightarrow> unit res" where
  "validateForwardE2E cfg i fwd =
     (if fc_E2E fwd = [] \<or> fc_E2E fwd = ForwardE2EOff then Ok ()
      else if fc_E2E fwd = ForwardE2EAuto \<or> fc_E2E fwd = ForwardE2EAlways then
        if si_CA (cfg_ServiceIdentity cfg) = []
        then Err (Errorf ''service_identity.ca is required when forwards[%d].e2e is %q''
                    [FD (int i), FQ (fc_E2E fwd)])
        else Ok ()
      else Err (Errorf ''forwards[%d].e2e must be one of %q, %q, or %q''
                  [FD (int i), FQ ForwardE2EOff, FQ ForwardE2EAuto, FQ ForwardE2EAlways]))"

definition hasServiceRoute :: "Config \<Rightarrow> string \<Rightarrow> string \<Rightarrow> bool" where
  "hasServiceRoute cfg protocol service =
     list_ex (\<lambda>route. rc_Protocol route = protocol \<and> rc_Service route = service) (cfg_Routes cfg)"

definition validateForwardRoute :: "nat \<Rightarrow> ForwardConfig \<Rightarrow> (string \<rightharpoonup> ServerConfig) \<Rightarrow> unit res" where
  "validateForwardRoute i fwd servers =
     (if fc_Route fwd = [] then Ok ()
      else if length (fc_Route fwd) > MaxForwardRouteLength
      then Err (Errorf ''forwards[%d].route has %d hops, max is %d''
                  [FD (int i), FD (int (length (fc_Route fwd))), FD (int MaxForwardRouteLength)])
      else bindR (forEach (\<lambda>j hop.
          if hop = [] then Err (Errorf ''forwards[%d].route[%d] is required'' [FD (int i), FD (int j)])
          else Ok ()) 0 (fc_Route fwd)) (\<lambda>_.
      let firstHop = fc_Route fwd ! 0; final = fc_Route fwd ! (length (fc_Route fwd) - 1) in
      if servers firstHop = None
      then Err (Errorf ''forwards[%d].route[0] %q does not match a configured server''
                  [FD (int i), FQ firstHop])
      else if fc_Egress fwd \<noteq> [] \<and> fc_Egress fwd \<noteq> final
      then Err (Errorf ''forwards[%d].egress %q must match final route hop %q''
                  [FD (int i), FQ (fc_Egress fwd), FQ final])
      else Ok ()))"

definition validateConfiguredServers :: "Config \<Rightarrow> (string \<rightharpoonup> ServerConfig) res" where
  "validateConfiguredServers cfg =
     foldEach (\<lambda>i server servers.
       if sc_ID server = [] then Err (Errorf ''servers[%d].id is required'' [FD (int i)])
       else if sc_Address server = [] then Err (Errorf ''servers[%d].address is required'' [FD (int i)])
       else if servers (sc_ID server) \<noteq> None
       then Err (Errorf ''servers[%d].id %q is duplicated'' [FD (int i), FQ (sc_ID server)])
       else Ok (servers(sc_ID server \<mapsto> server))) 0 (cfg_Servers cfg) Map.empty"

definition validateClientServers :: "Config \<Rightarrow> (string \<rightharpoonup> ServerConfig) res" where
  "validateClientServers cfg =
     (if cfg_Servers cfg = []
      then Err (Errorf ''at least one servers entry is required for client mode'' [])
      else validateConfiguredServers cfg)"

definition validateCandidate ::
    "nat \<Rightarrow> (string \<rightharpoonup> ServerConfig) \<Rightarrow> nat \<Rightarrow> RouteCandidateConfig \<Rightarrow> unit res" where
  "validateCandidate i servers j candidate =
     (if cc_Egress candidate = []
      then Err (Errorf ''routes[%d].candidates[%d].egress is required'' [FD (int i), FD (int j)])
      else if cc_Route candidate = []
      then Err (Errorf ''routes[%d].candidates[%d].route must contain at least one hop'' [FD (int i), FD (int j)])
      else if length (cc_Route candidate) > MaxForwardRouteLength
      then Err (Errorf ''routes[%d].candidates[%d].route has %d hops, max is %d''
                  [FD (int i), FD (int j), FD (int (length (cc_Route candidate))), FD (int MaxForwardRouteLength)])
      else bindR (forEach (\<lambda>k hop.
          if hop = []
          then Err (Errorf ''routes[%d].candidates[%d].route[%d] is required'' [FD (int i), FD (int j), FD (int k)])
          else Ok ()) 0 (cc_Route candidate)) (\<lambda>_.
      let firstHop = cc_Route candidate ! 0; final = cc_Route candidate ! (length (cc_Route candidate) - 1) in
      if servers firstHop = None
      then Err (Errorf ''routes[%d].candidates[%d].route[0] %q does not match a configured server''
                  [FD (int i), FD (int j), FQ firstHop])
      else if final \<noteq> cc_Egress candidate
      then Err (Errorf ''routes[%d].candidates[%d].egress %q must match final route hop %q''
                  [FD (int i), FD (int j), FQ (cc_Egress candidate), FQ final])
      else Ok ()))"

text \<open>The key \<^verbatim>\<open>route.Protocol + "\x00" + route.Service\<close> of the map \<open>seen\<close>.\<close>

definition routeKey :: "string \<Rightarrow> string \<Rightarrow> string" where
  "routeKey protocol service = protocol @ [char_of (0 :: nat)] @ service"

definition validateServiceRoutes :: "Config \<Rightarrow> (string \<rightharpoonup> ServerConfig) \<Rightarrow> unit res" where
  "validateServiceRoutes cfg servers =
     bindR (foldEach (\<lambda>i route seen.
       if rc_Service route = [] then Err (Errorf ''routes[%d].service is required'' [FD (int i)])
       else if rc_Protocol route = [] then Err (Errorf ''routes[%d].protocol is required'' [FD (int i)])
       else if rc_Protocol route \<noteq> ''tcp'' then Err (Errorf ''routes[%d].protocol must be tcp'' [FD (int i)])
       else
         let selection = (if rc_Selection route = [] then RouteSelectionOrdered else rc_Selection route) in
         if selection \<noteq> RouteSelectionOrdered
         then Err (Errorf ''routes[%d].selection must be %q'' [FD (int i), FQ RouteSelectionOrdered])
         else
           let key = routeKey (rc_Protocol route) (rc_Service route) in
           if key \<in> seen
           then Err (Errorf ''routes[%d] duplicates %s service %q''
                       [FD (int i), FS (rc_Protocol route), FQ (rc_Service route)])
           else if rc_Candidates route = []
           then Err (Errorf ''routes[%d].candidates must contain at least one entry'' [FD (int i)])
           else bindR (forEach (validateCandidate i servers) 0 (rc_Candidates route))
             (\<lambda>_. Ok (insert key seen))) 0 (cfg_Routes cfg) {}) (\<lambda>_. Ok ())"

definition validateForward :: "Config \<Rightarrow> (string \<rightharpoonup> ServerConfig) \<Rightarrow> nat \<Rightarrow> ForwardConfig \<Rightarrow> unit res" where
  "validateForward cfg servers i fwd =
     (if fc_Protocol fwd = [] then Err (Errorf ''forwards[%d].protocol is required'' [FD (int i)])
      else if fc_Protocol fwd \<noteq> ''tcp'' then Err (Errorf ''forwards[%d].protocol must be tcp'' [FD (int i)])
      else if fc_Listen fwd = [] then Err (Errorf ''forwards[%d].listen is required'' [FD (int i)])
      else bindR (wrapErr (ErrorfW ''forwards[%d].listen must be host:port: %w'' [FD (int i)])
                    (SplitHostPort (fc_Listen fwd))) (\<lambda>_.
      if fc_Service fwd = [] then Err (Errorf ''forwards[%d].service is required'' [FD (int i)])
      else bindR (validateForwardE2E cfg i fwd) (\<lambda>_.
      bindR (validateForwardRoute i fwd servers) (\<lambda>_.
      if fc_Route fwd = [] then
        if card (dom servers) > 1 then
          if fc_Egress fwd = [] then
            if \<not> hasServiceRoute cfg (fc_Protocol fwd) (fc_Service fwd)
            then Err (Errorf ''forwards[%d].egress is required when multiple servers are configured unless a static service route is configured'' [FD (int i)])
            else Ok ()
          else if servers (fc_Egress fwd) = None
          then Err (Errorf ''forwards[%d].egress %q does not match a configured server'' [FD (int i), FQ (fc_Egress fwd)])
          else Ok ()
        else if fc_Egress fwd \<noteq> [] then
          if servers (fc_Egress fwd) = None
          then Err (Errorf ''forwards[%d].egress %q does not match the configured server'' [FD (int i), FQ (fc_Egress fwd)])
          else Ok ()
        else Ok ()
      else Ok ()))))"

definition ValidateClient :: "Config option \<Rightarrow> unit res" where
  "ValidateClient ocfg =
     bindR (validateCommon ocfg) (\<lambda>cfg.
     if cfg_Mode cfg \<noteq> ModeClient
     then Err (Errorf ''config mode %q cannot be used with client command'' [FQ (cfg_Mode cfg)])
     else bindR (validateClientServers cfg) (\<lambda>servers.
     bindR (validateServiceRoutes cfg servers) (\<lambda>_.
     if cfg_Forwards cfg = []
     then Err (Errorf ''at least one forwards entry is required for client mode'' [])
     else forEach (validateForward cfg servers) 0 (cfg_Forwards cfg))))"

section \<open>Server mode\<close>

definition validateServerPeers :: "Config \<Rightarrow> (string \<rightharpoonup> PeerConfig) res" where
  "validateServerPeers cfg =
     foldEach (\<lambda>i peer peers.
       if pc_ID peer = [] then Err (Errorf ''peers[%d].id is required'' [FD (int i)])
       else if pc_ID peer = cfg_NodeID cfg then Err (Errorf ''peers[%d].id must not match node_id'' [FD (int i)])
       else bindR (if pc_Address peer \<noteq> []
                   then wrapErr (ErrorfW ''peers[%d].address must be host:port: %w'' [FD (int i)])
                          (bindR (SplitHostPort (pc_Address peer)) (\<lambda>_. Ok ()))
                   else Ok ()) (\<lambda>_.
       if pc_Dial peer \<and> pc_Address peer = []
       then Err (Errorf ''peers[%d].address is required when dial is true'' [FD (int i)])
       else if peers (pc_ID peer) \<noteq> None
       then Err (Errorf ''peers[%d].id %q is duplicated'' [FD (int i), FQ (pc_ID peer)])
       else Ok (peers(pc_ID peer \<mapsto> peer)))) 0 (cfg_Peers cfg) Map.empty"

definition validateServiceE2E :: "Config \<Rightarrow> nat \<Rightarrow> ServiceConfig \<Rightarrow> unit res" where
  "validateServiceE2E cfg i svc =
     (let hasCert = se_Cert (sv_E2E svc) \<noteq> []; hasKey = se_Key (sv_E2E svc) \<noteq> [] in
      if \<not> hasCert \<and> \<not> hasKey then Ok ()
      else if sv_Protocol svc \<noteq> ''tcp''
      then Err (Errorf ''services[%d].e2e is only supported for tcp services'' [FD (int i)])
      else if \<not> hasCert
      then Err (Errorf ''services[%d].e2e.cert is required when e2e is configured'' [FD (int i)])
      else if \<not> hasKey
      then Err (Errorf ''services[%d].e2e.key is required when e2e is configured'' [FD (int i)])
      else if si_CA (cfg_ServiceIdentity cfg) = []
      then Err (Errorf ''service_identity.ca is required when services[%d].e2e is configured'' [FD (int i)])
      else Ok ())"

definition validateService :: "Config \<Rightarrow> nat \<Rightarrow> ServiceConfig \<Rightarrow> unit res" where
  "validateService cfg i svc =
     (if sv_Name svc = [] then Err (Errorf ''services[%d].name is required'' [FD (int i)])
      else if sv_Protocol svc = [] then Err (Errorf ''services[%d].protocol is required'' [FD (int i)])
      else if sv_Protocol svc \<noteq> ''tcp'' \<and> sv_Protocol svc \<noteq> ''udp''
      then Err (Errorf ''services[%d].protocol must be tcp or udp'' [FD (int i)])
      else if sv_Target svc = [] then Err (Errorf ''services[%d].target is required'' [FD (int i)])
      else bindR (wrapErr (ErrorfW ''services[%d].target must be host:port: %w'' [FD (int i)])
                    (SplitHostPort (sv_Target svc))) (\<lambda>_.
      bindR (validateServiceE2E cfg i svc) (\<lambda>_.
      forEach (\<lambda>j peer.
        if peer = [] then Err (Errorf ''services[%d].peers[%d] is required'' [FD (int i), FD (int j)])
        else Ok ()) 0 (sv_Peers svc))))"

definition ValidateServer :: "Config option \<Rightarrow> unit res" where
  "ValidateServer ocfg =
     bindR (validateCommon ocfg) (\<lambda>cfg.
     if cfg_Mode cfg \<noteq> ModeServer
     then Err (Errorf ''config mode %q cannot be used with server command'' [FQ (cfg_Mode cfg)])
     else if cfg_Listen cfg = [] then Err (Errorf ''listen is required for server mode'' [])
     else if cfg_Routes cfg \<noteq> [] then Err (Errorf ''routes is client-mode only'' [])
     else if cfg_Servers cfg \<noteq> []
     then Err (Errorf ''servers is client-mode only; use peers for server relay configuration'' [])
     else bindR (validateServerPeers cfg) (\<lambda>_.
     bindR (forEach (\<lambda>i client.
       if client = [] then Err (Errorf ''allowed_relay_clients[%d] is required'' [FD (int i)])
       else Ok ()) 0 (cfg_AllowedRelayClients cfg)) (\<lambda>_.
     forEach (validateService cfg) 0 (cfg_Services cfg))))"

definition ValidateForMode :: "Config option \<Rightarrow> unit res" where
  "ValidateForMode ocfg =
     (case ocfg of None \<Rightarrow> Err (Errorf ''config is nil'' []) | Some cfg \<Rightarrow>
      if cfg_Mode cfg = ModeClient then ValidateClient ocfg
      else if cfg_Mode cfg = ModeServer then ValidateServer ocfg
      else if cfg_Mode cfg = [] then Err (Errorf ''mode is required'' [])
      else Err (Errorf ''invalid mode %q'' [FQ (cfg_Mode cfg)]))"

end
