(* ===== verification/Server_Connection.thy ===== *)
theory Server_Connection
  imports Server_Peers Server_E2E Config_Validate
begin

text \<open>
  The server's stream handlers (\<^verbatim>\<open>internal/server/connection.go\<close>, \<^verbatim>\<open>dial.go\<close>): a request is read,
  checked, and then relayed to the next hop, handed to the end-to-end handshake, or connected
  to its target. A handler is modelled up to the point where it starts proxying bytes (the
  value \<open>handler_end\<close> says between what) or returns; what remains after proxying is closing.
  Logging is left out. \<open>errText\<close> stands for \<open>err.Error()\<close> in the messages sent to the peer.
\<close>

type_synonym net_conn = nat

record server_lib =
  sl_C :: crypto_lib
  sl_U :: uuid_lib
  sl_F :: file_lib
  sl_errText :: "go_error \<Rightarrow> string"
  sl_dial :: "string \<Rightarrow> net_conn res"
  sl_drawn :: "bytes res"
  sl_E1 :: dial_env
  sl_E2 :: dial_env
  sl_openSync :: "conn \<Rightarrow> qstream res"

record serverRuntime =
  rt_cfg :: Config
  rt_peers :: "peerSessions option"
  rt_e2e :: "e2eServerRuntime option"

datatype handler_end =
    HandlerClosed
  | HandlerPanic
  | ProxyPlain net_conn
  | ProxyEncrypted e2eServerHandshakeResult net_conn
  | ProxyRelay

section \<open>Helpers\<close>

definition dialTCP :: "server_lib \<Rightarrow> string \<Rightarrow> net_conn res" where
  "dialTCP L target =
     bindR (wrapErr (ErrorfW ''invalid target address %q: %w'' [FQ target]) (SplitHostPort target)) (\<lambda>_.
     sl_dial L target)"

definition validateConnectRoute :: "string \<Rightarrow> string list \<Rightarrow> string \<Rightarrow> unit res" where
  "validateConnectRoute nodeID route egress =
     (if route = [] then Ok ()
      else if route ! 0 \<noteq> nodeID
      then Err (Errorf ''route first hop %q does not match this node %q'' [FQ (route ! 0), FQ nodeID])
      else if egress \<noteq> [] \<and> egress \<noteq> route ! (length route - 1)
      then Err (Errorf ''egress %q must match final route hop %q'' [FQ egress, FQ (route ! (length route - 1))])
      else Ok ())"

definition serviceErrorCode :: "go_error \<Rightarrow> ConnectCode" where
  "serviceErrorCode err =
     (if errorsIs err ErrServiceNotFound then ConnectCodeServiceNotFound
      else if errorsIs err ErrAccessDenied then ConnectCodeAccessDenied
      else ConnectCodeInternalError)"

fun asE2EConnect :: "go_error \<Rightarrow> ConnectCode option" where
  "asE2EConnect (ErrE2EConnect code e) = Some code"
| "asE2EConnect _ = None"

definition e2eConnectErrorCode :: "go_error \<Rightarrow> ConnectCode" where
  "e2eConnectErrorCode err =
     (case errorsAs asE2EConnect err of Some code \<Rightarrow> code | None \<Rightarrow> serviceErrorCode err)"

text \<open>
  The answer of every refusal: the error response, its outcome ignored, and \<open>stream.Close()\<close>.
\<close>

definition rejectStream :: "server_lib \<Rightarrow> ConnectCode \<Rightarrow> go_error \<Rightarrow> qstream \<Rightarrow> qstream" where
  "rejectStream L code err st =
     closeStream (snd (onOut (\<lambda>w. WriteConnectResponse w
       \<lparr>rs_OK = False, rs_Code = code, rs_Message = sl_errText L err\<rparr>) st))"

definition okResponse :: ConnectResponse where
  "okResponse = \<lparr>rs_OK = True, rs_Code = ConnectCodeOK, rs_Message = []\<rparr>"

section \<open>Services\<close>

definition handlePlaintextServiceStream ::
    "server_lib \<Rightarrow> ServiceConfig \<Rightarrow> qstream \<Rightarrow> handler_end \<times> qstream" where
  "handlePlaintextServiceStream L svc st =
     (case dialTCP L (sv_Target svc) of
        Err e \<Rightarrow> (HandlerClosed, rejectStream L ConnectCodeTargetDialFailed e st)
      | Panic \<Rightarrow> (HandlerPanic, st)
      | Ok targetConn \<Rightarrow>
          (case onOut (\<lambda>w. WriteConnectResponse w okResponse) st of
             (Err e, st) \<Rightarrow> (HandlerClosed, closeStream st)
           | (Panic, st) \<Rightarrow> (HandlerPanic, st)
           | (Ok _, st) \<Rightarrow> (ProxyPlain targetConn, st)))"

definition handleE2EStream ::
    "server_lib \<Rightarrow> serverRuntime \<Rightarrow> ConnectRequest \<Rightarrow> qstream \<Rightarrow> handler_end \<times> qstream" where
  "handleE2EStream L rt req st =
     (case findService (rt_cfg rt) (rq_Protocol req) (rq_Service req) of
        Err e \<Rightarrow> (HandlerClosed, rejectStream L (serviceErrorCode e) e st)
      | Panic \<Rightarrow> (HandlerPanic, st)
      | Ok svc \<Rightarrow>
          if \<not> isServiceE2EConfigured svc
          then (HandlerClosed, rejectStream L ConnectCodeAccessDenied
                  (Errorf ''service %q is not configured for e2e'' [FQ (rq_Service req)]) st)
          else case onOut (\<lambda>w. WriteConnectResponse w okResponse) st of
            (Err e, st) \<Rightarrow> (HandlerClosed, closeStream st)
          | (Panic, st) \<Rightarrow> (HandlerPanic, st)
          | (Ok _, st) \<Rightarrow>
              (case serverRunHandshake (sl_C L) (sl_U L) (rt_e2e rt) req svc (sl_drawn L)
                      (\<lambda>clientID. wrapErr (ErrE2EConnect ConnectCodeTargetDialFailed) (dialTCP L (sv_Target svc))) st of
                 (Err e, st, _) \<Rightarrow>
                   (HandlerClosed,
                    closeStream (snd (writeE2ECloseConnectError (sl_errText L) (e2eConnectErrorCode e) e st)))
               | (Panic, st, _) \<Rightarrow> (HandlerPanic, st)
               | (Ok handshake, st, target) \<Rightarrow>
                   (case target of
                      None \<Rightarrow> (HandlerPanic, st)
                    | Some targetConn \<Rightarrow> (ProxyEncrypted handshake targetConn, st))))"

section \<open>Relaying\<close>

text \<open>The request as it is passed on: this node is taken off the route.\<close>

definition forwardRequest :: "ConnectRequest \<Rightarrow> ConnectRequest" where
  "forwardRequest req = req\<lparr>rq_Route := drop 1 (rq_Route req)\<rparr>"

text \<open>
  The conversation of a relay with the next hop, once the outbound stream is open: the result
  for the inbound stream, and the outbound stream.
\<close>

definition relayConversation ::
    "server_lib \<Rightarrow> ConnectRequest \<Rightarrow> qstream \<Rightarrow> qstream \<Rightarrow> handler_end \<times> qstream \<times> qstream" where
  "relayConversation L req inbound outbound =
     (case onOut (\<lambda>w. WriteConnectRequest (sl_U L) w (forwardRequest req)) outbound of
        (Err e, outbound) \<Rightarrow> (HandlerClosed, rejectStream L ConnectCodeNextHopUnreachable e inbound, closeStream outbound)
      | (Panic, outbound) \<Rightarrow> (HandlerPanic, inbound, outbound)
      | (Ok _, outbound) \<Rightarrow>
          (case onIn ReadConnectResponse outbound of
             (Err e, outbound) \<Rightarrow>
               (HandlerClosed, rejectStream L ConnectCodeNextHopUnreachable e inbound, closeStream outbound)
           | (Panic, outbound) \<Rightarrow> (HandlerPanic, inbound, outbound)
           | (Ok resp, outbound) \<Rightarrow>
               (case onOut (\<lambda>w. WriteConnectResponse w resp) inbound of
                  (Err e, inbound) \<Rightarrow> (HandlerClosed, closeStream inbound, closeStream outbound)
                | (Panic, inbound) \<Rightarrow> (HandlerPanic, inbound, outbound)
                | (Ok _, inbound) \<Rightarrow>
                    if \<not> rs_OK resp then (HandlerClosed, closeStream inbound, closeStream outbound)
                    else (ProxyRelay, inbound, outbound))))"

definition handleRelayStream ::
    "server_lib \<Rightarrow> serverRuntime \<Rightarrow> ConnectRequest \<Rightarrow> qstream \<Rightarrow>
     handler_end \<times> qstream \<times> qstream option \<times> serverRuntime" where
  "handleRelayStream L rt req inbound =
     (let nextHop = rq_Route req ! 1 in
      case rt_peers rt of
        None \<Rightarrow> (HandlerClosed, rejectStream L ConnectCodeInternalError
                   (Errorf ''peer sessions are not initialized'' []) inbound, None, rt)
      | Some peers \<Rightarrow>
          (case OpenStream (sl_C L) (sl_F L) (sl_E1 L) (sl_E2 L) (sl_openSync L) nextHop peers of
             (Err e, peers) \<Rightarrow>
               (HandlerClosed, rejectStream L ConnectCodeNextHopUnreachable e inbound, None, rt\<lparr>rt_peers := Some peers\<rparr>)
           | (Panic, peers) \<Rightarrow> (HandlerPanic, inbound, None, rt\<lparr>rt_peers := Some peers\<rparr>)
           | (Ok outbound, peers) \<Rightarrow>
               (case relayConversation L req inbound outbound of (fin, inbound, outbound) \<Rightarrow>
                  (fin, inbound, Some outbound, rt\<lparr>rt_peers := Some peers\<rparr>))))"

section \<open>The dispatcher\<close>

text \<open>What the checks of \<open>handleStream\<close> decide before any work is done for the request.\<close>

datatype stream_action =
    Refuse ConnectCode go_error
  | Relay
  | ServeE2E
  | ServePlain ServiceConfig

definition streamAction :: "Config \<Rightarrow> string \<Rightarrow> ConnectRequest \<Rightarrow> stream_action" where
  "streamAction cfg peerID req =
     (if rq_Protocol req \<noteq> ''tcp''
      then Refuse ConnectCodeUnsupportedProtocol (Errorf ''unsupported connect protocol %q'' [FQ (rq_Protocol req)])
      else case validateConnectRoute (cfg_NodeID cfg) (rq_Route req) (rq_Egress req) of
        Err e \<Rightarrow> Refuse ConnectCodeRouteInvalid e
      | _ \<Rightarrow>
      if length (rq_Route req) > 1 then
        (case authorizeRelayIngress cfg peerID of
           Err e \<Rightarrow> Refuse ConnectCodeAccessDenied e
         | _ \<Rightarrow> Relay)
      else case (if length (rq_Route req) = 1 then requireConfiguredPeer cfg peerID else Ok ()) of
        Err e \<Rightarrow> Refuse ConnectCodeAccessDenied e
      | _ \<Rightarrow>
      if rq_Egress req \<noteq> [] \<and> rq_Egress req \<noteq> cfg_NodeID cfg
      then Refuse ConnectCodeUnreachableEgress
             (Errorf ''egress %q is not reachable from one-hop server %q'' [FQ (rq_Egress req), FQ (cfg_NodeID cfg)])
      else if rq_E2ERequired req then ServeE2E
      else case resolveService cfg peerID (rq_Protocol req) (rq_Service req) of
        Err e \<Rightarrow> Refuse (serviceErrorCode e) e
      | Panic \<Rightarrow> Refuse ConnectCodeInternalError (Errorf ''unreachable'' [])
      | Ok svc \<Rightarrow>
          if isServiceE2EConfigured svc \<and> length (rq_Route req) > 0
          then Refuse ConnectCodeAccessDenied (Errorf ''routed service %q requires e2e'' [FQ (rq_Service req)])
          else ServePlain svc)"

definition handleStream ::
    "server_lib \<Rightarrow> serverRuntime \<Rightarrow> string \<Rightarrow> qstream \<Rightarrow>
     handler_end \<times> qstream \<times> qstream option \<times> serverRuntime" where
  "handleStream L rt peerID st =
     (case onIn (ReadConnectRequest (sl_U L)) st of
        (Err e, st) \<Rightarrow> (HandlerClosed, closeStream st, None, rt)
      | (Panic, st) \<Rightarrow> (HandlerPanic, st, None, rt)
      | (Ok req, st) \<Rightarrow>
          (case streamAction (rt_cfg rt) peerID req of
             Refuse code e \<Rightarrow> (HandlerClosed, rejectStream L code e st, None, rt)
           | Relay \<Rightarrow> handleRelayStream L rt req st
           | ServeE2E \<Rightarrow> (case handleE2EStream L rt req st of (fin, st) \<Rightarrow> (fin, st, None, rt))
           | ServePlain svc \<Rightarrow> (case handlePlaintextServiceStream L svc st of (fin, st) \<Rightarrow> (fin, st, None, rt))))"

end
