(* ===== verification/E2E_Record_Lemmas.thy ===== *)
theory E2E_Record_Lemmas
  imports E2E_Record
begin

text \<open>
  What the record layer guarantees. The bytes a writer puts on the stream are described by
  \<open>recordsBytes\<close>: the plaintext chunks, sealed in order under consecutive sequence numbers.
  From there: a write returns and emits exactly those bytes, a reader fed with them delivers
  the plaintext through buffers of any size and then end of file, and whatever a reader
  delivers from arbitrary incoming bytes was sealed in that order.
\<close>

section \<open>The bytes of a record\<close>

definition recordNonce :: "64 word \<Rightarrow> bytes" where
  "recordNonce s = replicate 4 0 @ nonceSuffix s"

definition recordOf :: "crypto_lib \<Rightarrow> bytes \<Rightarrow> bytes \<Rightarrow> 64 word \<Rightarrow> bytes \<Rightarrow> E2EData" where
  "recordOf C k th s p =
     \<lparr>ed_NonceSuffix = nonceSuffix s,
      ed_Ciphertext = gcm_Seal C k (recordNonce s) p (recordAAD th (nonceSuffix s))\<rparr>"

definition sealed :: "crypto_lib \<Rightarrow> bytes \<Rightarrow> bytes \<Rightarrow> 64 word \<Rightarrow> bytes \<Rightarrow> bytes" where
  "sealed C k th s p = frameBytes TypeE2EData (dataBytes (recordOf C k th s p))"

fun recordsBytes :: "crypto_lib \<Rightarrow> bytes \<Rightarrow> bytes \<Rightarrow> 64 word \<Rightarrow> bytes list \<Rightarrow> bytes" where
  "recordsBytes C k th s [] = []"
| "recordsBytes C k th s (p # ps) = sealed C k th s p @ recordsBytes C k th (s + 1) ps"

text \<open>The chunks of one \<open>Write\<close>.\<close>

function chunksOf :: "nat \<Rightarrow> bytes \<Rightarrow> bytes list" where
  "chunksOf m p = (if p = [] \<or> m = 0 then [] else take m p # chunksOf m (drop m p))"
  by pat_completeness auto
termination
  by (relation "measure (\<lambda>(m, p). length p)") auto

declare chunksOf.simps [simp del]

lemma concat_chunksOf: "0 < m \<Longrightarrow> concat (chunksOf m p) = p"
  by (induction m p rule: chunksOf.induct) (subst chunksOf.simps, simp)

lemma chunksOf_Nil [simp]: "chunksOf m [] = []"
  by (simp add: chunksOf.simps)

lemma recordsBytes_append:
  "recordsBytes C k th s (ps @ qs) =
   recordsBytes C k th s ps @ recordsBytes C k th (s + of_nat (length ps)) qs"
  by (induction ps arbitrary: s) (simp_all add: add.assoc)

lemma nonceFromSuffix_nonceSuffix [simp]:
  "nonceFromSuffix (nonceSuffix s) gcm_NonceSize = Ok (recordNonce s)"
  by (simp add: nonceFromSuffix_def nonceSuffix_def recordNonce_def gcm_NonceSize_def copyAt_def
      take_replicate min_def)

lemma nonceSuffix_inject [simp]: "nonceSuffix s = nonceSuffix t \<longleftrightarrow> s = t"
  by (auto simp: nonceSuffix_def dest: be64_inject)

lemma recordNonce_inject: "recordNonce s = recordNonce t \<longleftrightarrow> s = t"
  by (simp add: recordNonce_def)

lemma valid_recordOf:
  "gcm_laws C \<Longrightarrow> length p + gcm_Overhead \<le> MaxE2ECiphertextLength \<Longrightarrow> valid_data (recordOf C k th s p)"
  using length_gcm_Seal [of C k "recordNonce s" p "recordAAD th (nonceSuffix s)"]
  by (auto simp: valid_data_def ok_field_def recordOf_def nonceSuffix_def qoru_consts
      simp flip: length_greater_0_conv)

section \<open>The writer\<close>

definition writer_ok :: "EncryptedWriter \<Rightarrow> bool" where
  "writer_ok w \<longleftrightarrow> 0 < ew_maxPlaintext w \<and> ew_maxPlaintext w + gcm_Overhead \<le> MaxE2ECiphertextLength"

lemma NewEncryptedWriter_Ok:
  "NewEncryptedWriter wo k th = Ok w \<Longrightarrow>
   writer_ok w \<and> wo = Some (ew_w w) \<and> ew_key w = k \<and> ew_transcriptHash w = th \<and> th \<noteq> [] \<and>
   ew_seq w = 0 \<and> \<not> ew_closed w"
  by (auto simp: NewEncryptedWriter_def newRecordAEAD_def aes_NewCipher_def writer_ok_def Let_def
      bindR_eq_Ok qoru_consts split: option.splits if_splits)

lemma writeRecordLocked_keeps:
  assumes "writeRecordLocked C w p = (res, w')"
  shows "ew_key w' = ew_key w" "ew_transcriptHash w' = ew_transcriptHash w"
    "ew_maxPlaintext w' = ew_maxPlaintext w" "ew_closed w' = ew_closed w"
  using assms
  by (auto simp: writeRecordLocked_def Let_def split: if_splits prod.splits res.splits)

lemma writeRecordLocked_ne_Panic: "fst (writeRecordLocked C w p) \<noteq> Panic"
  using e2eData.write_total [of "ew_w w"]
  by (auto simp: writeRecordLocked_def Let_def split: prod.splits res.splits) (metis fst_conv)

lemma writeRecordLocked_reliable:
  assumes "gcm_laws C" "reliable (ew_w w)" "ew_seq w \<noteq> - 1"
    "length p + gcm_Overhead \<le> MaxE2ECiphertextLength"
  shows "writeRecordLocked C w p =
    (Ok (), w\<lparr>ew_w := (ew_w w)\<lparr>os_data := os_data (ew_w w) @
               sealed C (ew_key w) (ew_transcriptHash w) (ew_seq w) p\<rparr>, ew_seq := ew_seq w + 1\<rparr>)"
proof -
  let ?d = "recordOf C (ew_key w) (ew_transcriptHash w) (ew_seq w) p"
  have v: "valid_data ?d"
    using assms by (simp add: valid_recordOf)
  have "WriteE2EData (ew_w w) ?d =
      (Ok (), (ew_w w)\<lparr>os_data := os_data (ew_w w) @ frameBytes TypeE2EData (dataBytes ?d)\<rparr>)"
    using assms(2) v dataPayload_Ok [of ?d "dataBytes ?d"] dataBytes_length [OF v]
    by (simp add: WriteE2EData_def WriteFrame_reliable)
  then show ?thesis
    using assms(3) by (simp add: writeRecordLocked_def recordOf_def sealed_def Let_def)
qed

text \<open>\<open>Write\<close> returns, whatever the stream underneath does.\<close>

lemma encWriteLoop_returns:
  "0 < ew_maxPlaintext w \<Longrightarrow> \<exists>y. encWriteLoop C w p n = Some y"
proof (induction "length p - n" arbitrary: w n rule: less_induct)
  case less
  show ?case
  proof (cases "n < length p")
    case True
    let ?stop = "min (n + ew_maxPlaintext w) (length p)"
    obtain res w' where r: "writeRecordLocked C w (take (?stop - n) (drop n p)) = (res, w')"
      by fastforce
    have "\<exists>y. encWriteLoop C w' p ?stop = Some y"
      using less True writeRecordLocked_keeps(3) [OF r] by simp
    then show ?thesis
      using True r by (subst encWriteLoop.simps) (auto simp: Let_def split: res.split)
  qed (subst encWriteLoop.simps, simp)
qed

lemma encWrite_returns: "writer_ok w \<Longrightarrow> \<exists>y. encWrite C w p = Some y"
  using encWriteLoop_returns by (auto simp: encWrite_def writer_ok_def split: if_splits)

definition wrote :: "crypto_lib \<Rightarrow> EncryptedWriter \<Rightarrow> bytes list \<Rightarrow> EncryptedWriter" where
  "wrote C w ps = w\<lparr>ew_w := (ew_w w)\<lparr>os_data := os_data (ew_w w) @
       recordsBytes C (ew_key w) (ew_transcriptHash w) (ew_seq w) ps\<rparr>,
     ew_seq := ew_seq w + of_nat (length ps)\<rparr>"

lemma wrote_sel [simp]:
  "ew_key (wrote C w ps) = ew_key w" "ew_transcriptHash (wrote C w ps) = ew_transcriptHash w"
  "ew_maxPlaintext (wrote C w ps) = ew_maxPlaintext w" "ew_closed (wrote C w ps) = ew_closed w"
  "reliable (ew_w (wrote C w ps)) = reliable (ew_w w)"
  "ew_seq (wrote C w ps) = ew_seq w + of_nat (length ps)"
  by (simp_all add: wrote_def)

lemma wrote_Nil [simp]: "wrote C w [] = w"
  by (simp add: wrote_def)

lemma wrote_wrote: "wrote C (wrote C w ps) qs = wrote C w (ps @ qs)"
  by (simp add: wrote_def recordsBytes_append add.assoc)

lemma seq_room: "unat (s :: 64 word) + k < 2 ^ 64 - 1 \<Longrightarrow> s \<noteq> - 1 \<and> unat (s + 1) = unat s + 1"
proof -
  assume k: "unat s + k < 2 ^ 64 - 1"
  have "unat (- 1 :: 64 word) = 2 ^ 64 - 1"
    by (simp add: unsigned_minus_1_eq_mask mask_eq_exp_minus_1)
  with k have "s \<noteq> - 1" by auto
  moreover have "unat (s + 1) = unat s + 1"
    using k by (subst unat_add_lem [THEN iffD1]) simp_all
  ultimately show ?thesis by simp
qed

lemma encWriteLoop_reliable:
  assumes "gcm_laws C"
  shows "\<lbrakk>writer_ok w; reliable (ew_w w); n \<le> length p;
     unat (ew_seq w) + length (chunksOf (ew_maxPlaintext w) (drop n p)) < 2 ^ 64\<rbrakk> \<Longrightarrow>
   encWriteLoop C w p n =
     Some ((length p, Ok ()), wrote C w (chunksOf (ew_maxPlaintext w) (drop n p)))"
proof (induction "length p - n" arbitrary: w n rule: less_induct)
  case less
  show ?case
  proof (cases "n < length p")
    case True
    let ?m = "ew_maxPlaintext w"
    let ?stop = "min (n + ?m) (length p)"
    let ?c = "take ?m (drop n p)"
    have ch: "chunksOf ?m (drop n p) = ?c # chunksOf ?m (drop ?stop p)"
      using True less.prems(1)
      by (subst chunksOf.simps) (simp add: writer_ok_def add.commute min_def)
    have cut: "take (?stop - n) (drop n p) = ?c"
      by (simp add: min_def)
    have room: "ew_seq w \<noteq> - 1" "unat (ew_seq w + 1) = unat (ew_seq w) + 1"
      using less.prems(4) seq_room [of "ew_seq w" 0] ch by simp_all
    have "writeRecordLocked C w ?c = (Ok (), wrote C w [?c])"
      using less.prems room assms
      by (subst writeRecordLocked_reliable) (auto simp: wrote_def writer_ok_def min_def)
    moreover have "encWriteLoop C (wrote C w [?c]) p ?stop =
        Some ((length p, Ok ()), wrote C (wrote C w [?c]) (chunksOf ?m (drop ?stop p)))"
    proof -
      have "length p - ?stop < length p - n"
        using True less.prems(1) by (auto simp: writer_ok_def min_def)
      then show ?thesis
        using less.hyps [of ?stop "wrote C w [?c]"] less.prems room ch by (simp add: writer_ok_def)
    qed
    ultimately show ?thesis
      using True cut ch by (subst encWriteLoop.simps) (simp add: Let_def wrote_wrote)
  next
    case False
    then have "n = length p" using less.prems(3) by simp
    then show ?thesis by (subst encWriteLoop.simps) simp
  qed
qed

lemma encWrite_reliable:
  assumes "gcm_laws C" "writer_ok w" "reliable (ew_w w)" "\<not> ew_closed w"
    "unat (ew_seq w) + length (chunksOf (ew_maxPlaintext w) p) < 2 ^ 64"
  shows "encWrite C w p = Some ((length p, Ok ()), wrote C w (chunksOf (ew_maxPlaintext w) p))"
  using assms encWriteLoop_reliable [OF assms(1-3), of 0 p] by (simp add: encWrite_def)

text \<open>A sequence of writes followed by \<open>CloseWrite\<close>.\<close>

fun encWriteMany :: "crypto_lib \<Rightarrow> EncryptedWriter \<Rightarrow> bytes list \<Rightarrow> (unit res \<times> EncryptedWriter) option" where
  "encWriteMany C w [] = Some (Ok (), w)"
| "encWriteMany C w (p # ps) =
     (case encWrite C w p of
        Some ((n, Ok _), w') \<Rightarrow> encWriteMany C w' ps
      | Some ((n, Err e), w') \<Rightarrow> Some (Err e, w')
      | Some ((n, Panic), w') \<Rightarrow> Some (Panic, w')
      | None \<Rightarrow> None)"

definition allChunks :: "nat \<Rightarrow> bytes list \<Rightarrow> bytes list" where
  "allChunks m ps = concat (map (chunksOf m) ps)"

lemma concat_allChunks: "0 < m \<Longrightarrow> concat (allChunks m ps) = concat ps"
  by (induction ps) (simp_all add: allChunks_def concat_chunksOf)

lemma encWriteMany_reliable:
  assumes "gcm_laws C"
  shows "\<lbrakk>writer_ok w; reliable (ew_w w); \<not> ew_closed w;
     unat (ew_seq w) + length (allChunks (ew_maxPlaintext w) ps) < 2 ^ 64\<rbrakk> \<Longrightarrow>
   encWriteMany C w ps = Some (Ok (), wrote C w (allChunks (ew_maxPlaintext w) ps))"
proof (induction ps arbitrary: w)
  case Nil
  then show ?case by (simp add: allChunks_def)
next
  case (Cons p ps)
  let ?m = "ew_maxPlaintext w"
  let ?cs = "chunksOf ?m p"
  have u: "unat (ew_seq w + of_nat (length ?cs)) = unat (ew_seq w) + length ?cs"
    using Cons.prems(4) by (subst unat_add_lem [THEN iffD1]) (simp_all add: allChunks_def unat_of_nat take_bit_nat_eq_self)
  have "encWrite C w p = Some ((length p, Ok ()), wrote C w ?cs)"
    using assms Cons.prems by (intro encWrite_reliable) (simp_all add: allChunks_def)
  moreover have "encWriteMany C (wrote C w ?cs) ps = Some (Ok (), wrote C (wrote C w ?cs) (allChunks ?m ps))"
    using Cons.IH [of "wrote C w ?cs"] Cons.prems u by (simp add: writer_ok_def allChunks_def)
  ultimately show ?case
    by (simp add: wrote_wrote allChunks_def)
qed

definition closeOK :: E2EClose where
  "closeOK = \<lparr>ec_Code = CloseCodeOK, ec_ConnectCode = 0, ec_Message = []\<rparr>"

lemma valid_closeOK: "valid_close closeOK"
  by (simp add: valid_close_def closeOK_def ConnectCode_Valid_def qoru_consts)

lemma length_closeBytes: "valid_close c \<Longrightarrow> length (closeBytes c) \<le> MaxPayloadSize"
  by (simp add: valid_close_def closeBytes_def qoru_consts)

lemma encCloseWrite_reliable:
  assumes "reliable (ew_w w)" "\<not> ew_closed w"
  shows "encCloseWrite w = (Ok (), w\<lparr>ew_closed := True, ew_w := (ew_w w)\<lparr>os_data := os_data (ew_w w) @
     frameBytes TypeE2EClose (closeBytes closeOK)\<rparr>\<rparr>)"
  using assms valid_closeOK length_closeBytes [OF valid_closeOK] closePayload_Ok [of closeOK "closeBytes closeOK"]
  by (simp add: encCloseWrite_def WriteE2EClose_def WriteFrame_reliable closeOK_def [symmetric] Let_def)

lemma encCloseWrite_closed: "ew_closed (snd (encCloseWrite w))"
  by (simp add: encCloseWrite_def Let_def split: prod.splits)

lemma encCloseWrite_again: "encCloseWrite (snd (encCloseWrite w)) = (Ok (), snd (encCloseWrite w))"
  using encCloseWrite_closed [of w] by (simp add: encCloseWrite_def)

lemma encWrite_closed:
  "ew_closed w \<Longrightarrow> p \<noteq> [] \<Longrightarrow> encWrite C w p = Some ((0, Err ErrEncryptedWriterClosed), w)"
  by (simp add: encWrite_def)

section \<open>The reader\<close>

lemma openDataFrame_recordOf:
  assumes "gcm_laws C" "er_seq r \<noteq> - 1" "valid_data (recordOf C (er_key r) (er_transcriptHash r) (er_seq r) p)"
  shows "openDataFrame C r (dataBytes (recordOf C (er_key r) (er_transcriptHash r) (er_seq r) p)) =
    (Ok p, r\<lparr>er_seq := er_seq r + 1\<rparr>)"
  using assms
  by (simp add: openDataFrame_def DecodeE2EDataPayload_dataBytes Let_def)
    (simp add: recordOf_def gcm_Open_Seal)

lemma openDataFrame_Ok:
  assumes "gcm_exact C" "openDataFrame C r payload = (Ok p, r')"
  shows "payload = dataBytes (recordOf C (er_key r) (er_transcriptHash r) (er_seq r) p)"
    "er_seq r \<noteq> - 1" "r' = r\<lparr>er_seq := er_seq r + 1\<rparr>"
    "valid_data (recordOf C (er_key r) (er_transcriptHash r) (er_seq r) p)"
proof -
  obtain d where d: "DecodeE2EDataPayload payload = Ok d"
    using assms(2) by (cases "DecodeE2EDataPayload payload") (auto simp: openDataFrame_def)
  have s: "ed_NonceSuffix d = nonceSuffix (er_seq r)"
    using assms(2) d by (auto simp: openDataFrame_def Let_def split: if_splits)
  have o: "gcm_Open C (er_key r) (recordNonce (er_seq r)) (ed_Ciphertext d)
      (recordAAD (er_transcriptHash r) (nonceSuffix (er_seq r))) = Ok p"
    and rest: "er_seq r \<noteq> - 1" "r' = r\<lparr>er_seq := er_seq r + 1\<rparr>"
    using assms(2) d s by (auto simp: openDataFrame_def pureThen_def Let_def split: if_splits res.splits)
  have "d = recordOf C (er_key r) (er_transcriptHash r) (er_seq r) p"
  proof -
    have "ed_Ciphertext d = gcm_Seal C (er_key r) (recordNonce (er_seq r)) p
        (recordAAD (er_transcriptHash r) (nonceSuffix (er_seq r)))"
      using assms(1) o unfolding gcm_exact_def by blast
    with s show ?thesis by (simp add: recordOf_def)
  qed
  then show "payload = dataBytes (recordOf C (er_key r) (er_transcriptHash r) (er_seq r) p)"
    "valid_data (recordOf C (er_key r) (er_transcriptHash r) (er_seq r) p)"
    using DecodeE2EDataPayload_Ok [OF d] by simp_all
  show "er_seq r \<noteq> - 1" "r' = r\<lparr>er_seq := er_seq r + 1\<rparr>" by fact+
qed

lemma readStep_sealed:
  assumes "gcm_laws C" "er_seq r \<noteq> - 1" "length p + gcm_Overhead \<le> MaxE2ECiphertextLength"
    and d: "is_data (er_r r) = sealed C (er_key r) (er_transcriptHash r) (er_seq r) p @ rest"
  shows "readStep C r = (Ok (), r\<lparr>er_r := (er_r r)\<lparr>is_data := rest\<rparr>, er_seq := er_seq r + 1,
     er_buf := er_buf r @ p\<rparr>)"
proof -
  let ?d = "recordOf C (er_key r) (er_transcriptHash r) (er_seq r) p"
  have v: "valid_data ?d"
    using assms by (simp add: valid_recordOf)
  have s: "er_r r = \<lparr>is_data = sealed C (er_key r) (er_transcriptHash r) (er_seq r) p @ rest, is_end = is_end (er_r r)\<rparr>"
    using d by (cases "er_r r") simp
  have f: "ReadFrame (er_r r) = (Ok \<lparr>fr_Version = Version, fr_Type = TypeE2EData, fr_Payload = dataBytes ?d\<rparr>,
      (er_r r)\<lparr>is_data := rest\<rparr>)"
    using ReadFrame_frameBytes [OF dataBytes_length [OF v]] by (metis s sealed_def istream.select_convs(2) istream.update_convs(1))
  show ?thesis
    using openDataFrame_recordOf [of C "r\<lparr>er_r := (er_r r)\<lparr>is_data := rest\<rparr>\<rparr>" p] assms v f
    by (simp add: readStep_def)
qed

lemma readStep_close:
  assumes "is_data (er_r r) = frameBytes TypeE2EClose (closeBytes c) @ rest" "valid_close c"
  shows "readStep C r = (Err (if ec_Code c = CloseCodeOK then EOF
       else ErrClose \<lparr>ce_Code = ec_Code c, ce_ConnectCode = ec_ConnectCode c, ce_Message = ec_Message c\<rparr>),
     r\<lparr>er_r := (er_r r)\<lparr>is_data := rest\<rparr>, er_closed := True\<rparr>)"
proof -
  have s: "er_r r = \<lparr>is_data = frameBytes TypeE2EClose (closeBytes c) @ rest, is_end = is_end (er_r r)\<rparr>"
    using assms(1) by (cases "er_r r") simp
  have f: "ReadFrame (er_r r) = (Ok \<lparr>fr_Version = Version, fr_Type = TypeE2EClose, fr_Payload = closeBytes c\<rparr>,
      (er_r r)\<lparr>is_data := rest\<rparr>)"
    using ReadFrame_frameBytes [OF length_closeBytes [OF assms(2)]]
    by (metis s istream.select_convs(2) istream.update_convs(1))
  show ?thesis
    using f DecodeE2EClosePayload_closeBytes [OF assms(2)] by (simp add: readStep_def Let_def qoru_consts)
qed

section \<open>Reading what was written\<close>

text \<open>
  Calls of \<open>Read\<close> with the buffer sizes \<open>ns\<close>, as \<open>io.Copy\<close> makes them: the bytes
  delivered, and the error that ended the loop (\<open>Ok\<close> when it is still open).
\<close>

fun drain :: "crypto_lib \<Rightarrow> EncryptedReader \<Rightarrow> nat list \<Rightarrow> bytes \<times> unit res \<times> EncryptedReader" where
  "drain C r [] = ([], Ok (), r)"
| "drain C r (n # ns) =
     (case encRead C r n of
        (Ok d, r') \<Rightarrow> (let (ds, out, r'') = drain C r' ns in (d @ ds, out, r''))
      | (Err e, r') \<Rightarrow> ([], Err e, r')
      | (Panic, r') \<Rightarrow> ([], Panic, r'))"

text \<open>\<open>pending C r ps rest\<close>: the records \<open>ps\<close> and then \<open>rest\<close> wait on the reader's stream.\<close>

definition pending :: "crypto_lib \<Rightarrow> EncryptedReader \<Rightarrow> bytes list \<Rightarrow> bytes \<Rightarrow> bool" where
  "pending C r ps rest \<longleftrightarrow>
     is_data (er_r r) = recordsBytes C (er_key r) (er_transcriptHash r) (er_seq r) ps @ rest \<and>
     unat (er_seq r) + length ps < 2 ^ 64 \<and> \<not> er_closed r \<and>
     (\<forall>p\<in>set ps. length p + gcm_Overhead \<le> MaxE2ECiphertextLength)"

lemma pending_bufRead [simp]: "pending C (r\<lparr>er_buf := b\<rparr>) ps rest = pending C r ps rest"
  by (simp add: pending_def)

lemma readStep_pending:
  assumes "gcm_laws C" "pending C r (p # ps) rest"
  obtains r' where "readStep C r = (Ok (), r')" "pending C r' ps rest" "er_buf r' = er_buf r @ p"
proof -
  let ?d = "recordsBytes C (er_key r) (er_transcriptHash r) (er_seq r + 1) ps @ rest"
  have room: "er_seq r \<noteq> - 1" "unat (er_seq r + 1) = unat (er_seq r) + 1"
    using assms(2) seq_room [of "er_seq r" 0] by (simp_all add: pending_def)
  have "readStep C r = (Ok (), r\<lparr>er_r := (er_r r)\<lparr>is_data := ?d\<rparr>, er_seq := er_seq r + 1,
     er_buf := er_buf r @ p\<rparr>)"
    using assms room by (intro readStep_sealed) (simp_all add: pending_def)
  with that show ?thesis
    using assms(2) room by (auto simp: pending_def)
qed

lemma readLoop_pending:
  assumes "gcm_laws C" "0 < n"
  shows "\<lbrakk>pending C r ps rest; er_buf r @ concat ps \<noteq> []\<rbrakk> \<Longrightarrow>
    \<exists>d r' ps'. readLoop C r n = (Ok d, r') \<and> d \<noteq> [] \<and> pending C r' ps' rest \<and>
      er_buf r @ concat ps = d @ er_buf r' @ concat ps'"
proof (induction ps arbitrary: r)
  case Nil
  then show ?case
    using assms(2) by (subst readLoop.simps) (auto simp: bufRead_def intro!: exI [of _ "[]"])
next
  case (Cons p ps)
  show ?case
  proof (cases "er_buf r = []")
    case True
    obtain r1 where r1: "readStep C r = (Ok (), r1)" "pending C r1 ps rest" "er_buf r1 = p"
      using readStep_pending [OF assms(1) Cons.prems(1)] True by auto
    then show ?thesis
      using Cons.IH [OF r1(2)] Cons.prems(2) True by (subst readLoop.simps) simp
  next
    case False
    then show ?thesis
      using assms(2) Cons.prems(1)
      by (subst readLoop.simps) (auto simp: bufRead_def intro!: exI [of _ "p # ps"])
  qed
qed

lemma readLoop_drained:
  assumes "gcm_laws C"
  shows "\<lbrakk>pending C r ps rest; er_buf r = []; concat ps = []\<rbrakk> \<Longrightarrow>
    \<exists>r'. readLoop C r n = readLoop C r' n \<and> pending C r' [] rest \<and> er_buf r' = []"
proof (induction ps arbitrary: r)
  case (Cons p ps)
  obtain r1 where "readStep C r = (Ok (), r1)" "pending C r1 ps rest" "er_buf r1 = []"
    using readStep_pending [OF assms(1) Cons.prems(1)] Cons.prems by auto
  moreover from this have "readLoop C r n = readLoop C r1 n"
    using Cons.prems(2) by (subst readLoop.simps) simp
  ultimately show ?case
    using Cons.IH [of r1] Cons.prems(3) by auto
qed auto

lemma encRead_pending:
  assumes "gcm_laws C" "0 < n" "pending C r ps rest" "er_buf r @ concat ps \<noteq> []"
  shows "\<exists>d r' ps'. encRead C r n = (Ok d, r') \<and> d \<noteq> [] \<and> pending C r' ps' rest \<and>
      er_buf r @ concat ps = d @ er_buf r' @ concat ps'"
proof (cases "er_buf r = []")
  case True
  then show ?thesis
    using readLoop_pending [OF assms] assms(3) by (simp add: encRead_def pending_def)
next
  case False
  then have "encRead C r n = readLoop C r n"
    by (subst readLoop.simps) (simp add: encRead_def)
  with readLoop_pending [OF assms] show ?thesis by simp
qed

definition closeResult :: "E2EClose \<Rightarrow> go_error" where
  "closeResult c = (if ec_Code c = CloseCodeOK then EOF
     else ErrClose \<lparr>ce_Code = ec_Code c, ce_ConnectCode = ec_ConnectCode c, ce_Message = ec_Message c\<rparr>)"

lemma closeResult_closeOK [simp]: "closeResult closeOK = EOF"
  by (simp add: closeResult_def closeOK_def)

lemma encRead_close:
  assumes "gcm_laws C" "valid_close c" "pending C r ps (frameBytes TypeE2EClose (closeBytes c) @ rest)"
    "er_buf r @ concat ps = []"
  shows "\<exists>r'. encRead C r n = (Err (closeResult c), r') \<and> er_closed r' \<and> er_buf r' = []"
proof -
  have b: "er_buf r = []" "concat ps = []" using assms(4) by simp_all
  from readLoop_drained [OF assms(1,3) b] obtain r1
    where r1: "readLoop C r n = readLoop C r1 n" "er_buf r1 = []"
      "pending C r1 [] (frameBytes TypeE2EClose (closeBytes c) @ rest)"
    by blast
  then have "is_data (er_r r1) = frameBytes TypeE2EClose (closeBytes c) @ rest"
    by (simp add: pending_def)
  from readStep_close [OF this assms(2), of C] r1 b(1) assms(3) show ?thesis
    by (simp add: encRead_def readLoop.simps [of C r1] closeResult_def pending_def)
qed

lemma drain_pending:
  assumes "gcm_laws C" "valid_close c"
  shows "\<lbrakk>pending C r ps (frameBytes TypeE2EClose (closeBytes c) @ rest); \<forall>n\<in>set ns. 0 < n;
      length (er_buf r @ concat ps) < length ns\<rbrakk> \<Longrightarrow>
    \<exists>r'. drain C r ns = (er_buf r @ concat ps, Err (closeResult c), r') \<and> er_closed r' \<and> er_buf r' = []"
proof (induction ns arbitrary: r ps)
  case Nil
  then show ?case by simp
next
  case (Cons n ns)
  show ?case
  proof (cases "er_buf r @ concat ps = []")
    case True
    then show ?thesis
      using encRead_close [OF assms Cons.prems(1) True, of n] by auto
  next
    case False
    have "0 < n" using Cons.prems(2) by simp
    from encRead_pending [OF assms(1) this Cons.prems(1) False] obtain d r' ps' where
      *: "encRead C r n = (Ok d, r')" "d \<noteq> []" "er_buf r @ concat ps = d @ er_buf r' @ concat ps'"
         "pending C r' ps' (frameBytes TypeE2EClose (closeBytes c) @ rest)"
      by blast
    have "length (er_buf r' @ concat ps') < length ns"
      using *(2,3) Cons.prems(3) by (cases d) auto
    then show ?thesis
      using Cons.IH [OF *(4)] Cons.prems(2) *(1,3) by auto
  qed
qed

text \<open>When the stream underneath just ends after the records, its own end is what \<open>Read\<close> reports.\<close>

lemma readStep_end:
  assumes "readStep C r = (Ok u, r')"
  shows "is_end (er_r r') = is_end (er_r r)"
proof -
  obtain f s where f: "ReadFrame (er_r r) = (Ok f, s)"
    using assms by (cases "ReadFrame (er_r r)"; cases "fst (ReadFrame (er_r r))") (auto simp: readStep_def)
  obtain m r1 where "openDataFrame C (r\<lparr>er_r := s\<rparr>) (fr_Payload f) = (m, r1)" by fastforce
  then show ?thesis
    using assms f ReadFrame_Ok(2) [OF f] openDataFrame_frame(1) [of C "r\<lparr>er_r := s\<rparr>" "fr_Payload f"]
    by (cases m) (auto simp: readStep_def pureThen_def Let_def split: if_splits res.splits)
qed

lemma readLoop_end: "readLoop C r n = (Ok d, r') \<Longrightarrow> is_end (er_r r') = is_end (er_r r)"
proof (induction C r n rule: readLoop.induct)
  case (1 C r n)
  show ?case
  proof (cases "er_buf r = []")
    case True
    obtain m r1 where s: "readStep C r = (m, r1)" by fastforce
    then obtain u where m: "m = Ok u" using 1(2) True by (cases m) (simp_all add: readLoop.simps [of C r])
    then show ?thesis
      using 1(1) [OF True s [symmetric] m] 1(2) True s readStep_end [of C r u r1] by (simp add: readLoop.simps [of C r])
  next
    case False
    then show ?thesis using 1(2) by (auto simp: readLoop.simps [of C r] bufRead_def)
  qed
qed

lemma encRead_end: "encRead C r n = (Ok d, r') \<Longrightarrow> is_end (er_r r') = is_end (er_r r)"
  by (auto simp: encRead_def bufRead_def readLoop_end split: if_splits)

lemma readLoop_cut:
  assumes "gcm_laws C"
  shows "pending C r ps [] \<Longrightarrow> er_buf r = [] \<Longrightarrow> concat ps = [] \<Longrightarrow>
    \<exists>r'. readLoop C r n = (Err (is_end (er_r r)), r') \<and> er_buf r' = []"
proof (induction ps arbitrary: r)
  case Nil
  then show ?case by (simp add: readLoop.simps [of C r] readStep_def ReadFrame_def ReadFull_def pending_def)
next
  case (Cons p ps)
  obtain r1 where r1: "readStep C r = (Ok (), r1)" "pending C r1 ps []" "er_buf r1 = []"
    using readStep_pending [OF assms Cons.prems(1)] Cons.prems by auto
  then show ?case
    using Cons.IH [of r1] Cons.prems readStep_end [OF r1(1)] by (simp add: readLoop.simps [of C r])
qed

lemma drain_cut:
  assumes "gcm_laws C"
  shows "pending C r ps [] \<Longrightarrow> \<forall>n\<in>set ns. 0 < n \<Longrightarrow> length (er_buf r @ concat ps) < length ns \<Longrightarrow>
    \<exists>r'. drain C r ns = (er_buf r @ concat ps, Err (is_end (er_r r)), r')"
proof (induction ns arbitrary: r ps)
  case (Cons n ns)
  show ?case
  proof (cases "er_buf r @ concat ps = []")
    case True
    then show ?thesis
      using readLoop_cut [OF assms Cons.prems(1), of n] Cons.prems(1) by (auto simp: encRead_def pending_def)
  next
    case False
    have "0 < n" using Cons.prems(2) by simp
    from encRead_pending [OF assms this Cons.prems(1) False] obtain d r' ps' where
      *: "encRead C r n = (Ok d, r')" "d \<noteq> []" "er_buf r @ concat ps = d @ er_buf r' @ concat ps'" "pending C r' ps' []"
      by blast
    have "length (er_buf r' @ concat ps') < length ns"
      using *(2,3) Cons.prems(3) by (cases d) auto
    then show ?thesis
      using Cons.IH [OF *(4)] Cons.prems(2) *(1,3) encRead_end [OF *(1)] by auto
  qed
qed simp

lemma length_chunksOf_le: "length (chunksOf m p) \<le> length p"
  by (induction m p rule: chunksOf.induct) (subst chunksOf.simps, auto simp: neq_Nil_conv)

lemma length_allChunks_le: "length (allChunks m ps) \<le> length (concat ps)"
  by (induction ps) (auto simp: allChunks_def intro: add_mono length_chunksOf_le)

lemma chunksOf_length: "c \<in> set (chunksOf m p) \<Longrightarrow> length c \<le> m"
  by (induction m p rule: chunksOf.induct) (subst (asm) chunksOf.simps, auto split: if_splits)

lemma NewEncryptedReader_Ok:
  "NewEncryptedReader ro k th = Ok r \<Longrightarrow>
   ro = Some (er_r r) \<and> er_key r = k \<and> er_transcriptHash r = th \<and> er_seq r = 0 \<and>
   er_buf r = [] \<and> \<not> er_closed r"
  by (auto simp: NewEncryptedReader_def newRecordAEAD_def aes_NewCipher_def
      bindR_eq_Ok split: option.splits if_splits)

lemma pending_fresh:
  assumes "NewEncryptedReader (Some s) k th = Ok r" "is_data s = recordsBytes C k th 0 cs @ rest"
    "length cs < 2 ^ 64" "\<forall>p\<in>set cs. length p + gcm_Overhead \<le> MaxE2ECiphertextLength"
  shows "pending C r cs rest"
  using NewEncryptedReader_Ok [OF assms(1)] assms(2-4) by (auto simp: pending_def)

section \<open>What a reader accepts\<close>

lemma readStep_Ok:
  assumes "gcm_exact C" "readStep C r = (Ok u, r')"
  obtains p where "is_data (er_r r) = sealed C (er_key r) (er_transcriptHash r) (er_seq r) p @ is_data (er_r r')"
    "er_seq r \<noteq> - 1" "er_seq r' = er_seq r + 1" "er_buf r' = er_buf r @ p"
    "er_key r' = er_key r" "er_transcriptHash r' = er_transcriptHash r"
    "valid_data (recordOf C (er_key r) (er_transcriptHash r) (er_seq r) p)"
proof -
  obtain f s where f: "ReadFrame (er_r r) = (Ok f, s)"
    using assms(2) by (cases "ReadFrame (er_r r)"; cases "fst (ReadFrame (er_r r))") (auto simp: readStep_def)
  let ?r = "r\<lparr>er_r := s\<rparr>"
  obtain p r1 where o: "fr_Type f = TypeE2EData" "openDataFrame C ?r (fr_Payload f) = (Ok p, r1)"
    "r' = r1\<lparr>er_buf := er_buf r1 @ p\<rparr>"
    using assms(2) f
    by (cases "openDataFrame C ?r (fr_Payload f)"; cases "fst (openDataFrame C ?r (fr_Payload f))")
      (auto simp: readStep_def pureThen_def Let_def split: if_splits res.splits)
  note a = openDataFrame_Ok [OF assms(1) o(2)]
  show ?thesis
    using that [of p] ReadFrame_Ok(1) [OF f] a o by (simp add: sealed_def)
qed

lemma readStep_Err_buf:
  assumes "readStep C r = (m, r')" "\<not> is_Ok m"
  shows "er_buf r' = er_buf r"
  using assms openDataFrame_frame(2) [of C "r\<lparr>er_r := snd (ReadFrame (er_r r))\<rparr>"]
  by (auto simp: readStep_def pureThen_def seqR_def Let_def split: prod.splits res.splits if_splits)
     (metis EncryptedReader.select_convs(5) EncryptedReader.update_convs(1) snd_conv)+

text \<open>
  \<open>accepted C r qs rest\<close>: the stream of \<open>r\<close> starts with the records \<open>qs\<close>, sealed under
  its key and transcript with consecutive numbers; \<open>advanced C r qs r'\<close>: \<open>r'\<close> is \<open>r\<close>
  after taking them.
\<close>

definition accepted :: "crypto_lib \<Rightarrow> EncryptedReader \<Rightarrow> bytes list \<Rightarrow> bytes \<Rightarrow> bool" where
  "accepted C r qs rest \<longleftrightarrow>
     is_data (er_r r) = recordsBytes C (er_key r) (er_transcriptHash r) (er_seq r) qs @ rest \<and>
     unat (er_seq r) + length qs < 2 ^ 64"

definition advanced :: "crypto_lib \<Rightarrow> EncryptedReader \<Rightarrow> bytes list \<Rightarrow> EncryptedReader \<Rightarrow> bool" where
  "advanced C r qs r' \<longleftrightarrow> accepted C r qs (is_data (er_r r')) \<and> er_key r' = er_key r \<and>
     er_transcriptHash r' = er_transcriptHash r \<and> unat (er_seq r') = unat (er_seq r) + length qs"

lemma accepted_Nil: "accepted C r [] (is_data (er_r r))"
  using unsigned_less [of "er_seq r", where ?'a = nat] by (simp add: accepted_def)

lemma advanced_Nil: "advanced C r [] r" "advanced C r [] (r\<lparr>er_buf := b\<rparr>)"
  by (simp_all add: advanced_def accepted_Nil)

lemma advanced_accepted:
  "advanced C r qs r1 \<Longrightarrow> accepted C r1 qs' rest \<Longrightarrow> accepted C r (qs @ qs') rest"
proof -
  assume a: "advanced C r qs r1" and b: "accepted C r1 qs' rest"
  have "er_seq r1 = er_seq r + of_nat (length qs)"
  proof -
    have id: "of_nat (unat x) = x" for x :: "64 word"
      by simp
    have "unat (er_seq r1) = unat (er_seq r) + length qs"
      using a by (simp add: advanced_def)
    then show ?thesis by (metis id of_nat_add)
  qed
  with a b show ?thesis
    by (auto simp: advanced_def accepted_def recordsBytes_append)
qed

lemma advanced_trans: "advanced C r qs r1 \<Longrightarrow> advanced C r1 qs' r2 \<Longrightarrow> advanced C r (qs @ qs') r2"
  using advanced_accepted [of C r qs r1 qs' "is_data (er_r r2)"] by (simp add: advanced_def)

lemma readStep_advanced:
  assumes "gcm_exact C" "readStep C r = (Ok u, r')"
  obtains p where "advanced C r [p] r'" "er_buf r' = er_buf r @ p"
proof -
  obtain p where p: "is_data (er_r r) = sealed C (er_key r) (er_transcriptHash r) (er_seq r) p @ is_data (er_r r')"
    "er_seq r \<noteq> - 1" "er_seq r' = er_seq r + 1" "er_buf r' = er_buf r @ p"
    "er_key r' = er_key r" "er_transcriptHash r' = er_transcriptHash r"
    "valid_data (recordOf C (er_key r) (er_transcriptHash r) (er_seq r) p)"
    using readStep_Ok [OF assms] .
  have "unat (er_seq r) < 2 ^ 64 - 1"
  proof -
    have m: "unat (- 1 :: 64 word) = 2 ^ 64 - 1"
      by (simp add: unsigned_minus_1_eq_mask mask_eq_exp_minus_1)
    have "unat (er_seq r) \<noteq> unat (- 1 :: 64 word)"
      using p(2) unsigned_word_eqI by blast
    then show ?thesis
      using unsigned_less [of "er_seq r", where ?'a = nat] unfolding m by simp
  qed
  then have "unat (er_seq r + 1) = unat (er_seq r) + 1" "unat (er_seq r) + 1 < 2 ^ 64"
    using seq_room [of "er_seq r" 0] by simp_all
  then show ?thesis
    using that [of p] p by (simp add: advanced_def accepted_def)
qed

definition delivers :: "crypto_lib \<Rightarrow> EncryptedReader \<Rightarrow> bytes \<Rightarrow> bool \<Rightarrow> EncryptedReader \<Rightarrow> bool" where
  "delivers C r d open r' \<longleftrightarrow> (\<exists>qs rest. accepted C r qs rest \<and> er_buf r @ concat qs = d @ er_buf r' \<and>
     (open \<longrightarrow> advanced C r qs r'))"

lemma delivers_none:
  "er_buf r = d @ er_buf r' \<Longrightarrow> (open \<Longrightarrow> advanced C r [] r') \<Longrightarrow> delivers C r d open r'"
  unfolding delivers_def using accepted_Nil [of C r]
  by (intro exI [of _ "[]"] exI [of _ "is_data (er_r r)"]) auto

lemma delivers_step:
  assumes "advanced C r qs r1" "delivers C r1 d' open r'" "er_buf r @ concat qs = d @ er_buf r1"
  shows "delivers C r (d @ d') open r'"
proof -
  obtain qs' rest where q: "accepted C r1 qs' rest" "er_buf r1 @ concat qs' = d' @ er_buf r'"
    "open \<longrightarrow> advanced C r1 qs' r'"
    using assms(2) by (auto simp: delivers_def)
  have "er_buf r @ concat (qs @ qs') = (d @ d') @ er_buf r'"
    using assms(3) q(2) by (metis append.assoc concat_append)
  then show ?thesis
    using advanced_accepted [OF assms(1) q(1)] advanced_trans [OF assms(1)] q(3)
    unfolding delivers_def by blast
qed

primrec okBytes :: "bytes res \<Rightarrow> bytes" where
  "okBytes (Ok d) = d" | "okBytes (Err e) = []" | "okBytes Panic = []"

lemma bufRead_delivers: "bufRead r n = (m, r') \<Longrightarrow> delivers C r (okBytes m) True r'"
  by (intro delivers_none) (auto simp: bufRead_def advanced_Nil)

lemma readLoop_delivers:
  "gcm_exact C \<Longrightarrow> readLoop C r n = (m, r') \<Longrightarrow> delivers C r (okBytes m) (is_Ok m) r'"
proof (induction C r n rule: readLoop.induct)
  case (1 C r n)
  show ?case
  proof (cases "er_buf r = []")
    case False
    then have "bufRead r n = (m, r')" using 1(3) by (subst (asm) readLoop.simps) simp
    then show ?thesis using bufRead_delivers [of r n m r' C] by (auto simp: bufRead_def)
  next
    case True
    obtain m1 r1 where s: "readStep C r = (m1, r1)" by fastforce
    show ?thesis
    proof (cases m1)
      case (Ok u)
      then obtain p where p: "advanced C r [p] r1" "er_buf r1 = er_buf r @ p"
        using readStep_advanced [OF 1(2)] s by blast
      have "readLoop C r1 n = (m, r')"
        using 1(3) True s Ok by (subst (asm) readLoop.simps) simp
      then have "delivers C r1 (okBytes m) (is_Ok m) r'"
        using 1(1) [OF True s [symmetric] Ok 1(2)] by blast
      from delivers_step [OF p(1) this, of "[]"] p(2) show ?thesis by simp
    next
      case (Err e)
      with s 1(3) True have "m = Err e" "r' = r1" by (simp_all add: readLoop.simps [of C r])
      then show ?thesis
        using readStep_Err_buf [OF s] Err by (intro delivers_none) simp_all
    next
      case Panic
      with s 1(3) True have "m = Panic" "r' = r1" by (simp_all add: readLoop.simps [of C r])
      then show ?thesis
        using readStep_Err_buf [OF s] Panic by (intro delivers_none) simp_all
    qed
  qed
qed

lemma encRead_delivers:
  assumes "gcm_exact C" "encRead C r n = (m, r')"
  shows "delivers C r (okBytes m) (is_Ok m) r'"
proof (cases "er_buf r = [] \<and> er_closed r")
  case True
  then show ?thesis
    using assms(2) by (intro delivers_none) (auto simp: encRead_def)
next
  case False
  then have "encRead C r n = readLoop C r n"
    by (auto simp: encRead_def readLoop.simps [of C r n])
  with assms readLoop_delivers show ?thesis by simp
qed

lemma drain_delivers:
  "gcm_exact C \<Longrightarrow> drain C r ns = (d, out, r') \<Longrightarrow> delivers C r d (is_Ok out) r'"
proof (induction ns arbitrary: r d)
  case Nil
  then show ?case
    by (intro delivers_none) (auto simp: advanced_Nil)
next
  case (Cons n ns)
  obtain m r1 where e: "encRead C r n = (m, r1)" by fastforce
  note dl = encRead_delivers [OF Cons.prems(1) e]
  show ?case
  proof (cases m)
    case (Ok d1)
    then obtain d2 where d2: "drain C r1 ns = (d2, out, r')" "d = d1 @ d2"
      using Cons.prems(2) e by (auto split: prod.splits)
    obtain qs where qs: "advanced C r qs r1" "er_buf r @ concat qs = d1 @ er_buf r1"
      using dl Ok by (auto simp: delivers_def)
    show ?thesis
      using delivers_step [OF qs(1) Cons.IH [OF Cons.prems(1) d2(1)] qs(2)] d2(2) by simp
  next
    case (Err e')
    then show ?thesis using dl e Cons.prems(2) by auto
  next
    case Panic
    then show ?thesis using dl e Cons.prems(2) by auto
  qed
qed

section \<open>A writer and a reader make a channel\<close>

text \<open>A fresh reader fed with \<open>d\<close> delivers \<open>ps\<close> through buffers of any sizes, then end of file.\<close>

definition reads_back :: "crypto_lib \<Rightarrow> bytes \<Rightarrow> bytes \<Rightarrow> bytes \<Rightarrow> bytes list \<Rightarrow> bool" where
  "reads_back C k th d ps \<longleftrightarrow>
     (\<forall>r rest ns. is_data (er_r r) = d @ rest \<longrightarrow> er_key r = k \<longrightarrow>
      er_transcriptHash r = th \<longrightarrow> er_seq r = 0 \<longrightarrow> er_buf r = [] \<longrightarrow> \<not> er_closed r \<longrightarrow>
      (\<forall>n\<in>set ns. 0 < n) \<longrightarrow> length (concat ps) < length ns \<longrightarrow> (\<exists>r'. drain C r ns = (concat ps, Err EOF, r')))"

lemma reads_backD:
  "\<lbrakk>reads_back C k th d ps; is_data (er_r r) = d @ rest; er_key r = k; er_transcriptHash r = th; er_seq r = 0;
    er_buf r = []; \<not> er_closed r; \<forall>n\<in>set ns. 0 < n; length (concat ps) < length ns\<rbrakk> \<Longrightarrow>
   \<exists>r'. drain C r ns = (concat ps, Err EOF, r')"
  unfolding reads_back_def by blast

lemma record_channel:
  assumes "gcm_laws C" "writer_ok w" "reliable (ew_w w)" "\<not> ew_closed w" "ew_seq w = 0"
    and "length (concat ps) < 2 ^ 64"
  shows "\<exists>w1 w2 d. encWriteMany C w ps = Some (Ok (), w1) \<and> encCloseWrite w1 = (Ok (), w2) \<and>
    os_data (ew_w w2) = os_data (ew_w w) @ d \<and>
    reads_back C (ew_key w) (ew_transcriptHash w) d ps"
proof -
  let ?cs = "allChunks (ew_maxPlaintext w) ps"
  let ?close = "frameBytes TypeE2EClose (closeBytes closeOK)"
  let ?d = "recordsBytes C (ew_key w) (ew_transcriptHash w) 0 ?cs @ ?close"
  have len: "length ?cs < 2 ^ 64"
    using assms(6) length_allChunks_le [of "ew_maxPlaintext w" ps] by linarith
  have wr: "encWriteMany C w ps = Some (Ok (), wrote C w ?cs)"
    using assms len by (intro encWriteMany_reliable) simp_all
  have cl: "\<exists>w2. encCloseWrite (wrote C w ?cs) = (Ok (), w2) \<and> os_data (ew_w w2) = os_data (ew_w w) @ ?d"
    using assms by (auto simp: encCloseWrite_reliable wrote_def)
  have fit: "\<forall>p\<in>set ?cs. length p + gcm_Overhead \<le> MaxE2ECiphertextLength"
    using assms(2) by (auto simp: allChunks_def writer_ok_def dest!: chunksOf_length)
  have cat: "concat ?cs = concat ps"
    using assms(2) by (intro concat_allChunks) (simp add: writer_ok_def)
  have rd: "\<exists>r'. drain C r ns = (concat ps, Err EOF, r')"
    if r: "is_data (er_r r) = ?d @ rest" "er_key r = ew_key w" "er_transcriptHash r = ew_transcriptHash w"
      "er_seq r = 0" "er_buf r = []" "\<not> er_closed r" and ns: "\<forall>n\<in>set ns. 0 < n" "length (concat ps) < length ns"
    for r rest ns
  proof -
    have "pending C r ?cs (?close @ rest)"
      using r len fit by (simp add: pending_def)
    from drain_pending [OF assms(1) valid_closeOK this ns(1)] ns(2) cat r(5) show ?thesis by auto
  qed
  obtain w2 where "encCloseWrite (wrote C w ?cs) = (Ok (), w2)" "os_data (ew_w w2) = os_data (ew_w w) @ ?d"
    using cl by blast
  then show ?thesis
    by (intro exI [of _ "wrote C w ?cs"] exI [of _ w2] exI [of _ ?d] conjI wr)
      (use rd in \<open>simp_all add: reads_back_def\<close>)
qed

section \<open>Properties\<close>

text \<open>
  C3: the record layer carries a byte stream. Whatever is written, in whatever pieces, on a
  fresh encrypted writer and then closed, a fresh reader with the same key and transcript
  hash delivers unchanged and in order through buffers of any positive sizes, and then
  reports end of file. The writes themselves succeed as long as fewer than \<open>2^64\<close> bytes are
  sent, so the sequence number cannot run out.
\<close>

theorem record_roundtrip:
  assumes "gcm_laws C" "NewEncryptedWriter (Some \<lparr>os_data = [], os_script = []\<rparr>) k th = Ok w"
    and "length (concat ps) < 2 ^ 64"
  shows "\<exists>w1 w2. encWriteMany C w ps = Some (Ok (), w1) \<and> encCloseWrite w1 = (Ok (), w2) \<and>
    (\<forall>rest e ns. (\<forall>n\<in>set ns. 0 < n) \<longrightarrow> length (concat ps) < length ns \<longrightarrow>
      (\<exists>r r'. NewEncryptedReader (Some \<lparr>is_data = os_data (ew_w w2) @ rest, is_end = e\<rparr>) k th = Ok r \<and>
        drain C r ns = (concat ps, Err EOF, r')))"
proof -
  note w = NewEncryptedWriter_Ok [OF assms(2)]
  have w0: "ew_w w = \<lparr>os_data = [], os_script = []\<rparr>" using w by auto
  obtain w1 w2 d where wr: "encWriteMany C w ps = Some (Ok (), w1)" "encCloseWrite w1 = (Ok (), w2)"
      "os_data (ew_w w2) = d" and rd: "reads_back C k th d ps"
    using record_channel [OF assms(1), of w ps] w w0 assms(3) by auto
  have "\<exists>r r'. NewEncryptedReader (Some \<lparr>is_data = d @ rest, is_end = e\<rparr>) k th = Ok r \<and>
      drain C r ns = (concat ps, Err EOF, r')"
    if ns: "\<forall>n\<in>set ns. 0 < n" "length (concat ps) < length ns" for rest e ns
  proof -
    obtain r where r: "NewEncryptedReader (Some \<lparr>is_data = d @ rest, is_end = e\<rparr>) k th = Ok r"
      using assms(2) by (auto simp: NewEncryptedReader_def NewEncryptedWriter_def bindR_eq_Ok split: if_splits)
    have "is_data (er_r r) = d @ rest"
      using NewEncryptedReader_Ok [OF r] by (metis istream.select_convs(1) option.inject)
    with reads_backD [OF rd, of r rest ns] NewEncryptedReader_Ok [OF r] ns show ?thesis using r by auto
  qed
  with wr show ?thesis by auto
qed

theorem record_roundtrip_witness:
  "\<exists>w1 w2 r r'. encWriteMany toy_crypto (case NewEncryptedWriter (Some \<lparr>os_data = [], os_script = []\<rparr>)
        (replicate 16 7) [1] of Ok w \<Rightarrow> w) [[1, 2, 3], [], [4]] = Some (Ok (), w1) \<and>
    encCloseWrite w1 = (Ok (), w2) \<and>
    NewEncryptedReader (Some \<lparr>is_data = os_data (ew_w w2) @ [], is_end = EOF\<rparr>) (replicate 16 7) [1] = Ok r \<and>
    drain toy_crypto r [2, 1, 1, 1, 1] = ([1, 2, 3, 4], Err EOF, r')"
proof -
  obtain w where w: "NewEncryptedWriter (Some \<lparr>os_data = [], os_script = []\<rparr>) (replicate 16 7) [1] = Ok w"
    by (simp add: NewEncryptedWriter_def newRecordAEAD_def aes_NewCipher_def qoru_consts)
  have "length (concat [[1, 2, 3], [], [4 :: byte]]) < 2 ^ 64" by simp
  from record_roundtrip [OF toy_gcm_laws w this] obtain w1 w2 where
    1: "encWriteMany toy_crypto w [[1, 2, 3], [], [4]] = Some (Ok (), w1)" "encCloseWrite w1 = (Ok (), w2)"
    and 2: "\<And>rest e ns. \<forall>n\<in>set ns. 0 < n \<Longrightarrow> length (concat [[1, 2, 3], [], [4 :: byte]]) < length ns \<Longrightarrow>
      \<exists>r r'. NewEncryptedReader (Some \<lparr>is_data = os_data (ew_w w2) @ rest, is_end = e\<rparr>) (replicate 16 7) [1] = Ok r \<and>
        drain toy_crypto r ns = (concat [[1, 2, 3], [], [4]], Err EOF, r')"
    by blast
  from 2 [of "[2, 1, 1, 1, 1]" "[]" EOF] 1 w show ?thesis by auto
qed

text \<open>
  C4: the record layer delivers nothing but what was sealed for it. From arbitrary bytes on
  the wire, and through any calls of \<open>Read\<close> up to the first error, the plaintext delivered
  (and what is still buffered) is the concatenation of records sealed under the reader's own
  key and transcript hash with the sequence numbers 0, 1, 2, ... that stand at the start of
  the stream: no record can be dropped, replayed, reordered or taken from another session.
\<close>

theorem record_integrity:
  assumes "gcm_exact C" "NewEncryptedReader (Some s) k th = Ok r" "drain C r ns = (d, out, r')"
  shows "\<exists>qs rest. is_data s = recordsBytes C k th 0 qs @ rest \<and> length qs < 2 ^ 64 \<and>
    concat qs = d @ er_buf r'"
  using drain_delivers [OF assms(1,3)] NewEncryptedReader_Ok [OF assms(2)]
  by (auto simp: delivers_def accepted_def)

theorem record_integrity_witness:
  "\<exists>qs rest. (recordsBytes toy_crypto (replicate 16 7) [1] 0 [[5, 6]] :: bytes) =
     recordsBytes toy_crypto (replicate 16 7) [1] 0 qs @ rest \<and> length qs < 2 ^ 64 \<and> concat qs = [5] @ [6]"
proof -
  let ?s = "\<lparr>is_data = recordsBytes toy_crypto (replicate 16 7) [1] 0 [[5, 6]], is_end = EOF\<rparr>"
  obtain r where r: "NewEncryptedReader (Some ?s) (replicate 16 7) [1] = Ok r"
    by (simp add: NewEncryptedReader_def newRecordAEAD_def aes_NewCipher_def)
  have "pending toy_crypto r [[5, 6]] []"
    by (rule pending_fresh [OF r]) (simp_all add: qoru_consts)
  from readStep_pending [OF toy_gcm_laws this] NewEncryptedReader_Ok [OF r]
  obtain r1 where "readStep toy_crypto r = (Ok (), r1)" "er_buf r1 = [5, 6]"
    by auto
  then have "drain toy_crypto r [1] = ([5], Ok (), r1\<lparr>er_buf := [6]\<rparr>)"
    using NewEncryptedReader_Ok [OF r]
    by (simp add: encRead_def readLoop.simps [of toy_crypto r] readLoop.simps [of toy_crypto r1] bufRead_def)
  from record_integrity [OF toy_gcm_exact r this] show ?thesis by simp
qed

lemma encWriteLoop_bounds:
  "0 < ew_maxPlaintext w \<Longrightarrow> n \<le> length p \<Longrightarrow> encWriteLoop C w p n = Some ((k, m), w') \<Longrightarrow>
   n \<le> k \<and> k \<le> length p \<and> m \<noteq> Panic \<and> (m = Ok () \<longrightarrow> k = length p) \<and>
   ew_maxPlaintext w' = ew_maxPlaintext w"
proof (induction "length p - n" arbitrary: w n rule: less_induct)
  case less
  show ?case
  proof (cases "n < length p")
    case True
    let ?stop = "min (n + ew_maxPlaintext w) (length p)"
    obtain res w1 where r: "writeRecordLocked C w (take (?stop - n) (drop n p)) = (res, w1)"
      by fastforce
    have np: "res \<noteq> Panic"
      using writeRecordLocked_ne_Panic [of C w "take (?stop - n) (drop n p)"] r by simp
    show ?thesis
    proof (cases res)
      case (Ok u)
      then have "encWriteLoop C w1 p ?stop = Some ((k, m), w')"
        using less.prems(3) True r by (subst (asm) encWriteLoop.simps) (simp add: Let_def)
      then show ?thesis
        using less.hyps [of ?stop w1] less.prems(1) True writeRecordLocked_keeps(3) [OF r] by force
    next
      case (Err e)
      then have "(k, m) = (n, Err e)" "w' = w1"
        using less.prems(3) True r by (auto simp: encWriteLoop.simps [of C w] Let_def)
      then show ?thesis
        using True writeRecordLocked_keeps(3) [OF r] by simp
    qed (use np in simp)
  next
    case False
    then show ?thesis
      using less.prems by (auto simp: encWriteLoop.simps [of C w])
  qed
qed

text \<open>
  \<open>Write\<close> on an encrypted writer always returns, on a stream that may fail at any point:
  with the whole input accepted and no error, or with the count of bytes whose records went
  out and an error, never with a panic; the writer stays usable.
\<close>

theorem encWrite_total:
  assumes "writer_ok w"
  shows "\<exists>n m w'. encWrite C w p = Some ((n, m), w') \<and> n \<le> length p \<and> m \<noteq> Panic \<and>
    (m = Ok () \<longrightarrow> n = length p) \<and> writer_ok w'"
proof -
  obtain n m w' where e: "encWrite C w p = Some ((n, m), w')"
    using encWrite_returns [OF assms, of C p] by auto
  then show ?thesis
    using assms encWriteLoop_bounds [of w 0 p C n m w']
    by (cases "p = [] \<or> ew_closed w") (auto simp: encWrite_def writer_ok_def split: if_splits)
qed

theorem encWrite_total_witness:
  "\<exists>n m w'. encWrite toy_crypto \<lparr>ew_w = \<lparr>os_data = [], os_script = [WrOk, WrFail 1 EOF]\<rparr>, ew_key = replicate 16 0,
       ew_transcriptHash = [1], ew_maxPlaintext = 2, ew_seq = 0, ew_closed = False\<rparr> [1, 2, 3] = Some ((n, m), w') \<and>
     n \<le> length [1, 2, 3 :: byte] \<and> m \<noteq> Panic \<and> (m = Ok () \<longrightarrow> n = length [1, 2, 3 :: byte]) \<and> writer_ok w'"
  using encWrite_total [of "\<lparr>ew_w = \<lparr>os_data = [], os_script = [WrOk, WrFail 1 EOF]\<rparr>, ew_key = replicate 16 0,
       ew_transcriptHash = [1], ew_maxPlaintext = 2, ew_seq = 0, ew_closed = False\<rparr>" toy_crypto "[1, 2, 3]"]
  by (simp add: writer_ok_def qoru_consts)

text \<open>
  An \<open>E2EClose\<close> frame after any records reaches the reading side as the error it stands
  for: all the data first, then end of file for code 0 and otherwise a \<open>CloseError\<close> with the
  same close code, connect code and message; every later read is end of file.
\<close>

theorem close_delivered:
  assumes "gcm_laws C" "valid_close c" "NewEncryptedReader (Some s) k th = Ok r"
    "is_data s = recordsBytes C k th 0 cs @ frameBytes TypeE2EClose (closeBytes c) @ rest"
    "length cs < 2 ^ 64" "\<forall>p\<in>set cs. length p + gcm_Overhead \<le> MaxE2ECiphertextLength"
    "\<forall>n\<in>set ns. 0 < n" "length (concat cs) < length ns"
  shows "\<exists>r'. drain C r ns = (concat cs,
      Err (if ec_Code c = CloseCodeOK then EOF
           else ErrClose \<lparr>ce_Code = ec_Code c, ce_ConnectCode = ec_ConnectCode c, ce_Message = ec_Message c\<rparr>), r') \<and>
    (\<forall>n. encRead C r' n = (Err EOF, r'))"
proof -
  have "pending C r cs (frameBytes TypeE2EClose (closeBytes c) @ rest)"
    using pending_fresh [OF assms(3) _ assms(5,6)] assms(4) by simp
  from drain_pending [OF assms(1,2) this assms(7)] assms(8) NewEncryptedReader_Ok [OF assms(3)]
  show ?thesis by (auto simp: closeResult_def encRead_def)
qed

theorem close_delivered_witness:
  "\<exists>r r'. NewEncryptedReader (Some \<lparr>is_data = recordsBytes toy_crypto (replicate 32 7) [1] 0 [[5, 6]] @
        frameBytes TypeE2EClose (closeBytes \<lparr>ec_Code = 1, ec_ConnectCode = 4, ec_Message = ''no''\<rparr>) @ [], is_end = EOF\<rparr>)
        (replicate 32 7) [1] = Ok r \<and>
     drain toy_crypto r [1, 5, 9] = ([5, 6], Err (ErrClose \<lparr>ce_Code = 1, ce_ConnectCode = 4, ce_Message = ''no''\<rparr>), r') \<and>
     (\<forall>n. encRead toy_crypto r' n = (Err EOF, r'))"
proof -
  let ?c = "\<lparr>ec_Code = 1, ec_ConnectCode = 4, ec_Message = ''no''\<rparr>"
  let ?s = "\<lparr>is_data = recordsBytes toy_crypto (replicate 32 7) [1] 0 [[5, 6]] @
    frameBytes TypeE2EClose (closeBytes ?c) @ [], is_end = EOF\<rparr>"
  obtain r where r: "NewEncryptedReader (Some ?s) (replicate 32 7) [1] = Ok r"
    by (simp add: NewEncryptedReader_def newRecordAEAD_def aes_NewCipher_def)
  have c: "valid_close ?c"
    by (simp add: valid_close_def ConnectCode_Valid_def qoru_consts)
  show ?thesis
    using close_delivered [OF toy_gcm_laws c r istream.select_convs(1), of "[1, 5, 9]"] r
    by (auto simp: qoru_consts)
qed

text \<open>
  \<open>CloseWrite\<close> is final and idempotent: after it, whether or not its frame got through, a
  second \<open>CloseWrite\<close> succeeds without touching the stream and every non-empty \<open>Write\<close> fails
  with \<open>ErrEncryptedWriterClosed\<close> without writing.
\<close>

theorem closeWrite_final:
  "let w' = snd (encCloseWrite w) in encCloseWrite w' = (Ok (), w') \<and>
    encWrite C w' p = Some ((0, if p = [] then Ok () else Err ErrEncryptedWriterClosed), w')"
  using encCloseWrite_closed [of w] by (auto simp: Let_def encCloseWrite_def encWrite_def)

text \<open>
  A record whose frame could only be sent in part has used its nonce without advancing the
  sequence number: another \<open>Write\<close> on the same writer would use that nonce again.
\<close>

lemma failed_write_keeps_seq:
  assumes "writeRecordLocked C w plaintext = (Err e, w')"
  shows "ew_seq w' = ew_seq w \<and> ew_key w' = ew_key w"
proof (cases "nonceFromSuffix (nonceSuffix (ew_seq w)) gcm_NonceSize")
  case (Ok nonce)
  then show ?thesis
    using assms by (auto simp: writeRecordLocked_def Let_def split: if_splits prod.splits res.splits)
qed (use assms in \<open>auto simp: writeRecordLocked_def Let_def split: if_splits\<close>)

text \<open>
  C35: the end of an encrypted stream is not protected. Once the records \<open>cs\<close> have been sealed,
  whoever carries them can end the stream after any of them, by just closing it or by appending
  a close frame, which holds nothing secret: \<open>Read\<close> reports the regular end of file that stands
  for a complete stream, whatever else the writer has sealed.
\<close>

theorem truncation_unnoticed:
  assumes "gcm_laws C" "tail = [] \<or> tail = frameBytes TypeE2EClose (closeBytes closeOK)"
    and "NewEncryptedReader (Some \<lparr>is_data = recordsBytes C k th 0 cs @ tail, is_end = EOF\<rparr>) k th = Ok r"
    and "length cs < 2 ^ 64" "\<forall>p\<in>set cs. length p + gcm_Overhead \<le> MaxE2ECiphertextLength"
    and "\<forall>n\<in>set ns. 0 < n" "length (concat cs) < length ns"
  shows "\<exists>r'. drain C r ns = (concat cs, Err EOF, r')"
proof -
  have p: "pending C r cs tail" using pending_fresh [OF assms(3) _ assms(4,5)] by simp
  have r: "er_buf r = []" "is_end (er_r r) = EOF"
    using NewEncryptedReader_Ok [OF assms(3)] by (metis istream.select_convs(2) option.inject)+
  from assms(2) show ?thesis
  proof
    assume "tail = []"
    then show ?thesis using drain_cut [OF assms(1) _ assms(6), of r cs] p r assms(7) by auto
  next
    assume "tail = frameBytes TypeE2EClose (closeBytes closeOK)"
    then show ?thesis
      using drain_pending [OF assms(1) valid_closeOK _ assms(6), of r cs "[]"] p r assms(7) by auto
  qed
qed

theorem truncation_unnoticed_witness:
  "\<exists>r r'. NewEncryptedReader (Some \<lparr>is_data = recordsBytes toy_crypto (replicate 32 7) [1] 0 [[5, 6]] @ [], is_end = EOF\<rparr>)
        (replicate 32 7) [1] = Ok r \<and> drain toy_crypto r [1, 5, 9] = ([5, 6], Err EOF, r')"
proof -
  obtain r where r: "NewEncryptedReader (Some \<lparr>is_data = recordsBytes toy_crypto (replicate 32 7) [1] 0 [[5, 6]] @ [], is_end = EOF\<rparr>)
      (replicate 32 7) [1] = Ok r"
    by (simp add: NewEncryptedReader_def newRecordAEAD_def aes_NewCipher_def)
  from truncation_unnoticed [OF toy_gcm_laws disjI1 [OF refl] r, of "[1, 5, 9]"] r show ?thesis
    by (auto simp: qoru_consts)
qed

end
