(* ===== verification/E2E_Handshake_Lemmas.thy ===== *)
theory E2E_Handshake_Lemmas
  imports E2E_Handshake E2E_Record_Lemmas
begin

text \<open>
  Correctness of the handshake: the transcript encoding is injective and separates the
  messages, so a digest binds the whole context and both ephemeral keys; honest messages
  verify; both ends derive the same 32-byte traffic keys.
\<close>

section \<open>The transcript encoding\<close>

definition lenField :: "bytes \<Rightarrow> bytes" where
  "lenField bs = be32 (length bs) @ bs"

lemma writeBytes_eq: "writeBytes buf v = buf @ lenField v"
  by (simp add: writeBytes_def lenField_def)

lemma writeString_eq: "writeString buf v = buf @ lenField (bytes_of v)"
  by (simp add: writeString_def writeBytes_eq)

lemma lenField_inject:
  assumes "lenField a @ x = lenField b @ y" "length a < 4294967296" "length b < 4294967296"
  shows "a = b \<and> x = y"
proof -
  from assms(1) have "be32 (length a) = be32 (length b)" "a @ x = b @ y"
    by (simp_all add: lenField_def)
  moreover from this(1) have "length a = length b"
    using be32_inject assms(2,3) by blast
  ultimately show ?thesis by simp
qed

definition hopFields :: "string list \<Rightarrow> bytes" where
  "hopFields hops = concat (map (\<lambda>h. lenField (bytes_of h)) hops)"

lemma writeHopStrings_eq: "writeHopStrings buf hops = buf @ hopFields hops"
  by (induction hops arbitrary: buf) (simp_all add: writeHopStrings_def hopFields_def writeString_eq)

lemma hopFields_inject:
  "\<lbrakk>hopFields a @ x = hopFields b @ y; length a = length b;
    \<forall>h\<in>set a. length h < 4294967296; \<forall>h\<in>set b. length h < 4294967296\<rbrakk> \<Longrightarrow> a = b \<and> x = y"
proof (induction a arbitrary: b)
  case (Cons h hs)
  then obtain g gs where b: "b = g # gs" by (cases b) auto
  from Cons.prems(1) have "lenField (bytes_of h) @ hopFields hs @ x = lenField (bytes_of g) @ hopFields gs @ y"
    by (simp add: b hopFields_def)
  then have "h = g" "hopFields hs @ x = hopFields gs @ y"
    using Cons.prems(3,4) b by (auto dest!: lenField_inject)
  with Cons.IH [of gs] Cons.prems(2-4) b show ?case by simp
qed (simp add: hopFields_def)

definition keyFields :: "bytes \<Rightarrow> bytes option \<Rightarrow> bytes" where
  "keyFields ce se = lenField ce @ (case se of None \<Rightarrow> [0] | Some k \<Rightarrow> 1 # lenField k)"

definition transcriptBytes :: "string \<Rightarrow> Context \<Rightarrow> bytes \<Rightarrow> bytes option \<Rightarrow> bytes" where
  "transcriptBytes d ctx ce se =
     lenField (bytes_of d) @ lenField (bytes_of (cx_RequestID ctx)) @ lenField (bytes_of (cx_Service ctx)) @
     lenField (bytes_of (cx_Egress ctx)) @ [word_of_nat (length (cx_Route ctx))] @ hopFields (cx_Route ctx) @
     keyFields ce se"

definition valid_context :: "uuid_lib \<Rightarrow> Context \<Rightarrow> bool" where
  "valid_context U ctx \<longleftrightarrow> is_Ok (ParseBytes U (cx_RequestID ctx)) \<and>
     cx_Service ctx \<noteq> [] \<and> length (cx_Service ctx) \<le> MaxTargetLength \<and> length (cx_Egress ctx) \<le> MaxTargetLength \<and>
     length (cx_Route ctx) \<le> 255 \<and> (\<forall>h\<in>set (cx_Route ctx). h \<noteq> [] \<and> length h \<le> MaxTargetLength)"

definition valid_keys :: "bytes \<Rightarrow> bytes option \<Rightarrow> bool" where
  "valid_keys ce se \<longleftrightarrow> length ce = x25519_KeySize \<and> (\<forall>k. se = Some k \<longrightarrow> length k = x25519_KeySize)"

lemma checkEphemeral_Ok: "checkEphemeral who k = Ok () \<longleftrightarrow> length k = x25519_KeySize"
  by (auto simp: checkEphemeral_def x25519_NewPublicKey_def qoru_consts)

lemma hop_checks:
  "forEach (\<lambda>i hop. if hop = [] then Err (e i) else if length hop > n then Err (e' i hop) else Ok ()) i0 hops = Ok ()
   \<longleftrightarrow> (\<forall>h\<in>set hops. h \<noteq> [] \<and> length h \<le> n)"
  by (subst forEach_Ok) (auto simp: all_set_conv_all_nth not_less split: if_splits)

lemma bindR_const_Ok: "bindR m (\<lambda>_. m') = Ok x \<longleftrightarrow> is_Ok m \<and> m' = Ok x"
  by (cases m) auto

lemma is_Ok_unit: "is_Ok m \<longleftrightarrow> m = Ok ()"
  by (cases m) auto

lemma is_Ok_wrapErr [simp]: "is_Ok (wrapErr h m) = is_Ok m"
  by (cases m) auto

lemma marshalTranscript_Ok:
  "marshalTranscript U d ctx ce se = Ok p \<longleftrightarrow>
   d \<noteq> [] \<and> valid_context U ctx \<and> valid_keys ce se \<and> p = transcriptBytes d ctx ce se"
proof -
  have "is_Ok (case se of None \<Rightarrow> Ok () | Some key \<Rightarrow> checkEphemeral ''server'' key) \<longleftrightarrow>
      (\<forall>k. se = Some k \<longrightarrow> length k = x25519_KeySize)"
    by (auto simp: is_Ok_unit checkEphemeral_Ok split: option.splits)
  then show ?thesis
    by (cases se)
      (auto simp: marshalTranscript_def bindR_const_Ok is_Ok_unit hop_checks checkEphemeral_Ok valid_context_def
        valid_keys_def transcriptBytes_def keyFields_def writeString_eq writeBytes_eq writeHopStrings_eq Let_def not_less)
qed

lemma hop_checks_ne_Panic:
  "forEach (\<lambda>i hop. if hop = [] then Err (e i) else if length hop > n then Err (e' i hop) else Ok ()) i0 hops \<noteq> Panic"
  by (rule forEach_ne_Panic) simp

lemma checkEphemeral_ne_Panic: "checkEphemeral who k \<noteq> Panic"
  by (simp add: checkEphemeral_def x25519_NewPublicKey_def)

lemma marshalTranscript_ne_Panic: "uuid_laws U \<Longrightarrow> marshalTranscript U d ctx ce se \<noteq> Panic"
  unfolding marshalTranscript_def Let_def
  by (intro no_Panic_intros hop_checks_ne_Panic checkEphemeral_ne_Panic ParseBytes_ne_Panic)
    (auto simp: checkEphemeral_ne_Panic split: option.splits)

lemma keyFields_inject:
  assumes "keyFields ce se = keyFields ce' se'" "valid_keys ce se" "valid_keys ce' se'"
  shows "ce = ce' \<and> se = se'"
proof -
  have l: "length ce < 4294967296" "length ce' < 4294967296"
    using assms(2,3) by (simp_all add: valid_keys_def qoru_consts)
  have "ce = ce'" and r: "(case se of None \<Rightarrow> [0] | Some k \<Rightarrow> 1 # lenField k) =
      (case se' of None \<Rightarrow> [0] | Some k \<Rightarrow> 1 # lenField k)"
    using lenField_inject [OF assms(1) [unfolded keyFields_def] l] by simp_all
  moreover have "se = se'"
  proof (cases se)
    case None
    with r show ?thesis by (cases se') simp_all
  next
    case (Some k)
    with r obtain k' where k': "se' = Some k'" "lenField k = lenField k'" by (cases se') auto
    with Some show ?thesis
      using assms(2,3) lenField_inject [of k "[]" k' "[]"] by (simp add: valid_keys_def qoru_consts)
  qed
  ultimately show ?thesis by simp
qed

lemma transcriptBytes_inject:
  assumes "uuid_laws U" "transcriptBytes d ctx ce se = transcriptBytes d' ctx' ce' se'"
    and v: "valid_context U ctx" "valid_keys ce se" "length d < 4294967296"
    and v': "valid_context U ctx'" "valid_keys ce' se'" "length d' < 4294967296"
  shows "d = d' \<and> ctx = ctx' \<and> ce = ce' \<and> se = se'"
proof -
  have id: "length (cx_RequestID c) < 4294967296" if "valid_context U c" for c
    using that ParseBytes_input_length [OF assms(1)] by (fastforce simp: valid_context_def is_Ok_iff)
  have sv: "length (cx_Service c) < 4294967296" "length (cx_Egress c) < 4294967296"
    "length (cx_Route c) < 256" "\<forall>h\<in>set (cx_Route c). length h < 4294967296" if "valid_context U c" for c
    using that by (auto simp: valid_context_def qoru_consts)
  note eq = assms(2) [unfolded transcriptBytes_def]
  have 1: "d = d'" "lenField (bytes_of (cx_RequestID ctx)) @ lenField (bytes_of (cx_Service ctx)) @
     lenField (bytes_of (cx_Egress ctx)) @ [word_of_nat (length (cx_Route ctx))] @ hopFields (cx_Route ctx) @ keyFields ce se =
     lenField (bytes_of (cx_RequestID ctx')) @ lenField (bytes_of (cx_Service ctx')) @
     lenField (bytes_of (cx_Egress ctx')) @ [word_of_nat (length (cx_Route ctx'))] @ hopFields (cx_Route ctx') @ keyFields ce' se'"
    using lenField_inject [OF eq] v(3) v'(3) by simp_all
  note 2 = lenField_inject [OF 1(2)]
  have 2: "cx_RequestID ctx = cx_RequestID ctx'" "lenField (bytes_of (cx_Service ctx)) @
     lenField (bytes_of (cx_Egress ctx)) @ [word_of_nat (length (cx_Route ctx))] @ hopFields (cx_Route ctx) @ keyFields ce se =
     lenField (bytes_of (cx_Service ctx')) @
     lenField (bytes_of (cx_Egress ctx')) @ [word_of_nat (length (cx_Route ctx'))] @ hopFields (cx_Route ctx') @ keyFields ce' se'"
    using 2 id [OF v(1)] id [OF v'(1)] by simp_all
  have 3: "cx_Service ctx = cx_Service ctx'"
     "lenField (bytes_of (cx_Egress ctx)) @ [word_of_nat (length (cx_Route ctx))] @ hopFields (cx_Route ctx) @ keyFields ce se =
     lenField (bytes_of (cx_Egress ctx')) @ [word_of_nat (length (cx_Route ctx'))] @ hopFields (cx_Route ctx') @ keyFields ce' se'"
    using lenField_inject [OF 2(2)] sv [OF v(1)] sv [OF v'(1)] by simp_all
  have 4: "cx_Egress ctx = cx_Egress ctx'" "(word_of_nat (length (cx_Route ctx)) :: byte) = word_of_nat (length (cx_Route ctx'))"
     "hopFields (cx_Route ctx) @ keyFields ce se = hopFields (cx_Route ctx') @ keyFields ce' se'"
    using lenField_inject [OF 3(2)] sv [OF v(1)] sv [OF v'(1)] by simp_all
  have "length (cx_Route ctx) = length (cx_Route ctx')"
    using 4(2) unat_byte_of_nat sv(3) [OF v(1)] sv(3) [OF v'(1)] by metis
  with hopFields_inject [OF 4(3)] have 5: "cx_Route ctx = cx_Route ctx'" "keyFields ce se = keyFields ce' se'"
    using sv(4) [OF v(1)] sv(4) [OF v'(1)] by simp_all
  show ?thesis
    using keyFields_inject [OF 5(2) v(2) v'(2)] 1(1) 2(1) 3(1) 4(1) 5(1) by simp
qed

section \<open>Digests, certificates and signatures\<close>

lemma digestTranscript_Ok:
  "digestTranscript C U d ctx ce se = Ok x \<longleftrightarrow>
   d \<noteq> [] \<and> valid_context U ctx \<and> valid_keys ce se \<and> x = sha256_Sum C (transcriptBytes d ctx ce se)"
  by (auto simp: digestTranscript_def bindR_eq_Ok marshalTranscript_Ok)

lemma domains_nonempty [simp]:
  "clientHelloDomain \<noteq> []" "serverHelloDomain \<noteq> []" "clientFinishedDomain \<noteq> []" "transcriptDomain \<noteq> []"
  by (simp_all add: clientHelloDomain_def serverHelloDomain_def clientFinishedDomain_def transcriptDomain_def)

lemma domains_short:
  "length clientHelloDomain < 4294967296" "length serverHelloDomain < 4294967296"
  "length clientFinishedDomain < 4294967296" "length transcriptDomain < 4294967296"
  by (simp_all add: clientHelloDomain_def serverHelloDomain_def clientFinishedDomain_def transcriptDomain_def)

lemma domains_distinct:
  "distinct [clientHelloDomain, serverHelloDomain, clientFinishedDomain, transcriptDomain]"
  by (simp add: clientHelloDomain_def serverHelloDomain_def clientFinishedDomain_def transcriptDomain_def)

lemma nilable_inject: "nilable a = nilable b \<longleftrightarrow> a = b"
  by (auto simp: nilable_def)

lemma nilable_key: "length k = x25519_KeySize \<Longrightarrow> nilable k = Some k"
  by (auto simp: nilable_def qoru_consts)

lemma verifyClientCertificate_Ok:
  "verifyClientCertificate C raws (Some roots) = Ok (leaf, ident) \<longleftrightarrow>
   trusted_chain C raws roots ExtKeyUsageClientAuth leaf \<and> names spiffeNodePrefix leaf ident"
proof
  assume "verifyClientCertificate C raws (Some roots) = Ok (leaf, ident)"
  then obtain certs where "raws \<noteq> []" "parseCerts C ''parse certificate: %w'' raws = Ok certs" "leaf = hd certs"
    "x509_Verify C (hd certs) roots (tl certs) ExtKeyUsageClientAuth = Ok ()" "PeerNodeID certs = Ok ident"
    by (auto simp: verifyClientCertificate_def parseCertificates_def bindR_eq_Ok split: if_splits)
  then show "trusted_chain C raws roots ExtKeyUsageClientAuth leaf \<and> names spiffeNodePrefix leaf ident"
    by (cases certs) (auto simp: parseCerts_Ok trusted_chain_def PeerNodeID_Ok)
next
  assume "trusted_chain C raws roots ExtKeyUsageClientAuth leaf \<and> names spiffeNodePrefix leaf ident"
  then obtain ints where l: "list_all2 (\<lambda>raw cert. x509_Parse C raw = Ok cert) raws (leaf # ints)"
    "x509_Verify C leaf roots ints ExtKeyUsageClientAuth = Ok ()" "names spiffeNodePrefix leaf ident"
    by (auto simp: trusted_chain_def)
  then have "raws \<noteq> []" "parseCerts C ''parse certificate: %w'' raws = Ok (leaf # ints)"
    by (auto simp: parseCerts_Ok)
  then show "verifyClientCertificate C raws (Some roots) = Ok (leaf, ident)"
    using l by (simp add: verifyClientCertificate_def parseCertificates_def PeerNodeID_Ok [THEN iffD2])
qed

lemma verifyClientCertificate_roots:
  "verifyClientCertificate C raws roots = Ok x \<Longrightarrow> \<exists>r. roots = Some r"
  by (cases roots) (auto simp: verifyClientCertificate_def split: if_splits)

lemma VerifyServiceCertificate_roots:
  "VerifyServiceCertificate C raws roots s = Ok x \<Longrightarrow> \<exists>r. roots = Some r"
  by (cases roots) (auto simp: VerifyServiceCertificate_def split: if_splits)

lemma VerifyClientHello_Ok:
  "VerifyClientHello C U ctx h (Some roots) = Ok (ident, leaf) \<longleftrightarrow>
   trusted_chain C (ch_ClientCertChain h) roots ExtKeyUsageClientAuth leaf \<and> names spiffeNodePrefix leaf ident \<and>
   valid_context U ctx \<and> valid_keys (ch_EphemeralPublicKey h) None \<and>
   verifySignature C (Some leaf)
     (sha256_Sum C (transcriptBytes clientHelloDomain ctx (ch_EphemeralPublicKey h) None)) (ch_Signature h) = Ok ()"
  by (auto simp: VerifyClientHello_def bindR_eq_Ok clientHelloDigest_def digestTranscript_Ok
      verifyClientCertificate_Ok)

lemma parseLeaf_trusted:
  "trusted_chain C raws roots usage leaf \<Longrightarrow> parseLeafCertificate C raws = Ok leaf"
  by (cases raws) (auto simp: trusted_chain_def parseLeafCertificate_def)

lemma VerifyServerHello_Ok:
  "VerifyServerHello C U ctx h (Some roots) ce = Ok leaf \<longleftrightarrow>
   trusted_chain C (sh_ServiceCertChain h) roots ExtKeyUsageServerAuth leaf \<and>
   names spiffeServicePrefix leaf (cx_Service ctx) \<and>
   valid_context U ctx \<and> valid_keys ce (nilable (sh_EphemeralPublicKey h)) \<and>
   verifySignature C (Some leaf)
     (sha256_Sum C (transcriptBytes serverHelloDomain ctx ce (nilable (sh_EphemeralPublicKey h)))) (sh_Signature h) = Ok ()"
  (is "?L \<longleftrightarrow> ?R")
proof
  assume ?L
  then obtain leaf' where "VerifyServiceCertificate C (sh_ServiceCertChain h) (Some roots) (cx_Service ctx) = Ok ()"
    "parseLeafCertificate C (sh_ServiceCertChain h) = Ok leaf"
    by (auto simp: VerifyServerHello_def bindR_eq_Ok)
  then have "trusted_chain C (sh_ServiceCertChain h) roots ExtKeyUsageServerAuth leaf \<and>
      names spiffeServicePrefix leaf (cx_Service ctx)"
    using parseLeaf_trusted by (fastforce simp: VerifyServiceCertificate_Ok)
  with \<open>?L\<close> show ?R
    by (auto simp: VerifyServerHello_def bindR_eq_Ok serverHelloDigest_def digestTranscript_Ok)
next
  assume r: ?R
  then have "VerifyServiceCertificate C (sh_ServiceCertChain h) (Some roots) (cx_Service ctx) = Ok ()"
    by (auto simp: VerifyServiceCertificate_Ok valid_context_def)
  with r parseLeaf_trusted show ?L
    by (fastforce simp: VerifyServerHello_def bindR_eq_Ok serverHelloDigest_def digestTranscript_Ok)
qed

lemma VerifyClientFinished_Ok:
  "VerifyClientFinished C U ctx f leaf ce se = Ok () \<longleftrightarrow>
   valid_context U ctx \<and> valid_keys ce (nilable se) \<and>
   verifySignature C leaf (sha256_Sum C (transcriptBytes clientFinishedDomain ctx ce (nilable se))) (cf_Signature f) = Ok ()"
  by (auto simp: VerifyClientFinished_def bindR_eq_Ok clientFinishedDigest_def digestTranscript_Ok)

section \<open>Honest messages verify\<close>

text \<open>A certificate with its own private key: what it signs verifies under its leaf.\<close>

definition cert_signs :: "crypto_lib \<Rightarrow> tls_cert \<Rightarrow> x509_cert \<Rightarrow> bool" where
  "cert_signs C cert leaf \<longleftrightarrow> tc_Certificate cert \<noteq> [] \<and>
     (\<forall>d. \<exists>sg. signDigest C cert d = Ok sg \<and> verifySignature C (Some leaf) d sg = Ok ())"

lemma NewClientHello_verifies:
  assumes "cert_signs C cert leaf" "trusted_chain C (tc_Certificate cert) roots ExtKeyUsageClientAuth leaf"
    "names spiffeNodePrefix leaf ident" "valid_context U ctx" "length ce = x25519_KeySize"
  obtains h where "NewClientHello C U ctx cert ce = Ok h" "ch_EphemeralPublicKey h = ce"
    "ch_ClientCertChain h = tc_Certificate cert" "VerifyClientHello C U ctx h (Some roots) = Ok (ident, leaf)"
proof -
  let ?d = "sha256_Sum C (transcriptBytes clientHelloDomain ctx ce None)"
  obtain sg where sg: "signDigest C cert ?d = Ok sg" "verifySignature C (Some leaf) ?d sg = Ok ()"
    using assms(1) by (auto simp: cert_signs_def)
  have k: "valid_keys ce None" using assms(5) by (simp add: valid_keys_def)
  have "clientHelloDigest C U ctx ce = Ok ?d"
    using assms(4) k by (simp add: clientHelloDigest_def digestTranscript_Ok)
  with assms(1) sg have "NewClientHello C U ctx cert ce =
      Ok \<lparr>ch_ClientCertChain = tc_Certificate cert, ch_EphemeralPublicKey = ce, ch_Signature = sg\<rparr>"
    by (simp add: NewClientHello_def cert_signs_def)
  with that show ?thesis
    using assms k sg(2) by (simp add: VerifyClientHello_Ok)
qed

lemma NewServerHello_verifies:
  assumes "cert_signs C cert leaf" "trusted_chain C (tc_Certificate cert) roots ExtKeyUsageServerAuth leaf"
    "names spiffeServicePrefix leaf (cx_Service ctx)" "valid_context U ctx"
    "length ce = x25519_KeySize" "length se = x25519_KeySize"
  obtains h where "NewServerHello C U ctx cert ce se = Ok h" "sh_EphemeralPublicKey h = se"
    "sh_ServiceCertChain h = tc_Certificate cert" "VerifyServerHello C U ctx h (Some roots) ce = Ok leaf"
proof -
  let ?d = "sha256_Sum C (transcriptBytes serverHelloDomain ctx ce (nilable se))"
  obtain sg where sg: "signDigest C cert ?d = Ok sg" "verifySignature C (Some leaf) ?d sg = Ok ()"
    using assms(1) by (auto simp: cert_signs_def)
  have k: "valid_keys ce (nilable se)" using assms(5,6) by (simp add: valid_keys_def nilable_key)
  have "serverHelloDigest C U ctx ce se = Ok ?d"
    using assms(4) k by (simp add: serverHelloDigest_def digestTranscript_Ok)
  with assms(1) sg have "NewServerHello C U ctx cert ce se =
      Ok \<lparr>sh_ServiceCertChain = tc_Certificate cert, sh_EphemeralPublicKey = se, sh_Signature = sg\<rparr>"
    by (simp add: NewServerHello_def cert_signs_def)
  with that show ?thesis
    using assms k sg(2) by (simp add: VerifyServerHello_Ok)
qed

lemma NewClientFinished_verifies:
  assumes "cert_signs C cert leaf" "valid_context U ctx"
    "length ce = x25519_KeySize" "length se = x25519_KeySize"
  obtains f where "NewClientFinished C U ctx cert ce se = Ok f"
    "VerifyClientFinished C U ctx f (Some leaf) ce se = Ok ()"
proof -
  let ?d = "sha256_Sum C (transcriptBytes clientFinishedDomain ctx ce (nilable se))"
  obtain sg where sg: "signDigest C cert ?d = Ok sg" "verifySignature C (Some leaf) ?d sg = Ok ()"
    using assms(1) by (auto simp: cert_signs_def)
  have k: "valid_keys ce (nilable se)" using assms(3,4) by (simp add: valid_keys_def nilable_key)
  have "clientFinishedDigest C U ctx ce se = Ok ?d"
    using assms(2) k by (simp add: clientFinishedDigest_def digestTranscript_Ok)
  with sg have "NewClientFinished C U ctx cert ce se = Ok \<lparr>cf_Signature = sg\<rparr>"
    by (simp add: NewClientFinished_def)
  with that show ?thesis
    using assms k sg(2) by (simp add: VerifyClientFinished_Ok)
qed

section \<open>Keys\<close>

lemma SharedSecret_agree:
  assumes "x25519_laws C"
  shows "SharedSecret C (Some a) (x25519_PublicKey C b) = SharedSecret C (Some b) (x25519_PublicKey C a)"
  using assms by (simp add: SharedSecret_def x25519_NewPublicKey_def x25519_laws_def)

lemma DeriveTrafficKeys_Ok:
  assumes "hash_laws C" "DeriveTrafficKeys C secret th = Ok k"
  shows "length (tk_ClientToServer k) = 32" "length (tk_ServerToClient k) = 32"
  using assms
  by (auto simp: DeriveTrafficKeys_def hash_laws_def bindR_eq_Ok slice_def sliceFrom_def qoru_consts
      split: if_splits)

lemma DeriveTrafficKeys_ne_Panic:
  assumes "hash_laws C" "hkdf_Key C secret th trafficKeysInfo 64 \<noteq> Panic"
  shows "DeriveTrafficKeys C secret th \<noteq> Panic"
  using assms
  by (auto simp: DeriveTrafficKeys_def hash_laws_def bindR_eq_Panic sliceFrom_def qoru_consts)

section \<open>Properties\<close>

text \<open>
  C10: the transcript is an injective encoding. Two transcripts that are the same bytes were
  made for the same message (domain), the same request identifier, service, egress and route,
  and the same ephemeral keys, the server's key present in both or in neither: a signature or
  key derived from a transcript cannot be reused in another context or for another message.
\<close>

theorem transcript_injective:
  assumes "uuid_laws U" "length d < 2 ^ 32" "length d' < 2 ^ 32"
    "marshalTranscript U d ctx ce se = Ok p" "marshalTranscript U d' ctx' ce' se' = Ok p"
  shows "d = d' \<and> ctx = ctx' \<and> ce = ce' \<and> se = se'"
  using assms by (intro transcriptBytes_inject [of U]) (simp_all add: marshalTranscript_Ok)

definition sample_ctx :: Context where
  "sample_ctx = \<lparr>cx_RequestID = ''abcdefpaaaaaaaaa'', cx_Service = ''echo'', cx_Egress = ''b'', cx_Route = [''a'', ''b'']\<rparr>"

lemma sample_ctx_valid: "valid_context raw_uuid sample_ctx"
  by (simp add: valid_context_def sample_ctx_def raw_uuid_def ParseBytes_def bytes_of_def byte_of_char_def
      of_char_Char qoru_consts)

theorem transcript_injective_witness:
  "\<exists>p. marshalTranscript raw_uuid ''x'' sample_ctx (replicate 32 1) None = Ok p \<and>
     (''x'' = ''x'' \<and> sample_ctx = sample_ctx \<and> replicate 32 1 = (replicate 32 1 :: bytes) \<and> None = (None :: bytes option))"
proof -
  obtain p where p: "marshalTranscript raw_uuid ''x'' sample_ctx (replicate 32 1) None = Ok p"
    using sample_ctx_valid by (auto simp: marshalTranscript_Ok valid_keys_def qoru_consts)
  show ?thesis
    using transcript_injective [OF raw_uuid_laws _ _ p p] p by auto
qed

text \<open>The transcripts a key's owner signed, in the runs \<open>run\<close> it took part in.\<close>

definition transcriptsOf ::
    "uuid_lib \<Rightarrow> string \<Rightarrow> (Context \<Rightarrow> bytes \<Rightarrow> bytes option \<Rightarrow> bool) \<Rightarrow> bytes set" where
  "transcriptsOf U d run = {p. \<exists>ctx ce se. run ctx ce se \<and> marshalTranscript U d ctx ce se = Ok p}"

text \<open>A signature that verifies under the certificate was made by its owner.\<close>

definition unforgeable :: "crypto_lib \<Rightarrow> x509_cert \<Rightarrow> bytes set \<Rightarrow> bool" where
  "unforgeable C leaf made \<longleftrightarrow>
     (\<forall>d sg. verifySignature C (Some leaf) d sg = Ok () \<longrightarrow> d \<in> sha256_Sum C ` made)"

lemma signed_run:
  assumes "uuid_laws U" "transcriptBytes d ctx ce se \<in> transcriptsOf U d' run" "valid_context U ctx"
    "valid_keys ce se" "length d < 4294967296" "length d' < 4294967296"
  shows "d = d' \<and> run ctx ce se"
proof -
  obtain ctx' ce' se' where "run ctx' ce' se'" "marshalTranscript U d' ctx' ce' se' = Ok (transcriptBytes d ctx ce se)"
    using assms(2) by (auto simp: transcriptsOf_def)
  with transcriptBytes_inject [OF assms(1), of d ctx ce se d' ctx' ce' se'] assms(3-6)
  show ?thesis by (auto simp: marshalTranscript_Ok)
qed



text \<open>Primitives under which one digest alone carries a valid signature.\<close>

definition strict_crypto :: "bytes \<Rightarrow> crypto_lib" where
  "strict_crypto p = toy_crypto\<lparr>sha256_Sum := (\<lambda>x. x), ed25519_Verify := (\<lambda>pub d sg. d = p)\<rparr>"



end
