(* ===== verification/Client_E2E.thy ===== *)
theory Client_E2E
  imports E2E_Handshake Quic
begin

text \<open>
  The client's side of the end-to-end handshake (\<^verbatim>\<open>internal/client/e2e.go\<close>) and the routes it is
  run for (the struct \<open>selectedRoute\<close> of \<^verbatim>\<open>internal/client/routes.go\<close>).
\<close>

record selectedRoute =
  sel_service :: string
  sel_egress :: string
  sel_route :: "string list"
  sel_e2eMode :: string

record e2eClientRuntime =
  cl_cert :: tls_cert
  cl_serviceRoots :: cert_pool

definition newE2EClientRuntime :: "file_lib \<Rightarrow> Config \<Rightarrow> e2eClientRuntime option res" where
  "newE2EClientRuntime F cfg =
     (if si_CA (cfg_ServiceIdentity cfg) = [] then Ok None
      else bindR (wrapErr (ErrorfW ''load client e2e certificate/key: %w'' [])
             (fl_LoadX509KeyPair F (ic_Cert (cfg_Identity cfg)) (ic_Key (cfg_Identity cfg)))) (\<lambda>cert.
      bindR (wrapErr (ErrorfW ''load service identity CA: %w'' [])
             (LoadCertPool F (si_CA (cfg_ServiceIdentity cfg)))) (\<lambda>roots.
      Ok (Some \<lparr>cl_cert = cert, cl_serviceRoots = roots\<rparr>))))"

definition serverHelloOrClose :: "Frame \<Rightarrow> E2EServerHello res" where
  "serverHelloOrClose frame =
     (if fr_Type frame = TypeE2EServerHello then DecodeE2EServerHelloPayload (fr_Payload frame)
      else if fr_Type frame = TypeE2EClose then
        bindR (DecodeE2EClosePayload (fr_Payload frame)) (\<lambda>closeFrame.
        Err (ErrClose \<lparr>ce_Code = ec_Code closeFrame, ce_ConnectCode = ec_ConnectCode closeFrame,
                       ce_Message = ec_Message closeFrame\<rparr>))
      else Err (Errorf ''unexpected message type %d'' [FD (uint (fr_Type frame))]))"

definition readE2EServerHelloOrClose :: "istream \<Rightarrow> E2EServerHello res \<times> istream" where
  "readE2EServerHelloOrClose r =
     (case ReadFrame r of (m, r) \<Rightarrow>
        (bindR (wrapErr (ErrorfW ''read e2e server hello: %w'' []) m) serverHelloOrClose, r))"

definition clientContext :: "string \<Rightarrow> selectedRoute \<Rightarrow> Context" where
  "clientContext requestID candidate =
     \<lparr>cx_RequestID = requestID, cx_Service = sel_service candidate, cx_Egress = sel_egress candidate,
      cx_Route = sel_route candidate\<rparr>"

definition clientKeys ::
    "crypto_lib \<Rightarrow> uuid_lib \<Rightarrow> Context \<Rightarrow> bytes option \<Rightarrow> bytes \<Rightarrow> bytes \<Rightarrow> qstream \<Rightarrow>
     (EncryptedReader \<times> EncryptedWriter) res" where
  "clientKeys C U ctx private clientEphemeral serverEphemeral st =
     bindR (phase ''derive_shared_secret'' (SharedSecret C private serverEphemeral)) (\<lambda>sharedSecret.
     bindR (phase ''hash_transcript'' (TranscriptHash C U ctx clientEphemeral serverEphemeral)) (\<lambda>transcriptHash.
     bindR (phase ''derive_traffic_keys'' (DeriveTrafficKeys C sharedSecret transcriptHash)) (\<lambda>keys.
     bindR (phase ''create_encrypted_reader''
              (NewEncryptedReader (Some (qs_in st)) (tk_ServerToClient keys) transcriptHash)) (\<lambda>reader.
     bindR (phase ''create_encrypted_writer''
              (NewEncryptedWriter (Some (qs_out st)) (tk_ClientToServer keys) transcriptHash)) (\<lambda>writer.
     Ok (reader, writer))))))"

definition clientRunHandshake ::
    "crypto_lib \<Rightarrow> uuid_lib \<Rightarrow> e2eClientRuntime option \<Rightarrow> bytes res \<Rightarrow> string \<Rightarrow> selectedRoute \<Rightarrow> qstream \<Rightarrow>
     (EncryptedReader \<times> EncryptedWriter) res \<times> qstream" where
  "clientRunHandshake C U rto drawn requestID candidate st =
     (case rto of None \<Rightarrow> (Err (Errorf ''service_identity.ca is required for e2e handshake'' []), st) | Some rt \<Rightarrow>
      let handshakeCtx = clientContext requestID candidate in
      pureThen (phase ''generate_client_ephemeral'' (GenerateEphemeralKey C drawn)) st (\<lambda>clientEphemeral.
      pureThen (phase ''sign_client_hello'' (NewClientHello C U handshakeCtx (cl_cert rt) (kp_Public clientEphemeral))) st (\<lambda>clientHello.
      let (wrote, st) = onOut (\<lambda>w. WriteE2EClientHello w clientHello) st in
      pureThen (phase ''write_client_hello'' (wrapErr (ErrorfW ''write e2e client hello: %w'' []) wrote)) st (\<lambda>_.
      let (hello, st) = onIn readE2EServerHelloOrClose st in
      pureThen (phase ''read_server_hello'' hello) st (\<lambda>serverHello.
      pureThen (phase ''verify_server_hello''
          (VerifyServerHello C U handshakeCtx serverHello (Some (cl_serviceRoots rt)) (ch_EphemeralPublicKey clientHello))) st (\<lambda>_.
      pureThen (phase ''sign_client_finished''
          (NewClientFinished C U handshakeCtx (cl_cert rt) (ch_EphemeralPublicKey clientHello)
             (sh_EphemeralPublicKey serverHello))) st (\<lambda>finished.
      let (wrote, st) = onOut (\<lambda>w. WriteE2EClientFinished w finished) st in
      pureThen (phase ''write_client_finished'' (wrapErr (ErrorfW ''write e2e client finished: %w'' []) wrote)) st (\<lambda>_.
      pureThen (clientKeys C U handshakeCtx (kp_Private clientEphemeral) (ch_EphemeralPublicKey clientHello)
          (sh_EphemeralPublicKey serverHello) st) st (\<lambda>rw.
      (Ok rw, st))))))))))"

end
