(* ===== verification/E2E_Session.thy ===== *)
theory E2E_Session
  imports E2E_Handshake_Lemmas Server_E2E Client_E2E
begin

text \<open>
  The two sides of the handshake together: an honest client and an honest server that agree
  on the context complete it over a stream, end with matching keys, and then have a byte
  stream in each direction.
\<close>

section \<open>The client's first answer\<close>

lemma readE2EServerHelloOrClose_hello:
  assumes "serverHelloPayload m = Ok p" "length p \<le> MaxPayloadSize"
  shows "readE2EServerHelloOrClose \<lparr>is_data = frameBytes TypeE2EServerHello p @ rest, is_end = e\<rparr> =
    (Ok m, \<lparr>is_data = rest, is_end = e\<rparr>)"
  using serverHello.dec_enc [OF TrueI TrueI assms]
  by (simp add: readE2EServerHelloOrClose_def ReadFrame_frameBytes [OF assms(2)] serverHelloOrClose_def
      serverHelloOfFrame_def)

lemma readE2EServerHelloOrClose_close:
  assumes "valid_close c"
  shows "readE2EServerHelloOrClose \<lparr>is_data = frameBytes TypeE2EClose (closeBytes c) @ rest, is_end = e\<rparr> =
    (Err (ErrClose \<lparr>ce_Code = ec_Code c, ce_ConnectCode = ec_ConnectCode c, ce_Message = ec_Message c\<rparr>),
     \<lparr>is_data = rest, is_end = e\<rparr>)"
  using DecodeE2EClosePayload_closeBytes [OF assms]
  by (simp add: readE2EServerHelloOrClose_def ReadFrame_frameBytes [OF length_closeBytes [OF assms]]
      serverHelloOrClose_def qoru_consts)

section \<open>Honest parties\<close>

text \<open>A certificate whose chain and signatures fit the messages.\<close>

definition wire_cert :: "crypto_lib \<Rightarrow> tls_cert \<Rightarrow> x509_cert \<Rightarrow> bool" where
  "wire_cert C cert leaf \<longleftrightarrow> cert_signs C cert leaf \<and>
     (\<forall>d sg key. signDigest C cert d = Ok sg \<longrightarrow> length key = x25519_KeySize \<longrightarrow>
        valid_hello (tc_Certificate cert) key sg)"

lemma wire_clientHello:
  assumes "wire_cert C cert leaf" "NewClientHello C U ctx cert ce = Ok h" "length ce = x25519_KeySize"
  obtains p where "clientHelloPayload h = Ok p" "length p \<le> MaxPayloadSize"
proof -
  have "valid_hello (ch_ClientCertChain h) (ch_EphemeralPublicKey h) (ch_Signature h)"
    using assms by (auto simp: NewClientHello_def bindR_eq_Ok wire_cert_def split: if_splits)
  with that show ?thesis
    by (auto simp: clientHelloPayload_def marshalE2EHello_Ok valid_hello_def)
qed

lemma wire_serverHello:
  assumes "wire_cert C cert leaf" "NewServerHello C U ctx cert ce se = Ok h" "length se = x25519_KeySize"
  obtains p where "serverHelloPayload h = Ok p" "length p \<le> MaxPayloadSize"
proof -
  have "valid_hello (sh_ServiceCertChain h) (sh_EphemeralPublicKey h) (sh_Signature h)"
    using assms by (auto simp: NewServerHello_def bindR_eq_Ok wire_cert_def split: if_splits)
  with that show ?thesis
    by (auto simp: serverHelloPayload_def marshalE2EHello_Ok valid_hello_def)
qed

lemma wire_finished:
  assumes "wire_cert C cert leaf" "NewClientFinished C U ctx cert ce se = Ok f"
  obtains p where "finishedPayload f = Ok p" "length p \<le> MaxPayloadSize"
proof -
  obtain d where "signDigest C cert d = Ok (cf_Signature f)"
    using assms(2) by (auto simp: NewClientFinished_def bindR_eq_Ok)
  then have "valid_hello (tc_Certificate cert) (replicate x25519_KeySize 0) (cf_Signature f)"
    using assms(1) by (simp add: wire_cert_def)
  then have "ok_field MaxE2EFinishedSignatureLength (cf_Signature f)"
    by (simp add: valid_hello_def qoru_consts)
  moreover from this have "length (finishedBytes f) \<le> MaxPayloadSize"
    by (simp add: finishedBytes_def ok_field_def qoru_consts)
  ultimately show ?thesis
    using that by (simp add: finishedPayload_Ok)
qed

text \<open>Both ends derive a usable secret from the ephemeral keys.\<close>

definition key_exchange :: "crypto_lib \<Rightarrow> bytes \<Rightarrow> bytes \<Rightarrow> bool" where
  "key_exchange C a b \<longleftrightarrow> x25519_laws C \<and> hash_laws C \<and>
     (\<exists>z. x25519_ECDH C a (x25519_PublicKey C b) = Ok z \<and> z \<noteq> [] \<and>
        (\<forall>th. is_Ok (hkdf_Key C z th trafficKeysInfo (trafficKeySize * 2))))"

definition fresh_reader :: "istream \<Rightarrow> bytes \<Rightarrow> bytes \<Rightarrow> EncryptedReader" where
  "fresh_reader i k th = \<lparr>er_r = i, er_key = k, er_transcriptHash = th, er_seq = 0, er_buf = [], er_closed = False\<rparr>"

definition fresh_writer :: "ostream \<Rightarrow> bytes \<Rightarrow> bytes \<Rightarrow> EncryptedWriter" where
  "fresh_writer o' k th = \<lparr>ew_w = o', ew_key = k, ew_transcriptHash = th,
     ew_maxPlaintext = MaxE2ECiphertextLength - gcm_Overhead, ew_seq = 0, ew_closed = False\<rparr>"

lemma NewEncryptedReader_fresh:
  "length k = 32 \<Longrightarrow> th \<noteq> [] \<Longrightarrow> NewEncryptedReader (Some i) k th = Ok (fresh_reader i k th)"
  by (simp add: NewEncryptedReader_def newRecordAEAD_def aes_NewCipher_def fresh_reader_def)

lemma NewEncryptedWriter_fresh:
  "length k = 32 \<Longrightarrow> th \<noteq> [] \<Longrightarrow> NewEncryptedWriter (Some w) k th = Ok (fresh_writer w k th)"
  by (simp add: NewEncryptedWriter_def newRecordAEAD_def aes_NewCipher_def fresh_writer_def qoru_consts)

lemma derived_keys:
  assumes "key_exchange C a b" "valid_context U ctx"
  obtains th z ks where "TranscriptHash C U ctx (x25519_PublicKey C a) (x25519_PublicKey C b) = Ok th" "th \<noteq> []"
    "SharedSecret C (Some a) (x25519_PublicKey C b) = Ok z" "SharedSecret C (Some b) (x25519_PublicKey C a) = Ok z"
    "DeriveTrafficKeys C z th = Ok ks" "length (tk_ClientToServer ks) = 32" "length (tk_ServerToClient ks) = 32"
proof -
  let ?ce = "x25519_PublicKey C a" and ?se = "x25519_PublicKey C b"
  let ?th = "sha256_Sum C (transcriptBytes transcriptDomain ctx ?ce (nilable ?se))"
  have laws: "x25519_laws C" "hash_laws C" using assms(1) by (simp_all add: key_exchange_def)
  then have len: "length ?ce = x25519_KeySize" "length ?se = x25519_KeySize"
    by (simp_all add: x25519_laws_def)
  have th: "TranscriptHash C U ctx ?ce ?se = Ok ?th"
    using assms(2) len by (simp add: TranscriptHash_def digestTranscript_Ok valid_keys_def nilable_key)
  have "length ?th = 32" using laws(2) by (simp add: hash_laws_def)
  then have ne: "?th \<noteq> []" by (metis list.size(3) zero_neq_numeral)
  obtain z where z: "x25519_ECDH C a ?se = Ok z" "z \<noteq> []"
    "is_Ok (hkdf_Key C z ?th trafficKeysInfo (trafficKeySize * 2))"
    using assms(1) by (auto simp: key_exchange_def)
  then obtain km where km: "hkdf_Key C z ?th trafficKeysInfo (trafficKeySize * 2) = Ok km"
    by (auto simp: is_Ok_iff)
  then have "length km = 64" using laws(2) by (auto simp: hash_laws_def qoru_consts)
  then obtain ks where ks: "DeriveTrafficKeys C z ?th = Ok ks"
    using z ne km by (simp add: DeriveTrafficKeys_def slice_def sliceFrom_def qoru_consts)
  have s1: "SharedSecret C (Some a) ?se = Ok z"
    using z(1) len by (simp add: SharedSecret_def x25519_NewPublicKey_def)
  show ?thesis
    using that [OF th ne s1 _ ks DeriveTrafficKeys_Ok [OF laws(2) ks]] s1 SharedSecret_agree [OF laws(1), of a b] by simp
qed

text \<open>
  Everything an honest run rests on: the two certificates with their chains, identities and
  authorisation, the target that can be prepared, the ephemeral keys \<open>a\<close> (client) and \<open>b\<close>.
\<close>

definition honest_run ::
    "crypto_lib \<Rightarrow> uuid_lib \<Rightarrow> e2eClientRuntime \<Rightarrow> e2eServerRuntime \<Rightarrow> ServiceConfig \<Rightarrow> Context \<Rightarrow>
     string \<Rightarrow> bytes \<Rightarrow> bytes \<Rightarrow> bool" where
  "honest_run C U crt rt svc ctx ident a b \<longleftrightarrow>
     valid_context U ctx \<and> key_exchange C a b \<and>
     (\<exists>leaf. wire_cert C (cl_cert crt) leaf \<and>
        trusted_chain C (tc_Certificate (cl_cert crt)) (sr_nodeRoots rt) ExtKeyUsageClientAuth leaf \<and>
        names spiffeNodePrefix leaf ident) \<and>
     (\<exists>cert leaf. serviceCertificate rt svc = Ok cert \<and> wire_cert C cert leaf \<and>
        trusted_chain C (tc_Certificate cert) (cl_serviceRoots crt) ExtKeyUsageServerAuth leaf \<and>
        names spiffeServicePrefix leaf (cx_Service ctx)) \<and>
     (sv_Peers svc = [] \<or> ident \<in> set (sv_Peers svc))"

lemma honest_keys:
  assumes "honest_run C U crt rt svc ctx ident a b"
  shows "length (x25519_PublicKey C a) = x25519_KeySize" "length (x25519_PublicKey C b) = x25519_KeySize"
  using assms by (simp_all add: honest_run_def key_exchange_def x25519_laws_def)

text \<open>The messages of an honest run and their bytes.\<close>

lemma honest_messages:
  assumes "honest_run C U crt rt svc ctx ident a b"
  obtains h leaf ph cert sh ps f pf where
    "NewClientHello C U ctx (cl_cert crt) (x25519_PublicKey C a) = Ok h" "ch_EphemeralPublicKey h = x25519_PublicKey C a"
    "VerifyClientHello C U ctx h (Some (sr_nodeRoots rt)) = Ok (ident, leaf)"
    "clientHelloPayload h = Ok ph" "length ph \<le> MaxPayloadSize"
    "serviceCertificate rt svc = Ok cert"
    "NewServerHello C U ctx cert (x25519_PublicKey C a) (x25519_PublicKey C b) = Ok sh"
    "sh_EphemeralPublicKey sh = x25519_PublicKey C b"
    "is_Ok (VerifyServerHello C U ctx sh (Some (cl_serviceRoots crt)) (x25519_PublicKey C a))"
    "serverHelloPayload sh = Ok ps" "length ps \<le> MaxPayloadSize"
    "NewClientFinished C U ctx (cl_cert crt) (x25519_PublicKey C a) (x25519_PublicKey C b) = Ok f"
    "VerifyClientFinished C U ctx f (Some leaf) (x25519_PublicKey C a) (x25519_PublicKey C b) = Ok ()"
    "finishedPayload f = Ok pf" "length pf \<le> MaxPayloadSize"
proof -
  note k = honest_keys [OF assms]
  obtain leaf where c: "wire_cert C (cl_cert crt) leaf"
      "trusted_chain C (tc_Certificate (cl_cert crt)) (sr_nodeRoots rt) ExtKeyUsageClientAuth leaf"
      "names spiffeNodePrefix leaf ident"
    using assms by (auto simp: honest_run_def)
  obtain cert sleaf where s: "serviceCertificate rt svc = Ok cert" "wire_cert C cert sleaf"
      "trusted_chain C (tc_Certificate cert) (cl_serviceRoots crt) ExtKeyUsageServerAuth sleaf"
      "names spiffeServicePrefix sleaf (cx_Service ctx)"
    using assms by (auto simp: honest_run_def)
  have v: "valid_context U ctx" using assms by (simp add: honest_run_def)
  have sg: "cert_signs C (cl_cert crt) leaf" "cert_signs C cert sleaf"
    using c(1) s(2) by (simp_all add: wire_cert_def)
  obtain h where h: "NewClientHello C U ctx (cl_cert crt) (x25519_PublicKey C a) = Ok h"
      "ch_EphemeralPublicKey h = x25519_PublicKey C a" "VerifyClientHello C U ctx h (Some (sr_nodeRoots rt)) = Ok (ident, leaf)"
    using NewClientHello_verifies [OF sg(1) c(2,3) v k(1)] .
  obtain sh where sh: "NewServerHello C U ctx cert (x25519_PublicKey C a) (x25519_PublicKey C b) = Ok sh"
      "sh_EphemeralPublicKey sh = x25519_PublicKey C b"
      "VerifyServerHello C U ctx sh (Some (cl_serviceRoots crt)) (x25519_PublicKey C a) = Ok sleaf"
    using NewServerHello_verifies [OF sg(2) s(3,4) v k] .
  obtain f where f: "NewClientFinished C U ctx (cl_cert crt) (x25519_PublicKey C a) (x25519_PublicKey C b) = Ok f"
      "VerifyClientFinished C U ctx f (Some leaf) (x25519_PublicKey C a) (x25519_PublicKey C b) = Ok ()"
    using NewClientFinished_verifies [OF sg(1) v k] .
  obtain ph where ph: "clientHelloPayload h = Ok ph" "length ph \<le> MaxPayloadSize"
    using wire_clientHello [OF c(1) h(1) k(1)] .
  obtain ps where ps: "serverHelloPayload sh = Ok ps" "length ps \<le> MaxPayloadSize"
    using wire_serverHello [OF s(2) sh(1) k(2)] .
  obtain pf where pf: "finishedPayload f = Ok pf" "length pf \<le> MaxPayloadSize"
    using wire_finished [OF c(1) f(1)] .
  show ?thesis
    using that [OF h ph s(1) sh(1,2) _ ps f pf] sh(3) by simp
qed

text \<open>Streams of one connection: what one side will send is what the other will receive.\<close>

definition stream_on :: "bytes \<Rightarrow> go_error \<Rightarrow> bytes \<Rightarrow> qstream" where
  "stream_on incoming e sent =
     \<lparr>qs_in = \<lparr>is_data = incoming, is_end = e\<rparr>, qs_out = \<lparr>os_data = sent, os_script = []\<rparr>, qs_closed = False\<rparr>"

lemma handshake_lemma:
  assumes h: "honest_run C U crt rt svc (clientContext rid cand) ident a b"
    and ctx: "serverContext req = clientContext rid cand" and tgt: "prepare ident = Ok target"
  shows "\<exists>cb sb kc ks th. length kc = 32 \<and> length ks = 32 \<and> th \<noteq> [] \<and>
    (\<forall>rest e sent. clientRunHandshake C U (Some crt) (Ok a) rid cand (stream_on (sb @ rest) e sent) =
       (Ok (fresh_reader \<lparr>is_data = rest, is_end = e\<rparr> ks th, fresh_writer \<lparr>os_data = sent @ cb, os_script = []\<rparr> kc th),
        stream_on rest e (sent @ cb))) \<and>
    (\<forall>rest e sent. serverRunHandshake C U (Some rt) req svc (Ok b) prepare (stream_on (cb @ rest) e sent) =
       (Ok \<lparr>hr_reader = fresh_reader \<lparr>is_data = rest, is_end = e\<rparr> kc th,
            hr_writer = fresh_writer \<lparr>os_data = sent @ sb, os_script = []\<rparr> ks th, hr_clientID = ident\<rparr>,
        stream_on rest e (sent @ sb), Some target))"
proof -
  let ?ctx = "clientContext rid cand" and ?ce = "x25519_PublicKey C a" and ?se = "x25519_PublicKey C b"
  obtain h leaf ph cert sh ps f pf where m:
    "NewClientHello C U ?ctx (cl_cert crt) ?ce = Ok h" "ch_EphemeralPublicKey h = ?ce"
    "VerifyClientHello C U ?ctx h (Some (sr_nodeRoots rt)) = Ok (ident, leaf)"
    "clientHelloPayload h = Ok ph" "length ph \<le> MaxPayloadSize"
    "serviceCertificate rt svc = Ok cert"
    "NewServerHello C U ?ctx cert ?ce ?se = Ok sh" "sh_EphemeralPublicKey sh = ?se"
    "is_Ok (VerifyServerHello C U ?ctx sh (Some (cl_serviceRoots crt)) ?ce)"
    "serverHelloPayload sh = Ok ps" "length ps \<le> MaxPayloadSize"
    "NewClientFinished C U ?ctx (cl_cert crt) ?ce ?se = Ok f"
    "VerifyClientFinished C U ?ctx f (Some leaf) ?ce ?se = Ok ()"
    "finishedPayload f = Ok pf" "length pf \<le> MaxPayloadSize"
    using honest_messages [OF h] .
  obtain sleaf where sl: "VerifyServerHello C U ?ctx sh (Some (cl_serviceRoots crt)) ?ce = Ok sleaf"
    using m(9) by (auto simp: is_Ok_iff)
  obtain th z keys where k: "TranscriptHash C U ?ctx ?ce ?se = Ok th" "th \<noteq> []"
    "SharedSecret C (Some a) ?se = Ok z" "SharedSecret C (Some b) ?ce = Ok z" "DeriveTrafficKeys C z th = Ok keys"
    "length (tk_ClientToServer keys) = 32" "length (tk_ServerToClient keys) = 32"
    using derived_keys h by (metis honest_run_def)
  have auth: "authorizeServicePeer svc ident (rq_Protocol req) (rq_Service req) = Ok ()"
    using h by (simp add: honest_run_def authorizeServicePeer_Ok)
  have ck: "clientKeys C U ?ctx (Some a) ?ce ?se st = Ok (fresh_reader (qs_in st) (tk_ServerToClient keys) th,
      fresh_writer (qs_out st) (tk_ClientToServer keys) th)" for st
    using k by (simp add: clientKeys_def NewEncryptedReader_fresh NewEncryptedWriter_fresh)
  have sk: "serverKeys C U ?ctx (Some b) ?ce ?se st = Ok (fresh_reader (qs_in st) (tk_ClientToServer keys) th,
      fresh_writer (qs_out st) (tk_ServerToClient keys) th)" for st
    using k by (simp add: serverKeys_def NewEncryptedReader_fresh NewEncryptedWriter_fresh)
  let ?H = "frameBytes TypeE2EClientHello ph" and ?S = "frameBytes TypeE2EServerHello ps"
    and ?F = "frameBytes TypeE2EClientFinished pf"
  have c: "clientRunHandshake C U (Some crt) (Ok a) rid cand (stream_on (?S @ rest) e sent) =
       (Ok (fresh_reader \<lparr>is_data = rest, is_end = e\<rparr> (tk_ServerToClient keys) th,
            fresh_writer \<lparr>os_data = sent @ ?H @ ?F, os_script = []\<rparr> (tk_ClientToServer keys) th),
        stream_on rest e (sent @ ?H @ ?F))" for rest e sent
    using m sl ck
    by (simp add: clientRunHandshake_def stream_on_def GenerateEphemeralKey_def onOut_def onIn_def
        clientHello.write_enc e2eFinished.write_enc readE2EServerHelloOrClose_hello)
  have sv: "serverRunHandshake C U (Some rt) req svc (Ok b) prepare (stream_on ((?H @ ?F) @ rest) e sent) =
       (Ok \<lparr>hr_reader = fresh_reader \<lparr>is_data = rest, is_end = e\<rparr> (tk_ClientToServer keys) th,
            hr_writer = fresh_writer \<lparr>os_data = sent @ ?S, os_script = []\<rparr> (tk_ServerToClient keys) th, hr_clientID = ident\<rparr>,
        stream_on rest e (sent @ ?S), Some target)" for rest e sent
    using m sk auth tgt
    by (simp add: serverRunHandshake_def ctx stream_on_def GenerateEphemeralKey_def onOut_def onIn_def
        clientHello.read_enc [where m = h] serverHello.write_enc e2eFinished.read_enc [where m = f])
  show ?thesis
    using c sv k(2,6,7)
    by (intro exI [of _ "?H @ ?F"] exI [of _ ?S] exI [of _ "tk_ClientToServer keys"]
        exI [of _ "tk_ServerToClient keys"] exI [of _ th]) simp
qed

section \<open>Properties\<close>

text \<open>
  A writer and a reader (as a function of its incoming stream) form a channel: whatever is
  written in any pieces and then closed arrives, complete and in order, followed by end of file.
\<close>

definition channel :: "crypto_lib \<Rightarrow> EncryptedWriter \<Rightarrow> (istream \<Rightarrow> EncryptedReader) \<Rightarrow> bool" where
  "channel C w rd \<longleftrightarrow> (\<forall>ps. length (concat ps) < 2 ^ 64 \<longrightarrow>
     (\<exists>w1 w2 d. encWriteMany C w ps = Some (Ok (), w1) \<and> encCloseWrite w1 = (Ok (), w2) \<and>
        os_data (ew_w w2) = os_data (ew_w w) @ d \<and>
        (\<forall>rest e ns. (\<forall>n\<in>set ns. 0 < n) \<longrightarrow> length (concat ps) < length ns \<longrightarrow>
           (\<exists>r'. drain C (rd \<lparr>is_data = d @ rest, is_end = e\<rparr>) ns = (concat ps, Err EOF, r')))))"

lemma fresh_channel:
  assumes "gcm_laws C"
  shows "channel C (fresh_writer \<lparr>os_data = sent, os_script = []\<rparr> k th) (\<lambda>i. fresh_reader i k th)"
  unfolding channel_def
proof (intro allI impI)
  fix ps :: "bytes list"
  assume len: "length (concat ps) < 2 ^ 64"
  let ?w = "fresh_writer \<lparr>os_data = sent, os_script = []\<rparr> k th"
  have w: "writer_ok ?w" "reliable (ew_w ?w)" "\<not> ew_closed ?w" "ew_seq ?w = 0" "ew_key ?w = k" "ew_transcriptHash ?w = th"
    by (simp_all add: fresh_writer_def writer_ok_def qoru_consts)
  have r: "is_data (er_r (fresh_reader i k th)) = is_data i" "er_key (fresh_reader i k th) = k"
    "er_transcriptHash (fresh_reader i k th) = th" "er_seq (fresh_reader i k th) = 0"
    "er_buf (fresh_reader i k th) = []" "\<not> er_closed (fresh_reader i k th)" for i
    by (simp_all add: fresh_reader_def)
  from record_channel [OF assms w(1-4) len] w(5,6)
  obtain w1 w2 d where 1: "encWriteMany C ?w ps = Some (Ok (), w1)" "encCloseWrite w1 = (Ok (), w2)"
      "os_data (ew_w w2) = os_data (ew_w ?w) @ d" and 2: "reads_back C k th d ps"
    by auto
  have "\<exists>r'. drain C (fresh_reader \<lparr>is_data = d @ rest, is_end = e\<rparr> k th) ns = (concat ps, Err EOF, r')"
    if "\<forall>n\<in>set ns. 0 < n" "length (concat ps) < length ns" for rest e ns
    using r that by (intro reads_backD [OF 2]) simp_all
  with 1 show "\<exists>w1 w2 d. encWriteMany C ?w ps = Some (Ok (), w1) \<and> encCloseWrite w1 = (Ok (), w2) \<and>
      os_data (ew_w w2) = os_data (ew_w ?w) @ d \<and>
      (\<forall>rest e ns. (\<forall>n\<in>set ns. 0 < n) \<longrightarrow> length (concat ps) < length ns \<longrightarrow>
        (\<exists>r'. drain C (fresh_reader \<lparr>is_data = d @ rest, is_end = e\<rparr> k th) ns = (concat ps, Err EOF, r')))"
    by blast
qed

text \<open>
  The end-to-end layer works end to end. When an honest client and an honest egress server
  hold the same context, with certificates the other side trusts, the client authorised for
  the service and the target reachable, there are bytes \<open>cb\<close> and \<open>sb\<close> such that the client,
  receiving \<open>sb\<close>, completes the handshake and sends \<open>cb\<close>, and the server, receiving \<open>cb\<close>,
  completes it, sends \<open>sb\<close>, learns the client's node identity and has prepared the target;
  and the readers and writers they end up with form a channel in each direction.
\<close>

theorem e2e_session_complete:
  assumes "honest_run C U crt rt svc (clientContext rid cand) ident a b" "gcm_laws C"
    and "serverContext req = clientContext rid cand" "prepare ident = Ok target"
  shows "\<exists>cb sb cr cw sr sw.
    (\<forall>rest e sent. clientRunHandshake C U (Some crt) (Ok a) rid cand (stream_on (sb @ rest) e sent) =
       (Ok (cr \<lparr>is_data = rest, is_end = e\<rparr>, cw (sent @ cb)), stream_on rest e (sent @ cb))) \<and>
    (\<forall>rest e sent. serverRunHandshake C U (Some rt) req svc (Ok b) prepare (stream_on (cb @ rest) e sent) =
       (Ok \<lparr>hr_reader = sr \<lparr>is_data = rest, is_end = e\<rparr>, hr_writer = sw (sent @ sb), hr_clientID = ident\<rparr>,
        stream_on rest e (sent @ sb), Some target)) \<and>
    (\<forall>sent. os_data (ew_w (cw sent)) = sent \<and> os_data (ew_w (sw sent)) = sent \<and>
       channel C (cw sent) sr \<and> channel C (sw sent) cr)"
proof -
  obtain cb sb kc ks th where
    1: "\<And>rest e sent. clientRunHandshake C U (Some crt) (Ok a) rid cand (stream_on (sb @ rest) e sent) =
       (Ok (fresh_reader \<lparr>is_data = rest, is_end = e\<rparr> ks th, fresh_writer \<lparr>os_data = sent @ cb, os_script = []\<rparr> kc th),
        stream_on rest e (sent @ cb))"
    and 2: "\<And>rest e sent. serverRunHandshake C U (Some rt) req svc (Ok b) prepare (stream_on (cb @ rest) e sent) =
       (Ok \<lparr>hr_reader = fresh_reader \<lparr>is_data = rest, is_end = e\<rparr> kc th,
            hr_writer = fresh_writer \<lparr>os_data = sent @ sb, os_script = []\<rparr> ks th, hr_clientID = ident\<rparr>,
        stream_on rest e (sent @ sb), Some target)"
    using handshake_lemma [where prepare = prepare, OF assms(1,3,4)] by blast
  show ?thesis
    using 1 2 fresh_channel [OF assms(2)]
    by (intro exI [of _ cb] exI [of _ sb] exI [of _ "\<lambda>i. fresh_reader i ks th"]
        exI [of _ "\<lambda>d. fresh_writer \<lparr>os_data = d, os_script = []\<rparr> kc th"] exI [of _ "\<lambda>i. fresh_reader i kc th"]
        exI [of _ "\<lambda>d. fresh_writer \<lparr>os_data = d, os_script = []\<rparr> ks th"])
      (simp add: fresh_writer_def)
qed

text \<open>A concrete honest pair.\<close>

definition toy_cert :: "string \<Rightarrow> tls_cert" where
  "toy_cert uri = \<lparr>tc_Certificate = [bytes_of uri], tc_PrivateKey = Signer (PubEd25519 []) []\<rparr>"

definition toy_client :: e2eClientRuntime where
  "toy_client = \<lparr>cl_cert = toy_cert ''spiffe://qoru/node/c1'', cl_serviceRoots = [1]\<rparr>"

definition toy_service :: ServiceConfig where
  "toy_service = \<lparr>sv_Name = ''echo'', sv_Protocol = ''tcp'', sv_Target = ''h:7'', sv_Peers = [''c1''],
     sv_E2E = \<lparr>se_Cert = ''x'', se_Key = ''y''\<rparr>\<rparr>"

definition toy_server :: e2eServerRuntime where
  "toy_server = \<lparr>sr_nodeRoots = [2],
     sr_serviceCerts = [serviceE2ECacheKey toy_service \<mapsto> toy_cert ''spiffe://qoru/service/echo'']\<rparr>"

definition toy_candidate :: selectedRoute where
  "toy_candidate = \<lparr>sel_service = ''echo'', sel_egress = ''b'', sel_route = [''a'', ''b''], sel_e2eMode = ''always''\<rparr>"

definition toy_request :: ConnectRequest where
  "toy_request = \<lparr>rq_RequestID = ''abcdefpaaaaaaaaa'', rq_Protocol = ''tcp'', rq_Service = ''echo'', rq_Egress = ''b'',
     rq_Route = [''b''], rq_E2ERequired = True, rq_E2ERoute = [''a'', ''b'']\<rparr>"

lemma toy_wire_cert:
  assumes "uri \<noteq> []" "length uri \<le> 100"
  shows "wire_cert toy_crypto (toy_cert uri) \<lparr>xc_URIs = [uri], xc_PublicKey = PubEd25519 []\<rparr>"
  using assms
  by (auto simp: wire_cert_def cert_signs_def toy_cert_def toy_crypto_def signDigest_def verifySignature_def
      parseLeafCertificate_def valid_hello_def ok_field_def helloBytes_def qoru_consts
      simp flip: length_greater_0_conv)

lemma toy_honest:
  "honest_run toy_crypto raw_uuid toy_client toy_server toy_service
     (clientContext ''abcdefpaaaaaaaaa'' toy_candidate) ''c1'' [3] [4]"
proof -
  have ctx: "clientContext ''abcdefpaaaaaaaaa'' toy_candidate = sample_ctx"
    by (simp add: clientContext_def toy_candidate_def sample_ctx_def)
  have k: "key_exchange toy_crypto [3] [4]"
    using toy_x25519_laws toy_hash_laws by (simp add: key_exchange_def toy_crypto_def)
  have tr: "trusted_chain toy_crypto (tc_Certificate (toy_cert uri)) roots usage
      \<lparr>xc_URIs = [uri], xc_PublicKey = PubEd25519 []\<rparr>" for uri roots usage
    by (simp add: trusted_chain_def toy_crypto_def toy_cert_def)
  have n: "names spiffeNodePrefix \<lparr>xc_URIs = [''spiffe://qoru/node/c1''], xc_PublicKey = PubEd25519 []\<rparr> ''c1''"
    "names spiffeServicePrefix \<lparr>xc_URIs = [''spiffe://qoru/service/echo''], xc_PublicKey = PubEd25519 []\<rparr> ''echo''"
    by (simp_all add: names_iff spiffeNodePrefix_def spiffeServicePrefix_def hasPrefix_def trimPrefix_def)
  have sc: "serviceCertificate toy_server toy_service = Ok (toy_cert ''spiffe://qoru/service/echo'')"
    by (simp add: serviceCertificate_def toy_server_def toy_service_def)
  show ?thesis
    unfolding honest_run_def ctx
    using sample_ctx_valid k tr n sc toy_wire_cert [of "''spiffe://qoru/node/c1''"]
      toy_wire_cert [of "''spiffe://qoru/service/echo''"]
    by (auto simp: toy_client_def toy_service_def sample_ctx_def)
qed

theorem e2e_session_complete_witness:
  "\<exists>cb sb cr cw sr sw.
    (\<forall>rest e sent. clientRunHandshake toy_crypto raw_uuid (Some toy_client) (Ok [3]) ''abcdefpaaaaaaaaa'' toy_candidate
        (stream_on (sb @ rest) e sent) =
       (Ok (cr \<lparr>is_data = rest, is_end = e\<rparr>, cw (sent @ cb)), stream_on rest e (sent @ cb))) \<and>
    (\<forall>rest e sent. serverRunHandshake toy_crypto raw_uuid (Some toy_server) toy_request toy_service (Ok [4])
        (\<lambda>ident. Ok ()) (stream_on (cb @ rest) e sent) =
       (Ok \<lparr>hr_reader = sr \<lparr>is_data = rest, is_end = e\<rparr>, hr_writer = sw (sent @ sb), hr_clientID = ''c1''\<rparr>,
        stream_on rest e (sent @ sb), Some ())) \<and>
    (\<forall>sent. os_data (ew_w (cw sent)) = sent \<and> os_data (ew_w (sw sent)) = sent \<and>
       channel toy_crypto (cw sent) sr \<and> channel toy_crypto (sw sent) cr)"
  by (rule e2e_session_complete [OF toy_honest toy_gcm_laws])
    (simp_all add: serverContext_def clientContext_def toy_request_def toy_candidate_def)

lemma pureThen_state:
  "pureThen m s f = (x, s') \<longleftrightarrow> (case m of Ok y \<Rightarrow> f y = (x, s') | Err e \<Rightarrow> x = Err e \<and> s' = s | Panic \<Rightarrow> x = Panic \<and> s' = s)"
  by (cases m) auto

lemma prepared_authorized:
  assumes "serverRunHandshake C U rto req svc drawn prepare st = (m, st', Some target)"
  shows "\<exists>rt hello i leaf ident. rto = Some rt \<and> ReadE2EClientHello (qs_in st) = (Ok hello, i) \<and>
    trusted_chain C (ch_ClientCertChain hello) (sr_nodeRoots rt) ExtKeyUsageClientAuth leaf \<and>
    names spiffeNodePrefix leaf ident \<and>
    verifySignature C (Some leaf) (sha256_Sum C (transcriptBytes clientHelloDomain (serverContext req)
      (ch_EphemeralPublicKey hello) None)) (ch_Signature hello) = Ok () \<and>
    (sv_Peers svc = [] \<or> ident \<in> set (sv_Peers svc)) \<and> prepare ident = Ok target"
proof -
  obtain rt where rt: "rto = Some rt"
    using assms by (cases rto) (auto simp: serverRunHandshake_def)
  obtain cert where cert: "serviceCertificate rt svc = Ok cert"
    using assms rt by (cases "serviceCertificate rt svc") (auto simp: serverRunHandshake_def)
  obtain hello i where hello: "ReadE2EClientHello (qs_in st) = (Ok hello, i)"
    using assms rt cert
    by (cases "ReadE2EClientHello (qs_in st)"; cases "fst (ReadE2EClientHello (qs_in st))")
      (auto simp: serverRunHandshake_def onIn_def)
  obtain ident leaf where v: "VerifyClientHello C U (serverContext req) hello (Some (sr_nodeRoots rt)) = Ok (ident, leaf)"
    using assms rt cert hello
    by (cases "VerifyClientHello C U (serverContext req) hello (Some (sr_nodeRoots rt))")
      (auto simp: serverRunHandshake_def onIn_def)
  have a: "authorizeServicePeer svc ident (rq_Protocol req) (rq_Service req) = Ok ()"
    using assms rt cert hello v
    by (cases "authorizeServicePeer svc ident (rq_Protocol req) (rq_Service req)")
      (auto simp: serverRunHandshake_def onIn_def)
  obtain t where t: "prepare ident = Ok t"
    using assms rt cert hello v a by (cases "prepare ident") (auto simp: serverRunHandshake_def onIn_def)
  have "t = target"
    using assms rt cert hello v a t
    by (auto simp: serverRunHandshake_def onIn_def onOut_def pureThen_state Let_def split: res.splits prod.splits)
  with rt hello v a t show ?thesis
    by (auto simp: VerifyClientHello_Ok authorizeServicePeer_Ok)
qed

lemma toy_run:
  obtains cb sb kc ks th where
    "serverRunHandshake toy_crypto raw_uuid (Some toy_server) toy_request toy_service (Ok [4]) (\<lambda>ident. Ok ())
       (stream_on cb EOF []) = (Ok \<lparr>hr_reader = fresh_reader \<lparr>is_data = [], is_end = EOF\<rparr> kc th,
         hr_writer = fresh_writer \<lparr>os_data = sb, os_script = []\<rparr> ks th, hr_clientID = ''c1''\<rparr>, stream_on [] EOF sb, Some ())"
    "clientRunHandshake toy_crypto raw_uuid (Some toy_client) (Ok [3]) ''abcdefpaaaaaaaaa'' toy_candidate
       (stream_on sb EOF []) = (Ok (fresh_reader \<lparr>is_data = [], is_end = EOF\<rparr> ks th,
         fresh_writer \<lparr>os_data = cb, os_script = []\<rparr> kc th), stream_on [] EOF cb)"
proof -
  have "serverContext toy_request = clientContext ''abcdefpaaaaaaaaa'' toy_candidate"
    by (simp add: serverContext_def clientContext_def toy_request_def toy_candidate_def)
  from handshake_lemma [where prepare = "\<lambda>ident. Ok ()", OF toy_honest this refl] that show ?thesis
    by (metis append.right_neutral append_Nil)
qed

text \<open>
  C8: the server dials the target of a service only for a client it has authenticated and
  authorised. If a run of the handshake, successful or not, has prepared a target, then the
  first message on the stream was a client hello whose chain leads to the node CA and names
  the client, whose signature is over the context of this very request and the ephemeral key
  it carries, and the service admits that client; the target was prepared for it.
\<close>

theorem server_prepares_only_authorized:
  assumes "serverRunHandshake C U rto req svc drawn prepare st = (m, st', Some target)"
  shows "\<exists>rt hello i leaf ident. rto = Some rt \<and> ReadE2EClientHello (qs_in st) = (Ok hello, i) \<and>
    trusted_chain C (ch_ClientCertChain hello) (sr_nodeRoots rt) ExtKeyUsageClientAuth leaf \<and>
    names spiffeNodePrefix leaf ident \<and>
    verifySignature C (Some leaf) (sha256_Sum C (transcriptBytes clientHelloDomain (serverContext req)
      (ch_EphemeralPublicKey hello) None)) (ch_Signature hello) = Ok () \<and>
    (sv_Peers svc = [] \<or> ident \<in> set (sv_Peers svc)) \<and> prepare ident = Ok target"
  using prepared_authorized [OF assms] .

theorem server_prepares_only_authorized_witness:
  "\<exists>cb rt hello i leaf ident. Some toy_server = Some rt \<and>
    snd (snd (serverRunHandshake toy_crypto raw_uuid (Some toy_server) toy_request toy_service (Ok [4]) (\<lambda>ident. Ok ())
       (stream_on cb EOF []))) = Some () \<and>
    ReadE2EClientHello (qs_in (stream_on cb EOF [])) = (Ok hello, i) \<and>
    trusted_chain toy_crypto (ch_ClientCertChain hello) (sr_nodeRoots rt) ExtKeyUsageClientAuth leaf \<and>
    names spiffeNodePrefix leaf ident \<and>
    verifySignature toy_crypto (Some leaf) (sha256_Sum toy_crypto (transcriptBytes clientHelloDomain (serverContext toy_request)
      (ch_EphemeralPublicKey hello) None)) (ch_Signature hello) = Ok () \<and>
    (sv_Peers toy_service = [] \<or> ident \<in> set (sv_Peers toy_service))"
proof -
  obtain cb sb kc ks th where
    r: "serverRunHandshake toy_crypto raw_uuid (Some toy_server) toy_request toy_service (Ok [4]) (\<lambda>ident. Ok ())
       (stream_on cb EOF []) = (Ok \<lparr>hr_reader = fresh_reader \<lparr>is_data = [], is_end = EOF\<rparr> kc th,
         hr_writer = fresh_writer \<lparr>os_data = sb, os_script = []\<rparr> ks th, hr_clientID = ''c1''\<rparr>, stream_on [] EOF sb, Some ())"
    using toy_run by metis
  show ?thesis
    using server_prepares_only_authorized [OF r] r by (metis snd_conv)
qed

lemma handshake_authentic:
  assumes "clientRunHandshake C U rto drawn rid cand st = (Ok (rd, wr), st')"
  shows "\<exists>rt a sh i leaf th. rto = Some rt \<and> drawn = Ok a \<and> readE2EServerHelloOrClose (qs_in st) = (Ok sh, i) \<and>
    trusted_chain C (sh_ServiceCertChain sh) (cl_serviceRoots rt) ExtKeyUsageServerAuth leaf \<and>
    names spiffeServicePrefix leaf (sel_service cand) \<and>
    verifySignature C (Some leaf) (sha256_Sum C (transcriptBytes serverHelloDomain (clientContext rid cand)
      (x25519_PublicKey C a) (nilable (sh_EphemeralPublicKey sh)))) (sh_Signature sh) = Ok () \<and>
    TranscriptHash C U (clientContext rid cand) (x25519_PublicKey C a) (sh_EphemeralPublicKey sh) = Ok th \<and>
    er_transcriptHash rd = th \<and> ew_transcriptHash wr = th"
proof -
  obtain rt a where rt: "rto = Some rt" "drawn = Ok a"
    using assms
    by (cases rto; cases drawn) (auto simp: clientRunHandshake_def GenerateEphemeralKey_def)
  let ?ctx = "clientContext rid cand" and ?ce = "x25519_PublicKey C a"
  obtain h where h: "NewClientHello C U ?ctx (cl_cert rt) ?ce = Ok h" "ch_EphemeralPublicKey h = ?ce"
    using assms rt
    by (cases "NewClientHello C U ?ctx (cl_cert rt) ?ce")
      (auto simp: clientRunHandshake_def GenerateEphemeralKey_def NewClientHello_def bindR_eq_Ok split: if_splits)
  obtain sh i leaf st1 where s: "readE2EServerHelloOrClose (qs_in st) = (Ok sh, i)"
      "VerifyServerHello C U ?ctx sh (Some (cl_serviceRoots rt)) ?ce = Ok leaf"
      "clientKeys C U ?ctx (Some a) ?ce (sh_EphemeralPublicKey sh) st1 = Ok (rd, wr)"
    using assms rt h
    by (fastforce simp: clientRunHandshake_def GenerateEphemeralKey_def onIn_def onOut_def pureThen_Ok Let_def
        split: prod.splits)
  have "\<exists>th (ks :: TrafficKeys). TranscriptHash C U ?ctx ?ce (sh_EphemeralPublicKey sh) = Ok th \<and>
      NewEncryptedReader (Some (qs_in st1)) (tk_ServerToClient ks) th = Ok rd \<and>
      NewEncryptedWriter (Some (qs_out st1)) (tk_ClientToServer ks) th = Ok wr"
    using s(3) by (auto simp: clientKeys_def bindR_eq_Ok)
  then obtain th and ks :: TrafficKeys where k: "TranscriptHash C U ?ctx ?ce (sh_EphemeralPublicKey sh) = Ok th"
      "NewEncryptedReader (Some (qs_in st1)) (tk_ServerToClient ks) th = Ok rd"
      "NewEncryptedWriter (Some (qs_out st1)) (tk_ClientToServer ks) th = Ok wr"
    by blast
  show ?thesis
    using rt s(1,2) k(1) NewEncryptedReader_Ok [OF k(2)] NewEncryptedWriter_Ok [OF k(3)]
    by (auto simp: VerifyServerHello_Ok clientContext_def)
qed

text \<open>
  C9: a client that completes the handshake has authenticated the service. If \<open>runHandshake\<close>
  succeeds, the stream carried a server hello whose chain leads to the configured service CA
  and names the service of the candidate, and whose signature is over the request identifier,
  service, egress and route the client chose, the client's fresh ephemeral key and the key in
  the hello; both directions are keyed by the transcript hash of exactly these values.
\<close>

theorem client_handshake_sound:
  assumes "clientRunHandshake C U rto drawn rid cand st = (Ok (rd, wr), st')"
  shows "\<exists>rt a sh i leaf th. rto = Some rt \<and> drawn = Ok a \<and> readE2EServerHelloOrClose (qs_in st) = (Ok sh, i) \<and>
    trusted_chain C (sh_ServiceCertChain sh) (cl_serviceRoots rt) ExtKeyUsageServerAuth leaf \<and>
    names spiffeServicePrefix leaf (sel_service cand) \<and>
    verifySignature C (Some leaf) (sha256_Sum C (transcriptBytes serverHelloDomain (clientContext rid cand)
      (x25519_PublicKey C a) (nilable (sh_EphemeralPublicKey sh)))) (sh_Signature sh) = Ok () \<and>
    TranscriptHash C U (clientContext rid cand) (x25519_PublicKey C a) (sh_EphemeralPublicKey sh) = Ok th \<and>
    er_transcriptHash rd = th \<and> ew_transcriptHash wr = th"
  using handshake_authentic [OF assms] .

theorem client_handshake_sound_witness:
  "\<exists>sb rd wr st' rt sh i leaf th.
    clientRunHandshake toy_crypto raw_uuid (Some toy_client) (Ok [3]) ''abcdefpaaaaaaaaa'' toy_candidate
       (stream_on sb EOF []) = (Ok (rd, wr), st') \<and> Some toy_client = Some rt \<and>
    readE2EServerHelloOrClose (qs_in (stream_on sb EOF [])) = (Ok sh, i) \<and>
    trusted_chain toy_crypto (sh_ServiceCertChain sh) (cl_serviceRoots rt) ExtKeyUsageServerAuth leaf \<and>
    names spiffeServicePrefix leaf (sel_service toy_candidate) \<and> er_transcriptHash rd = th \<and> ew_transcriptHash wr = th"
proof -
  obtain cb sb kc ks th where
    r: "clientRunHandshake toy_crypto raw_uuid (Some toy_client) (Ok [3]) ''abcdefpaaaaaaaaa'' toy_candidate
       (stream_on sb EOF []) = (Ok (fresh_reader \<lparr>is_data = [], is_end = EOF\<rparr> ks th,
         fresh_writer \<lparr>os_data = cb, os_script = []\<rparr> kc th), stream_on [] EOF cb)"
    using toy_run by metis
  show ?thesis
    using client_handshake_sound [OF r] r by (elim exE conjE) blast
qed

end
