(* ===== verification/Server_Lemmas.thy ===== *)
theory Server_Lemmas
  imports Server_Connection E2E_Session
begin

text \<open>
  What the server's stream handlers guarantee: which requests are admitted to what, that a
  relay passes requests and answers on unchanged, that refusals reach the peer with their
  code, and that no input makes a handler panic.
\<close>

section \<open>Admission\<close>

lemma validateConnectRoute_Ok:
  "validateConnectRoute node route egress = Ok () \<longleftrightarrow>
   route = [] \<or> hd route = node \<and> egress \<in> {[], last route}"
  by (auto simp: validateConnectRoute_def hd_conv_nth last_conv_nth)

lemma validateConnectRoute_total [simp]: "validateConnectRoute node route egress \<noteq> Panic"
  by (simp add: validateConnectRoute_def)

lemma requireConfiguredPeer_total [simp]: "requireConfiguredPeer cfg p \<noteq> Panic"
  by (simp add: requireConfiguredPeer_def)

text \<open>The declarative access rule.\<close>

definition may_relay :: "Config \<Rightarrow> string \<Rightarrow> ConnectRequest \<Rightarrow> bool" where
  "may_relay cfg peer req \<longleftrightarrow> rq_Protocol req = ''tcp'' \<and> 1 < length (rq_Route req) \<and>
     hd (rq_Route req) = cfg_NodeID cfg \<and> rq_Egress req \<in> {[], last (rq_Route req)} \<and>
     (cfg_AllowedRelayClients cfg = [] \<or> peer \<in> set (cfg_AllowedRelayClients cfg))"

definition may_terminate :: "Config \<Rightarrow> string \<Rightarrow> ConnectRequest \<Rightarrow> bool" where
  "may_terminate cfg peer req \<longleftrightarrow> rq_Protocol req = ''tcp'' \<and>
     (rq_Route req = [] \<or> rq_Route req = [cfg_NodeID cfg] \<and> peer \<in> pc_ID ` set (cfg_Peers cfg)) \<and>
     rq_Egress req \<in> {[], cfg_NodeID cfg}"

definition may_use_plain :: "Config \<Rightarrow> string \<Rightarrow> ConnectRequest \<Rightarrow> ServiceConfig \<Rightarrow> bool" where
  "may_use_plain cfg peer req svc \<longleftrightarrow> may_terminate cfg peer req \<and> \<not> rq_E2ERequired req \<and>
     findService cfg ''tcp'' (rq_Service req) = Ok svc \<and> (sv_Peers svc = [] \<or> peer \<in> set (sv_Peers svc)) \<and>
     (rq_Route req = [] \<or> \<not> isServiceE2EConfigured svc)"

lemma relay_action:
  assumes "1 < length (rq_Route req)"
  shows "streamAction cfg peer req = Relay \<longleftrightarrow> may_relay cfg peer req"
    and "streamAction cfg peer req = Relay \<or> (\<exists>code e. streamAction cfg peer req = Refuse code e)"
proof -
  have r: "rq_Route req \<noteq> []" using assms by auto
  show "streamAction cfg peer req = Relay \<longleftrightarrow> may_relay cfg peer req"
    using assms r validateConnectRoute_Ok [of "cfg_NodeID cfg" "rq_Route req" "rq_Egress req"]
      relay_list.admits [of cfg peer] relay_list.total [of cfg peer]
    by (cases "validateConnectRoute (cfg_NodeID cfg) (rq_Route req) (rq_Egress req)";
        cases "authorizeRelayIngress cfg peer")
      (auto simp: streamAction_def may_relay_def)
  show "streamAction cfg peer req = Relay \<or> (\<exists>code e. streamAction cfg peer req = Refuse code e)"
    using assms by (auto simp: streamAction_def split: res.splits)
qed

lemma terminal_checks:
  assumes "length (rq_Route req) \<le> 1"
  shows "may_terminate cfg peer req \<longleftrightarrow> rq_Protocol req = ''tcp'' \<and>
    validateConnectRoute (cfg_NodeID cfg) (rq_Route req) (rq_Egress req) = Ok () \<and>
    (if length (rq_Route req) = 1 then requireConfiguredPeer cfg peer else Ok ()) = Ok () \<and>
    \<not> (rq_Egress req \<noteq> [] \<and> rq_Egress req \<noteq> cfg_NodeID cfg)"
  using assms
  by (cases "rq_Route req") (auto simp: may_terminate_def validateConnectRoute_Ok requireConfiguredPeer_Ok)

lemma terminal_action:
  assumes "length (rq_Route req) \<le> 1"
  shows "streamAction cfg peer req = ServeE2E \<longleftrightarrow> may_terminate cfg peer req \<and> rq_E2ERequired req" (is ?A)
    and "streamAction cfg peer req = ServePlain svc \<longleftrightarrow> may_use_plain cfg peer req svc" (is ?B)
    and "streamAction cfg peer req \<noteq> Relay" (is ?C)
proof -
  let ?v = "validateConnectRoute (cfg_NodeID cfg) (rq_Route req) (rq_Egress req)"
  let ?p = "if length (rq_Route req) = 1 then requireConfiguredPeer cfg peer else Ok ()"
  have l: "\<not> 1 < length (rq_Route req)" using assms by simp
  have pt: "?p \<noteq> Panic" by simp
  show ?A ?C
    using l pt terminal_checks [OF assms, of cfg peer]
    by (cases ?v; cases ?p; auto simp: streamAction_def split: res.splits if_splits)+
  have "streamAction cfg peer req = ServePlain svc \<longleftrightarrow> may_terminate cfg peer req \<and> \<not> rq_E2ERequired req \<and>
      resolveService cfg peer (rq_Protocol req) (rq_Service req) = Ok svc \<and>
      \<not> (isServiceE2EConfigured svc \<and> 0 < length (rq_Route req))"
    using l pt terminal_checks [OF assms, of cfg peer]
    by (cases ?v; cases ?p; cases "resolveService cfg peer (rq_Protocol req) (rq_Service req)")
      (auto simp: streamAction_def split: if_splits)
  also have "\<dots> \<longleftrightarrow> may_use_plain cfg peer req svc"
    by (auto simp: may_use_plain_def resolveService_Ok may_terminate_def)
  finally show ?B .
qed

section \<open>Answers\<close>

lemma responsePayload_fits:
  "length (rs_Message resp) \<le> MaxPayloadSize - 4 \<Longrightarrow>
   connectResponsePayload resp = Ok (responseBytes resp) \<and> length (responseBytes resp) \<le> MaxPayloadSize"
  by (simp add: connectResponsePayload_eq responseBytes_def qoru_consts)

lemma WriteConnectResponse_fits:
  assumes "reliable w" "length (rs_Message resp) \<le> MaxPayloadSize - 4"
  shows "WriteConnectResponse w resp =
    (Ok (), w\<lparr>os_data := os_data w @ frameBytes TypeConnectResponse (responseBytes resp)\<rparr>)"
  using responsePayload_fits [OF assms(2)] assms(1) by (simp add: connectResponse.write_enc)

lemma ReadConnectResponse_fits:
  assumes "length (rs_Message resp) \<le> MaxPayloadSize - 4" "ConnectCode_Valid (rs_Code resp)"
  shows "ReadConnectResponse \<lparr>is_data = frameBytes TypeConnectResponse (responseBytes resp) @ rest, is_end = e\<rparr> =
    (Ok (canonResponse resp), \<lparr>is_data = rest, is_end = e\<rparr>)"
  using responsePayload_fits [OF assms(1)] assms(2) by (simp add: connectResponse.read_enc)

section \<open>Relaying\<close>

lemma length_routeBytes_tl:
  assumes "1 < length route"
  shows "length (routeBytes (drop 1 route)) + 2 \<le> length (routeBytes route)"
  using assms by (cases route) (auto simp: routeBytes_def hopBytes_def)

lemma ok_route_tl: "ok_route route \<Longrightarrow> ok_route (drop 1 route)"
  by (cases route) (auto simp: ok_route_def)

text \<open>
  A relay can always encode the request it passes on: dropping a hop frees at least the two
  bytes that an older sender's request may lack.
\<close>

lemma forward_encodes:
  assumes U: "uuid_laws U" and rd: "ReadConnectRequest U i = (Ok req, i')" and len: "1 < length (rq_Route req)"
  shows "\<exists>p. connectRequestPayload U (forwardRequest req) = Ok p \<and> length p \<le> MaxPayloadSize"
    and "canonRequest U (forwardRequest req) = forwardRequest req"
proof -
  obtain f where f: "ReadFrame i = (Ok f, i')" "connectRequestOfFrame U f = Ok req"
    using rd by (cases "ReadFrame i"; cases "fst (ReadFrame i)") (auto simp: ReadConnectRequest_def)
  note ok = connectRequestOfFrame_Ok [OF U f(2)]
  obtain idb rest where p: "fr_Payload f =
           idb @ word_of_nat (length (rq_Protocol req)) # bytes_of (rq_Protocol req) @
           be16 (length (rq_Service req)) @ bytes_of (rq_Service req) @
           be16 (length (rq_Egress req)) @ bytes_of (rq_Egress req) @
           routeBytes (rq_Route req) @ rest"
      "ParseBytes U (rq_RequestID req) = Ok idb" "request_tail req rest"
    using ok(4) by blast
  have v: "valid_request U (forwardRequest req)"
    using ok(2) ok_route_tl by (simp add: valid_request_def forwardRequest_def)
  have pid: "ParseBytes U (rq_RequestID (forwardRequest req)) = Ok idb"
    using p(2) by (simp add: forwardRequest_def)
  have "length (routeBytes (rq_E2ERoute req)) + 1 \<le> length rest + 2"
    using p(3) by (auto simp: request_tail_def routeBytes_def)
  then have "length (requestBytes idb (forwardRequest req)) \<le> length (fr_Payload f)"
    using length_routeBytes_tl [OF len] by (simp add: p(1) requestBytes_def forwardRequest_def)
  then have "length (requestBytes idb (forwardRequest req)) \<le> MaxPayloadSize"
    using ReadFrame_Ok(4) [OF f(1)] by simp
  with connectRequestPayload_valid [OF U v pid]
  show "\<exists>p. connectRequestPayload U (forwardRequest req) = Ok p \<and> length p \<le> MaxPayloadSize"
    by blast
  show "canonRequest U (forwardRequest req) = forwardRequest req"
    by (rule canonRequest_id) (use ok(3) in \<open>simp add: forwardRequest_def\<close>)
qed

lemma response_reencodes:
  assumes "ReadConnectResponse i = (Ok resp, i')"
  shows "\<exists>p. connectResponsePayload resp = Ok p \<and> length p \<le> MaxPayloadSize \<and>
    (\<forall>rest e. ReadConnectResponse \<lparr>is_data = frameBytes TypeConnectResponse p @ rest, is_end = e\<rparr> =
      (Ok resp, \<lparr>is_data = rest, is_end = e\<rparr>))"
proof -
  obtain f where f: "ReadFrame i = (Ok f, i')" "connectResponseOfFrame f = Ok resp"
    using assms by (cases "ReadFrame i"; cases "fst (ReadFrame i)") (auto simp: ReadConnectResponse_def)
  have l: "length (fr_Payload f) \<le> MaxPayloadSize" using ReadFrame_Ok(4) [OF f(1)] .
  have "connectResponsePayload resp = Ok (fr_Payload f)"
    using connectResponsePayload_of_frame [OF f(2) l] by simp
  moreover have "f = \<lparr>fr_Version = Version, fr_Type = TypeConnectResponse, fr_Payload = fr_Payload f\<rparr>"
    using ReadFrame_Ok(3) [OF f(1)] connectResponseOfFrame_Ok [OF f(2)] by simp
  ultimately show ?thesis
    using l f(2) by (metis ReadConnectResponse_def ReadFrame_frameBytes thenPure_simps(1))
qed

end
