(* ===== verification/Totality.thy ===== *)
theory Totality
  imports E2E_Session
begin

text \<open>
  No handshake panics. The only assumption is that the libraries do not: \<open>crypto_total\<close> and
  \<open>file_total\<close> say that the calls of the Go packages return a value or an error, and
  \<open>hash_laws\<close> that HKDF returns as many bytes as it is asked for. Everything else (indexing a
  certificate chain, slicing the key material, the values that must not be nil) is proved.
\<close>

definition crypto_total :: "crypto_lib \<Rightarrow> bool" where
  "crypto_total C \<longleftrightarrow> hash_laws C \<and> (\<forall>s t i n. hkdf_Key C s t i n \<noteq> Panic) \<and>
     (\<forall>a b. x25519_ECDH C a b \<noteq> Panic) \<and> (\<forall>der. x509_Parse C der \<noteq> Panic) \<and>
     (\<forall>c r cs u. x509_Verify C c r cs u \<noteq> Panic) \<and> (\<forall>p k d h. signer_Sign C p k d h \<noteq> Panic) \<and>
     (\<forall>p d s. rsa_Verify C p d s \<noteq> Panic)"

definition file_total :: "file_lib \<Rightarrow> bool" where
  "file_total F \<longleftrightarrow> (\<forall>c k. fl_LoadX509KeyPair F c k \<noteq> Panic) \<and> (\<forall>p. fl_ReadFile F p \<noteq> Panic)"

lemma toy_crypto_total: "crypto_total toy_crypto"
  unfolding crypto_total_def using toy_hash_laws by (simp add: toy_crypto_def)

lemma toy_file_total: "file_total toy_files"
  by (simp add: file_total_def toy_files_def)

section \<open>Identity\<close>

lemma firstIdentity_checks_total [simp]: "PeerNodeID certs \<noteq> Panic" "ServiceNameFromCertificate cert \<noteq> Panic"
  by (auto simp: PeerNodeID_def ServiceNameFromCertificate_def split: list.splits option.splits)

lemma parseCerts_total: "crypto_total C \<Longrightarrow> parseCerts C msg raws \<noteq> Panic"
  by (induction raws) (auto simp: crypto_total_def bindR_eq_Panic)

lemma VerifyServiceCertificate_total: "crypto_total C \<Longrightarrow> VerifyServiceCertificate C raws roots svc \<noteq> Panic"
  unfolding VerifyServiceCertificate_def
  by (auto simp: bindR_eq_Panic parseCerts_total crypto_total_def split: option.splits if_splits)

lemma verifyClientCertificate_total: "crypto_total C \<Longrightarrow> verifyClientCertificate C raws roots \<noteq> Panic"
  unfolding verifyClientCertificate_def parseCertificates_def
  by (auto simp: bindR_eq_Panic parseCerts_total crypto_total_def split: option.splits if_splits)

lemma loadCertificateAndCA_total: "file_total F \<Longrightarrow> loadCertificateAndCA F i \<noteq> Panic"
  by (auto simp: loadCertificateAndCA_def file_total_def bindR_eq_Panic)

lemma ClientTLSConfig_total: "file_total F \<Longrightarrow> ClientTLSConfig C F i n \<noteq> Panic"
  by (auto simp: ClientTLSConfig_def loadCertificateAndCA_total bindR_eq_Panic)

lemma ServerTLSConfig_total: "file_total F \<Longrightarrow> ServerTLSConfig F i \<noteq> Panic"
  by (auto simp: ServerTLSConfig_def loadCertificateAndCA_total bindR_eq_Panic)

lemma LoadCertPool_total: "file_total F \<Longrightarrow> LoadCertPool F p \<noteq> Panic"
  by (auto simp: LoadCertPool_def file_total_def bindR_eq_Panic)

section \<open>Messages and keys\<close>

lemma digests_total:
  assumes "uuid_laws U"
  shows "clientHelloDigest C U ctx ce \<noteq> Panic" "serverHelloDigest C U ctx ce se \<noteq> Panic"
    "clientFinishedDigest C U ctx ce se \<noteq> Panic" "TranscriptHash C U ctx ce se \<noteq> Panic"
  using marshalTranscript_ne_Panic [OF assms]
  by (simp_all add: clientHelloDigest_def serverHelloDigest_def clientFinishedDigest_def TranscriptHash_def
      digestTranscript_def bindR_eq_Panic)

lemma parseLeafCertificate_total: "crypto_total C \<Longrightarrow> parseLeafCertificate C raws \<noteq> Panic"
  by (auto simp: parseLeafCertificate_def crypto_total_def split: list.splits)

lemma signDigest_total: "crypto_total C \<Longrightarrow> signDigest C cert d \<noteq> Panic"
  using parseLeafCertificate_total [of C]
  by (auto simp: signDigest_def crypto_total_def bindR_eq_Panic split: privkey.splits pubkey.splits)

lemma verifySignature_total: "crypto_total C \<Longrightarrow> verifySignature C cert d s \<noteq> Panic"
  by (auto simp: verifySignature_def crypto_total_def split: option.splits pubkey.splits)

lemma messages_total:
  assumes "crypto_total C" "uuid_laws U"
  shows "NewClientHello C U ctx cert ce \<noteq> Panic" "VerifyClientHello C U ctx hello roots \<noteq> Panic"
    "NewServerHello C U ctx cert ce se \<noteq> Panic" "VerifyServerHello C U ctx shello roots ce \<noteq> Panic"
    "NewClientFinished C U ctx cert ce se \<noteq> Panic" "VerifyClientFinished C U ctx fin leaf ce se \<noteq> Panic"
  using digests_total [OF assms(2), of C] assms(1)
  by (auto simp: NewClientHello_def VerifyClientHello_def NewServerHello_def VerifyServerHello_def
      NewClientFinished_def VerifyClientFinished_def bindR_eq_Panic signDigest_total verifySignature_total
      verifyClientCertificate_total VerifyServiceCertificate_total parseLeafCertificate_total split: if_splits)

lemma keys_total:
  assumes "crypto_total C"
  shows "drawn \<noteq> Panic \<Longrightarrow> GenerateEphemeralKey C drawn \<noteq> Panic" "SharedSecret C p k \<noteq> Panic"
    "DeriveTrafficKeys C z th \<noteq> Panic" "NewEncryptedReader ro k th \<noteq> Panic" "NewEncryptedWriter wo k th \<noteq> Panic"
  using assms DeriveTrafficKeys_ne_Panic [of C z th]
  by (auto simp: GenerateEphemeralKey_def SharedSecret_def x25519_NewPublicKey_def crypto_total_def
      NewEncryptedReader_def NewEncryptedWriter_def newRecordAEAD_def aes_NewCipher_def bindR_eq_Panic Let_def
      split: option.splits if_splits)

lemma phase_Panic [simp]: "phase p m = Panic \<longleftrightarrow> m = Panic"
  by (simp add: phase_def)

lemma side_keys_total:
  assumes "crypto_total C" "uuid_laws U"
  shows "serverKeys C U ctx priv ce se st \<noteq> Panic" "clientKeys C U ctx priv ce se st \<noteq> Panic"
  using assms by (simp_all add: serverKeys_def clientKeys_def bindR_eq_Panic keys_total digests_total)

section \<open>The handshakes\<close>

lemma fst_pureThen_total:
  "m \<noteq> Panic \<Longrightarrow> (\<And>x. m = Ok x \<Longrightarrow> fst (f x) \<noteq> Panic) \<Longrightarrow> fst (pureThen m s f) \<noteq> Panic"
  by (cases m) auto

lemma fst_onIn [simp]: "fst (onIn rd st) = fst (rd (qs_in st))"
  by (simp add: onIn_def split: prod.splits)

lemma fst_onOut [simp]: "fst (onOut wr st) = fst (wr (qs_out st))"
  by (simp add: onOut_def split: prod.splits)

lemma serverCertificate_total [simp]: "serviceCertificate rt svc \<noteq> Panic"
  by (simp add: serviceCertificate_def split: option.splits)

lemma readE2EServerHelloOrClose_total: "fst (readE2EServerHelloOrClose r) \<noteq> Panic"
proof -
  have "serverHelloOrClose f \<noteq> Panic" for f
    using DecodeE2EClosePayload_ne_Panic unmarshalE2EHello_ne_Panic
    by (auto simp: serverHelloOrClose_def DecodeE2EServerHelloPayload_def bindR_eq_Panic)
  then show ?thesis
    by (simp add: readE2EServerHelloOrClose_def case_prod_unfold bindR_eq_Panic)
qed

lemma serverRunHandshake_total:
  assumes "crypto_total C" "uuid_laws U" "drawn \<noteq> Panic" "\<And>c. prepare c \<noteq> Panic"
  shows "fst (serverRunHandshake C U rto req svc drawn prepare st) \<noteq> Panic"
  unfolding serverRunHandshake_def Let_def case_prod_unfold
  by (cases rto; simp; (intro fst_pureThen_total)?)
    (simp_all add: assms messages_total keys_total side_keys_total clientHello.read_total serverHello.write_total
      e2eFinished.read_total)

lemma clientRunHandshake_total:
  assumes "crypto_total C" "uuid_laws U" "drawn \<noteq> Panic"
  shows "fst (clientRunHandshake C U rto drawn rid cand st) \<noteq> Panic"
  unfolding clientRunHandshake_def Let_def case_prod_unfold
  by (cases rto; simp; (intro fst_pureThen_total)?)
    (simp_all add: assms messages_total keys_total side_keys_total clientHello.write_total e2eFinished.write_total
      readE2EServerHelloOrClose_total)

text \<open>When the server's handshake succeeds, the target has been prepared.\<close>

lemma serverRunHandshake_target:
  assumes "serverRunHandshake C U rto req svc drawn prepare st = (Ok h, st', t)"
  shows "\<exists>target. t = Some target"
  using assms unfolding serverRunHandshake_def Let_def case_prod_unfold
  by (cases rto) (auto simp: pureThen_Ok)

end
