(* ===== verification/Protocol_Properties.thy ===== *)
theory Protocol_Properties
  imports Protocol_E2E_Lemmas
begin

text \<open>
  The properties of the control protocol, stated over the readers and writers of the program.
  They rest on the interpretations of \<open>frame_codec\<close> and \<open>strict_frame_codec\<close> for the seven
  message types.
\<close>

definition request_size :: "ConnectRequest \<Rightarrow> nat" where
  "request_size req = 16 + 1 + length (rq_Protocol req) + 2 + length (rq_Service req) + 2 + length (rq_Egress req) +
     length (routeBytes (rq_Route req)) + 1 + length (routeBytes (rq_E2ERoute req))"

lemma length_requestBytes: "length idb = 16 \<Longrightarrow> length (requestBytes idb req) = request_size req"
  by (simp add: requestBytes_def request_size_def)

lemma WriteConnectRequest_refused:
  assumes "uuid_laws U" "\<not> (valid_request U req \<and> request_size req \<le> MaxPayloadSize)"
  shows "\<exists>e. WriteConnectRequest U w req = (Err e, w)"
proof (cases "connectRequestPayload U req")
  case (Ok p)
  then have "\<not> length p \<le> MaxPayloadSize"
    using assms connectRequestPayload_Ok [OF assms(1) Ok] ParseBytes_length [OF assms(1)]
    by (auto simp: length_requestBytes)
  then show ?thesis by (simp add: WriteConnectRequest_def Ok WriteFrame_def)
qed (use connectRequestPayload_ne_Panic [OF assms(1)] in \<open>simp_all add: WriteConnectRequest_def\<close>)

lemma written_request:
  assumes "uuid_laws U" "reliable w" "valid_request U req" "request_size req \<le> MaxPayloadSize"
  shows "\<exists>d. WriteConnectRequest U w req = (Ok (), w\<lparr>os_data := os_data w @ d\<rparr>) \<and> length d = 4 + request_size req \<and>
      (\<forall>rest e. ReadConnectRequest U \<lparr>is_data = d @ rest, is_end = e\<rparr> =
        (Ok (canonRequest U req), \<lparr>is_data = rest, is_end = e\<rparr>))"
proof -
  obtain idb where idb: "ParseBytes U (rq_RequestID req) = Ok idb"
    using assms(3) by (auto simp: valid_request_def is_Ok_iff)
  let ?p = "requestBytes idb req"
  have p: "connectRequestPayload U req = Ok ?p" "length ?p = request_size req"
    using connectRequestPayload_valid [OF assms(1) _ idb] assms(3)
      length_requestBytes [OF ParseBytes_length [OF assms(1) idb]] by simp_all
  then have fits: "length ?p \<le> MaxPayloadSize" using assms(4) by simp
  have "length (frameBytes TypeConnectRequest ?p) = 4 + request_size req"
    by (simp add: frameBytes_def p)
  then show ?thesis
    using connectRequest.write_enc [OF p(1) fits assms(2)] connectRequest.read_enc [OF assms(1) TrueI p(1) fits] by blast
qed

text \<open>
  C32: connect requests survive the wire. A request is written if and only if it is well formed
  (a UUIDv7 identifier, a protocol of 1 to 32 bytes, a service of 1 to 4096 bytes, hops of 1 to
  4096 bytes, at most 255 hops per route) and its encoding fits a frame; then the next node
  reads exactly that request, with the identifier in its printed form, and nothing of what
  follows on the stream; otherwise the writer reports an error and sends not a single byte.
\<close>

theorem request_roundtrip:
  assumes "uuid_laws U" "reliable w"
  shows "if valid_request U req \<and> request_size req \<le> MaxPayloadSize
    then \<exists>d. WriteConnectRequest U w req = (Ok (), w\<lparr>os_data := os_data w @ d\<rparr>) \<and> length d = 4 + request_size req \<and>
      (\<forall>rest e. ReadConnectRequest U \<lparr>is_data = d @ rest, is_end = e\<rparr> =
        (Ok (canonRequest U req), \<lparr>is_data = rest, is_end = e\<rparr>))
    else \<exists>e. WriteConnectRequest U w req = (Err e, w)"
  using written_request [OF assms] WriteConnectRequest_refused [OF assms(1)] by auto

definition sample_request :: ConnectRequest where
  "sample_request = \<lparr>rq_RequestID = ''abcdefpaaaaaaaaa'', rq_Protocol = ''tcp'', rq_Service = ''echo'', rq_Egress = ''b'',
     rq_Route = [''a'', ''b''], rq_E2ERequired = True, rq_E2ERoute = [''a'', ''b'']\<rparr>"

lemma sample_request_valid: "valid_request raw_uuid sample_request"
  by (simp add: valid_request_def sample_request_def raw_uuid_def ParseBytes_def bytes_of_def byte_of_char_def
      of_char_Char ok_route_def ok_hop_def qoru_consts)

lemma sample_request_size: "request_size sample_request = 44"
  by (simp add: request_size_def sample_request_def routeBytes_def)

theorem request_roundtrip_witness:
  "\<exists>d. WriteConnectRequest raw_uuid \<lparr>os_data = [], os_script = []\<rparr> sample_request =
       (Ok (), \<lparr>os_data = d, os_script = []\<rparr>) \<and> length d = 48 \<and>
     ReadConnectRequest raw_uuid \<lparr>is_data = d @ [9], is_end = EOF\<rparr> =
       (Ok (canonRequest raw_uuid sample_request), \<lparr>is_data = [9], is_end = EOF\<rparr>)"
  using request_roundtrip [OF raw_uuid_laws, of "\<lparr>os_data = [], os_script = []\<rparr>" sample_request]
    sample_request_valid sample_request_size by (auto simp: qoru_consts)

text \<open>
  Connect responses survive the wire. A response whose message fits is written, and read
  back in its consistent form: status OK always with code OK, an error never with code OK (it
  becomes INTERNAL_ERROR); a longer message is refused before anything is sent.
\<close>

theorem response_roundtrip:
  assumes "reliable w" "ConnectCode_Valid (rs_Code resp)"
  shows "if length (rs_Message resp) \<le> MaxPayloadSize - 4
    then \<exists>d. WriteConnectResponse w resp = (Ok (), w\<lparr>os_data := os_data w @ d\<rparr>) \<and>
      (\<forall>rest e. ReadConnectResponse \<lparr>is_data = d @ rest, is_end = e\<rparr> =
        (Ok (resp\<lparr>rs_Code := if rs_OK resp then ConnectCodeOK
             else if rs_Code resp = ConnectCodeOK then ConnectCodeInternalError else rs_Code resp\<rparr>),
         \<lparr>is_data = rest, is_end = e\<rparr>))
    else \<exists>e. WriteConnectResponse w resp = (Err e, w)"
proof (cases "length (rs_Message resp) \<le> MaxPayloadSize - 4")
  case True
  then have p: "connectResponsePayload resp = Ok (responseBytes resp)" "length (responseBytes resp) \<le> MaxPayloadSize"
    by (simp_all add: connectResponsePayload_eq responseBytes_def qoru_consts)
  have "canonResponse resp = resp\<lparr>rs_Code := if rs_OK resp then ConnectCodeOK
      else if rs_Code resp = ConnectCodeOK then ConnectCodeInternalError else rs_Code resp\<rparr>"
    by (cases resp) (simp add: canonResponse_def)
  then show ?thesis
    using True connectResponse.write_enc [OF p assms(1)] connectResponse.read_enc [OF TrueI assms(2) p] by auto
qed (simp add: WriteConnectResponse_def connectResponsePayload_eq)

theorem response_roundtrip_witness:
  "\<exists>d. WriteConnectResponse \<lparr>os_data = [], os_script = []\<rparr> \<lparr>rs_OK = False, rs_Code = ConnectCodeOK, rs_Message = ''no''\<rparr> =
       (Ok (), \<lparr>os_data = d, os_script = []\<rparr>) \<and>
     ReadConnectResponse \<lparr>is_data = d @ [9], is_end = EOF\<rparr> =
       (Ok \<lparr>rs_OK = False, rs_Code = ConnectCodeInternalError, rs_Message = ''no''\<rparr>, \<lparr>is_data = [9], is_end = EOF\<rparr>)"
  using response_roundtrip [of "\<lparr>os_data = [], os_script = []\<rparr>" "\<lparr>rs_OK = False, rs_Code = ConnectCodeOK, rs_Message = ''no''\<rparr>"]
  by (auto simp: ConnectCode_Valid_def qoru_consts)

text \<open>
  A reader and a writer of one message type that are exact inverses: what is written is read
  back, and what is read is, byte for byte, what writing the message would have sent.
\<close>

definition exact_codec :: "(ostream \<Rightarrow> 'a \<Rightarrow> unit res \<times> ostream) \<Rightarrow> (istream \<Rightarrow> 'a res \<times> istream) \<Rightarrow> bool" where
  "exact_codec wr rd \<longleftrightarrow>
     (\<forall>w m u w'. reliable w \<longrightarrow> wr w m = (Ok u, w') \<longrightarrow> (\<exists>d. os_data w' = os_data w @ d \<and>
        (\<forall>rest e. rd \<lparr>is_data = d @ rest, is_end = e\<rparr> = (Ok m, \<lparr>is_data = rest, is_end = e\<rparr>)))) \<and>
     (\<forall>r m r' w. rd r = (Ok m, r') \<longrightarrow> reliable w \<longrightarrow>
        (\<exists>d. is_data r = d @ is_data r' \<and> wr w m = (Ok (), w\<lparr>os_data := os_data w @ d\<rparr>)))"

context strict_frame_codec
begin

lemma exact:
  assumes lib "\<And>m. ok m" "\<And>m. norm m = m"
  shows "exact_codec wr rd"
  unfolding exact_codec_def
proof (intro conjI allI impI)
  fix w m u w'
  assume "reliable w" "wr w m = (Ok u, w')"
  from read_write [OF assms(1,2) this] assms(3)
  show "\<exists>d. os_data w' = os_data w @ d \<and>
      (\<forall>rest e. rd \<lparr>is_data = d @ rest, is_end = e\<rparr> = (Ok m, \<lparr>is_data = rest, is_end = e\<rparr>))"
    by simp
next
  fix r m r' w
  assume "rd r = (Ok m, r')" "reliable w"
  from write_read [OF assms(1) this]
  show "\<exists>d. is_data r = d @ is_data r' \<and> wr w m = (Ok (), w\<lparr>os_data := os_data w @ d\<rparr>)" .
qed

end

text \<open>
  C33: every end-to-end message has exactly one encoding. For the client hello, server hello,
  client finished, data and close messages, the reader gives back what the writer sent, and
  accepts no bytes but those the writer would send for the message it returns: there is no
  second encoding an intermediate node could substitute unnoticed.
\<close>

theorem e2e_messages_exact:
  "exact_codec WriteE2EClientHello ReadE2EClientHello \<and> exact_codec WriteE2EServerHello ReadE2EServerHello \<and>
   exact_codec WriteE2EClientFinished ReadE2EClientFinished \<and> exact_codec WriteE2EData ReadE2EData \<and>
   exact_codec WriteE2EClose ReadE2EClose"
  by (simp add: clientHello.exact serverHello.exact e2eFinished.exact e2eData.exact e2eClose.exact)

text \<open>
  C34: no input makes a reader panic. On arbitrary bytes, ended by an arbitrary error, every
  reader of the protocol returns a message or an error: no index or slice is out of range.
\<close>

theorem readers_total:
  assumes "uuid_laws U"
  shows "fst (ReadConnectRequest U r) \<noteq> Panic \<and> fst (ReadConnectResponse r) \<noteq> Panic \<and>
    fst (ReadE2EClientHello r) \<noteq> Panic \<and> fst (ReadE2EServerHello r) \<noteq> Panic \<and>
    fst (ReadE2EClientFinished r) \<noteq> Panic \<and> fst (ReadE2EData r) \<noteq> Panic \<and> fst (ReadE2EClose r) \<noteq> Panic"
  using connectRequest.read_total [OF assms] connectResponse.read_total [OF TrueI] clientHello.read_total [OF TrueI]
    serverHello.read_total [OF TrueI] e2eFinished.read_total [OF TrueI] e2eData.read_total [OF TrueI]
    e2eClose.read_total [OF TrueI] by simp

theorem readers_total_witness:
  "fst (ReadConnectRequest raw_uuid \<lparr>is_data = [1, 1, 0, 2, 9, 9], is_end = EOF\<rparr>) \<noteq> Panic \<and>
   fst (ReadE2EData \<lparr>is_data = [1, 5, 0, 4, 200, 1, 2, 3], is_end = EOF\<rparr>) \<noteq> Panic"
  using readers_total [OF raw_uuid_laws, of "\<lparr>is_data = [1, 1, 0, 2, 9, 9], is_end = EOF\<rparr>"]
    readers_total [OF raw_uuid_laws, of "\<lparr>is_data = [1, 5, 0, 4, 200, 1, 2, 3], is_end = EOF\<rparr>"] by simp

text \<open>
  A connection that breaks inside a request is noticed. If a request was written and only a
  proper prefix of its bytes arrives before the stream ends, the reader reports end of file or
  an unexpected end of file, never a request.
\<close>

theorem truncated_request_refused:
  assumes "reliable w" "WriteConnectRequest U w req = (Ok (), w')" "os_data w' = os_data w @ d @ d'" "d' \<noteq> []"
  shows "fst (ReadConnectRequest U \<lparr>is_data = d, is_end = EOF\<rparr>) \<in> {Err EOF, Err ErrUnexpectedEOF}"
  by (rule connectRequest.read_truncated [OF assms])

theorem truncated_request_refused_witness:
  "\<exists>d. length d = 20 \<and> fst (ReadConnectRequest raw_uuid \<lparr>is_data = d, is_end = EOF\<rparr>) \<in> {Err EOF, Err ErrUnexpectedEOF}"
proof -
  let ?w = "\<lparr>os_data = [], os_script = []\<rparr>"
  obtain w' where w': "WriteConnectRequest raw_uuid ?w sample_request = (Ok (), w')" "length (os_data w') = 4 + request_size sample_request"
  proof -
    obtain idb where idb: "ParseBytes raw_uuid (rq_RequestID sample_request) = Ok idb"
      using sample_request_valid by (auto simp: valid_request_def is_Ok_iff)
    note p = connectRequestPayload_valid [OF raw_uuid_laws sample_request_valid idb]
    have l: "length (requestBytes idb sample_request) = 44"
      using length_requestBytes [OF ParseBytes_length [OF raw_uuid_laws idb], of sample_request] sample_request_size by simp
    show ?thesis
      using that connectRequest.write_enc [OF p, of ?w] l by (simp add: frameBytes_def sample_request_size qoru_consts)
  qed
  have "os_data w' = os_data ?w @ take 20 (os_data w') @ drop 20 (os_data w')" "drop 20 (os_data w') \<noteq> []"
    using w'(2) sample_request_size by simp_all
  from truncated_request_refused [OF _ w'(1) this] show ?thesis
    using w'(2) sample_request_size by (intro exI [of _ "take 20 (os_data w')"]) simp
qed

end
