(* ===== verification/Config_Lemmas.thy ===== *)
theory Config_Lemmas
  imports Config_Validate
begin

text \<open>
  What validation decides: \<open>client_config\<close> and \<open>server_config\<close> say declaratively which
  configurations are well formed, and the checks of the code accept exactly those.
\<close>

section \<open>Host and port\<close>

lemma indexByte_None: "indexByte s c = None \<longleftrightarrow> c \<notin> set s"
  by (induction s) auto

lemma indexByte_Some: "indexByte s c = Some i \<longleftrightarrow> (\<exists>xs ys. s = xs @ c # ys \<and> c \<notin> set xs \<and> i = length xs)"
proof (induction s arbitrary: i)
  case (Cons x s)
  show ?case
  proof (cases "x = c")
    case True
    have "(\<exists>xs ys. x # s = xs @ c # ys \<and> c \<notin> set xs \<and> i = length xs) \<longleftrightarrow> i = 0"
    proof
      assume "\<exists>xs ys. x # s = xs @ c # ys \<and> c \<notin> set xs \<and> i = length xs"
      then obtain xs ys where "x # s = xs @ c # ys" "c \<notin> set xs" "i = length xs" by blast
      with True show "i = 0" by (cases xs) auto
    next
      assume "i = 0"
      with True show "\<exists>xs ys. x # s = xs @ c # ys \<and> c \<notin> set xs \<and> i = length xs"
        by (intro exI [of _ "[]"] exI [of _ s]) simp
    qed
    with True show ?thesis by auto
  next
    case False
    have "(\<exists>xs ys. x # s = xs @ c # ys \<and> c \<notin> set xs \<and> i = length xs) \<longleftrightarrow>
        (\<exists>xs ys. s = xs @ c # ys \<and> c \<notin> set xs \<and> i = Suc (length xs))"
    proof
      assume "\<exists>xs ys. x # s = xs @ c # ys \<and> c \<notin> set xs \<and> i = length xs"
      then obtain xs ys where "x # s = xs @ c # ys" "c \<notin> set xs" "i = length xs" by blast
      with False show "\<exists>xs ys. s = xs @ c # ys \<and> c \<notin> set xs \<and> i = Suc (length xs)"
        by (cases xs) auto
    next
      assume "\<exists>xs ys. s = xs @ c # ys \<and> c \<notin> set xs \<and> i = Suc (length xs)"
      then obtain xs ys where "s = xs @ c # ys" "c \<notin> set xs" "i = Suc (length xs)" by blast
      with False show "\<exists>xs ys. x # s = xs @ c # ys \<and> c \<notin> set xs \<and> i = length xs"
        by (intro exI [of _ "x # xs"] exI [of _ ys]) simp
    qed
    moreover have "indexByte (x # s) c = Some i \<longleftrightarrow> (\<exists>j. indexByte s c = Some j \<and> i = Suc j)"
      using False by auto
    ultimately show ?thesis
      unfolding Cons.IH by metis
  qed
qed simp

lemma lastIndexByte_None: "lastIndexByte s c = None \<longleftrightarrow> c \<notin> set s"
  by (simp add: lastIndexByte_def indexByte_None)

lemma lastIndexByte_Some:
  "lastIndexByte s c = Some i \<longleftrightarrow> (\<exists>xs ys. s = xs @ c # ys \<and> c \<notin> set ys \<and> i = length xs)"
proof -
  have "lastIndexByte s c = Some i \<longleftrightarrow>
      (\<exists>xs ys. rev s = xs @ c # ys \<and> c \<notin> set xs \<and> i = length s - 1 - length xs)"
    by (auto simp: lastIndexByte_def indexByte_Some)
  also have "\<dots> \<longleftrightarrow> (\<exists>xs ys. s = ys @ c # xs \<and> c \<notin> set xs \<and> i = length ys)"
  proof
    assume "\<exists>xs ys. rev s = xs @ c # ys \<and> c \<notin> set xs \<and> i = length s - 1 - length xs"
    then obtain xs ys where "rev s = xs @ c # ys" "c \<notin> set xs" "i = length s - 1 - length xs" by blast
    moreover from this have "s = rev ys @ c # rev xs"
      by (metis append.assoc append_Cons append_Nil rev.simps(2) rev_append rev_rev_ident)
    ultimately show "\<exists>xs ys. s = ys @ c # xs \<and> c \<notin> set xs \<and> i = length ys"
      by (intro exI [of _ "rev xs"] exI [of _ "rev ys"]) simp
  next
    assume "\<exists>xs ys. s = ys @ c # xs \<and> c \<notin> set xs \<and> i = length ys"
    then obtain xs ys where "s = ys @ c # xs" "c \<notin> set xs" "i = length ys" by blast
    then show "\<exists>xs ys. rev s = xs @ c # ys \<and> c \<notin> set xs \<and> i = length s - 1 - length xs"
      by (intro exI [of _ "rev xs"] exI [of _ "rev ys"]) simp
  qed
  finally show ?thesis by blast
qed

text \<open>The addresses \<open>net.SplitHostPort\<close> takes apart, and how.\<close>

definition plain :: "string \<Rightarrow> bool" where
  "plain s \<longleftrightarrow> colon \<notin> set s \<and> lbracket \<notin> set s \<and> rbracket \<notin> set s"

definition host_port :: "string \<Rightarrow> string \<Rightarrow> string \<Rightarrow> bool" where
  "host_port s host port \<longleftrightarrow> plain port \<and>
     (s = host @ colon # port \<and> plain host \<or>
      s = lbracket # host @ rbracket # colon # port \<and> lbracket \<notin> set host \<and> rbracket \<notin> set host)"

lemma distinct_separators [simp]:
  "colon \<noteq> lbracket" "lbracket \<noteq> colon" "colon \<noteq> rbracket" "rbracket \<noteq> colon"
  "lbracket \<noteq> rbracket" "rbracket \<noteq> lbracket"
  by (simp_all add: colon_def lbracket_def rbracket_def)

lemma SplitHostPort_plain:
  assumes "plain host" "plain port"
  shows "SplitHostPort (host @ colon # port) = Ok (host, port)"
proof -
  have i: "lastIndexByte (host @ colon # port) colon = Some (length host)"
    using assms by (auto simp: lastIndexByte_Some plain_def)
  moreover have "(host @ colon # port) ! 0 \<noteq> lbracket"
    using assms by (cases host) (auto simp: plain_def)
  ultimately show ?thesis
    using assms by (simp add: SplitHostPort_def splitTail_def indexByte_None plain_def)
qed

lemma SplitHostPort_brackets:
  assumes "plain port" "lbracket \<notin> set host" "rbracket \<notin> set host"
  shows "SplitHostPort (lbracket # host @ rbracket # colon # port) = Ok (host, port)"
proof -
  let ?s = "lbracket # host @ rbracket # colon # port"
  have i: "lastIndexByte ?s colon = Some (length host + 2)"
    unfolding lastIndexByte_Some using assms(1)
    by (intro exI [of _ "lbracket # host @ [rbracket]"] exI [of _ port]) (simp add: plain_def)
  have e: "indexByte ?s rbracket = Some (length host + 1)"
    unfolding indexByte_Some using assms(3)
    by (intro exI [of _ "lbracket # host"] exI [of _ "colon # port"]) simp
  have "drop (length host + 3) ?s = port"
    by (simp add: eval_nat_numeral)
  then show ?thesis
    using assms i e by (simp add: SplitHostPort_def splitTail_def indexByte_None plain_def)
qed

lemma splitTail_Ok:
  "splitTail s i j k h = Ok hp \<longleftrightarrow>
   lbracket \<notin> set (drop j s) \<and> rbracket \<notin> set (drop k s) \<and> hp = (h, drop (i + 1) s)"
  by (auto simp: splitTail_def indexByte_None)

lemma SplitHostPort_Ok:
  assumes "SplitHostPort s = Ok (host, port)"
  shows "host_port s host port"
proof -
  obtain i where i: "lastIndexByte s colon = Some i"
    using assms by (cases "lastIndexByte s colon") (auto simp: SplitHostPort_def)
  then obtain xs ys where s: "s = xs @ colon # ys" "colon \<notin> set ys" "i = length xs"
    by (auto simp: lastIndexByte_Some)
  show ?thesis
  proof (cases "s ! 0 = lbracket")
    case True
    then obtain zs where xs: "xs = lbracket # zs"
      using s by (cases xs) auto
    obtain stop where stop: "indexByte s rbracket = Some stop"
      using assms i True by (cases "indexByte s rbracket") (auto simp: SplitHostPort_def)
    have t: "stop + 1 = i" "splitTail s i 1 (stop + 1) (take (stop - 1) (drop 1 s)) = Ok (host, port)"
      using assms i True stop by (auto simp: SplitHostPort_def split: if_splits)
    obtain us vs where us: "s = us @ rbracket # vs" "rbracket \<notin> set us" "stop = length us"
      using stop by (auto simp: indexByte_Some)
    have "xs = us @ [rbracket]"
      using s us t(1) by (metis append.assoc append_Cons append_Nil append_eq_append_conv length_append_singleton
          Suc_eq_plus1)
    with xs us obtain h where h: "us = lbracket # h" "xs = lbracket # h @ [rbracket]"
      by (cases us) auto
    then show ?thesis
      using t(2) s us by (auto simp: splitTail_Ok host_port_def plain_def)
  next
    case False
    then have "colon \<notin> set (take i s)" "splitTail s i 0 0 (take i s) = Ok (host, port)"
      using assms i by (auto simp: SplitHostPort_def indexByte_None split: if_splits)
    then show ?thesis
      using s by (auto simp: splitTail_Ok host_port_def plain_def)
  qed
qed

lemma SplitHostPort_iff: "SplitHostPort s = Ok (host, port) \<longleftrightarrow> host_port s host port"
  using SplitHostPort_Ok SplitHostPort_plain SplitHostPort_brackets by (auto simp: host_port_def)

lemma SplitHostPort_ne_Panic [simp]: "SplitHostPort s \<noteq> Panic"
  by (simp add: SplitHostPort_def splitTail_def split: option.splits)

definition address :: "string \<Rightarrow> bool" where
  "address s \<longleftrightarrow> is_Ok (SplitHostPort s)"

section \<open>Loops\<close>

lemma forEach_iff:
  assumes "\<And>i x. f i x = Ok () \<longleftrightarrow> P x"
  shows "forEach f i xs = Ok () \<longleftrightarrow> (\<forall>x\<in>set xs. P x)"
  using assms by (simp add: forEach_Ok all_set_conv_all_nth)

text \<open>A loop that checks each element, rejects a repeated key and records it.\<close>

lemma foldEach_distinct:
  assumes f: "\<And>i x s s'. f i x s = Ok s' \<longleftrightarrow> P x \<and> key x \<notin> D s \<and> s' = upd x s"
    and D: "\<And>x s. D (upd x s) = insert (key x) (D s)"
  shows "foldEach f i xs s = Ok s' \<longleftrightarrow>
    (\<forall>x\<in>set xs. P x) \<and> distinct (map key xs) \<and> key ` set xs \<inter> D s = {} \<and> s' = fold upd xs s"
  by (induction xs arbitrary: i s) (auto simp: bindR_eq_Ok f D)

lemma fold_keys:
  assumes "\<And>x s. D (upd x s) = insert (key x) (D s)"
  shows "D (fold upd xs s) = key ` set xs \<union> D s"
  by (induction xs arbitrary: s) (auto simp: assms)

section \<open>Well-formed configurations\<close>

definition common_config :: "Config \<Rightarrow> bool" where
  "common_config cfg \<longleftrightarrow> cfg_NodeID cfg \<noteq> [] \<and> ic_Cert (cfg_Identity cfg) \<noteq> [] \<and>
     ic_Key (cfg_Identity cfg) \<noteq> [] \<and> ic_CA (cfg_Identity cfg) \<noteq> []"

definition serverIDs :: "Config \<Rightarrow> string set" where
  "serverIDs cfg = sc_ID ` set (cfg_Servers cfg)"

text \<open>A route of one to three named hops, the first of them a configured server.\<close>

definition route_ok :: "string set \<Rightarrow> string list \<Rightarrow> bool" where
  "route_ok ids route \<longleftrightarrow> route \<noteq> [] \<and> length route \<le> MaxForwardRouteLength \<and> [] \<notin> set route \<and> hd route \<in> ids"

definition candidate_ok :: "string set \<Rightarrow> RouteCandidateConfig \<Rightarrow> bool" where
  "candidate_ok ids c \<longleftrightarrow> route_ok ids (cc_Route c) \<and> cc_Egress c = last (cc_Route c)"

definition service_route_ok :: "string set \<Rightarrow> ServiceRouteConfig \<Rightarrow> bool" where
  "service_route_ok ids r \<longleftrightarrow> rc_Service r \<noteq> [] \<and> rc_Protocol r = ''tcp'' \<and>
     rc_Selection r \<in> {[], RouteSelectionOrdered} \<and> rc_Candidates r \<noteq> [] \<and>
     (\<forall>c\<in>set (rc_Candidates r). candidate_ok ids c)"

definition forward_ok :: "Config \<Rightarrow> ForwardConfig \<Rightarrow> bool" where
  "forward_ok cfg f \<longleftrightarrow> fc_Protocol f = ''tcp'' \<and> address (fc_Listen f) \<and> fc_Service f \<noteq> [] \<and>
     (fc_E2E f \<in> {[], ForwardE2EOff} \<or>
      fc_E2E f \<in> {ForwardE2EAuto, ForwardE2EAlways} \<and> si_CA (cfg_ServiceIdentity cfg) \<noteq> []) \<and>
     (if fc_Route f \<noteq> [] then
        route_ok (serverIDs cfg) (fc_Route f) \<and> fc_Egress f \<in> {[], last (fc_Route f)}
      else if fc_Egress f \<noteq> [] then fc_Egress f \<in> serverIDs cfg
      else length (cfg_Servers cfg) = 1 \<or> hasServiceRoute cfg ''tcp'' (fc_Service f))"

definition client_config :: "Config \<Rightarrow> bool" where
  "client_config cfg \<longleftrightarrow> common_config cfg \<and> cfg_Mode cfg = ModeClient \<and>
     cfg_Servers cfg \<noteq> [] \<and> distinct (map sc_ID (cfg_Servers cfg)) \<and>
     (\<forall>s\<in>set (cfg_Servers cfg). sc_ID s \<noteq> [] \<and> sc_Address s \<noteq> []) \<and>
     distinct (map rc_Service (cfg_Routes cfg)) \<and>
     (\<forall>r\<in>set (cfg_Routes cfg). service_route_ok (serverIDs cfg) r) \<and>
     cfg_Forwards cfg \<noteq> [] \<and> (\<forall>f\<in>set (cfg_Forwards cfg). forward_ok cfg f)"

definition service_ok :: "Config \<Rightarrow> ServiceConfig \<Rightarrow> bool" where
  "service_ok cfg s \<longleftrightarrow> sv_Name s \<noteq> [] \<and> sv_Protocol s \<in> {''tcp'', ''udp''} \<and> address (sv_Target s) \<and>
     [] \<notin> set (sv_Peers s) \<and>
     (se_Cert (sv_E2E s) = [] \<and> se_Key (sv_E2E s) = [] \<or>
      sv_Protocol s = ''tcp'' \<and> se_Cert (sv_E2E s) \<noteq> [] \<and> se_Key (sv_E2E s) \<noteq> [] \<and>
      si_CA (cfg_ServiceIdentity cfg) \<noteq> [])"

definition peer_ok :: "Config \<Rightarrow> PeerConfig \<Rightarrow> bool" where
  "peer_ok cfg p \<longleftrightarrow> pc_ID p \<noteq> [] \<and> pc_ID p \<noteq> cfg_NodeID cfg \<and>
     (pc_Address p = [] \<and> \<not> pc_Dial p \<or> pc_Address p \<noteq> [] \<and> address (pc_Address p))"

definition server_config :: "Config \<Rightarrow> bool" where
  "server_config cfg \<longleftrightarrow> common_config cfg \<and> cfg_Mode cfg = ModeServer \<and> cfg_Listen cfg \<noteq> [] \<and>
     cfg_Routes cfg = [] \<and> cfg_Servers cfg = [] \<and>
     distinct (map pc_ID (cfg_Peers cfg)) \<and> (\<forall>p\<in>set (cfg_Peers cfg). peer_ok cfg p) \<and>
     [] \<notin> set (cfg_AllowedRelayClients cfg) \<and> (\<forall>s\<in>set (cfg_Services cfg). service_ok cfg s)"

section \<open>The checks decide them\<close>

lemma address_nonempty: "address s \<Longrightarrow> s \<noteq> []"
  by (auto simp: address_def SplitHostPort_def lastIndexByte_def)

lemma address_iff: "(\<exists>x. SplitHostPort s = Ok x) \<longleftrightarrow> address s"
  by (cases "SplitHostPort s") (simp_all add: address_def)

lemma bind_split [simp]: "bindR (SplitHostPort s) (\<lambda>_. Ok ()) = Ok () \<longleftrightarrow> address s"
  by (cases "SplitHostPort s") (simp_all add: address_def)

lemma bind_wrapped_split [simp]:
  "bindR (wrapErr h (SplitHostPort s)) (\<lambda>_. m) = Ok x \<longleftrightarrow> address s \<and> m = Ok x"
  by (cases "SplitHostPort s") (simp_all add: address_def)

lemma validateCommon_Ok:
  "validateCommon (Some cfg) = Ok cfg' \<longleftrightarrow> common_config cfg \<and> cfg_Mode cfg \<noteq> [] \<and> cfg' = cfg"
  by (auto simp: validateCommon_def common_config_def)

lemma nonempty_hops:
  "forEach (\<lambda>j hop. if hop = [] then Err (e j) else Ok ()) i xs = Ok () \<longleftrightarrow> [] \<notin> set xs"
  by (subst forEach_iff [where P = "\<lambda>x. x \<noteq> []"]) auto

lemma dom_server_map: "dom (fold (\<lambda>s m. m(sc_ID s \<mapsto> s)) xs m) = sc_ID ` set xs \<union> dom m"
  by (rule fold_keys [where D = dom and upd = "\<lambda>s m. m(sc_ID s \<mapsto> s)"]) simp

lemma validateConfiguredServers_Ok:
  "validateConfiguredServers cfg = Ok m \<longleftrightarrow>
   (\<forall>s\<in>set (cfg_Servers cfg). sc_ID s \<noteq> [] \<and> sc_Address s \<noteq> []) \<and>
   distinct (map sc_ID (cfg_Servers cfg)) \<and> m = fold (\<lambda>s m. m(sc_ID s \<mapsto> s)) (cfg_Servers cfg) Map.empty"
  unfolding validateConfiguredServers_def
  by (subst foldEach_distinct [where key = sc_ID and D = dom and upd = "\<lambda>s m. m(sc_ID s \<mapsto> s)"
        and P = "\<lambda>s. sc_ID s \<noteq> [] \<and> sc_Address s \<noteq> []"]) auto

lemma validateCandidate_Ok:
  "validateCandidate i m j c = Ok () \<longleftrightarrow> candidate_ok (dom m) c"
proof -
  have "cc_Route c \<noteq> [] \<and> cc_Route c ! (length (cc_Route c) - 1) = [] \<longrightarrow> [] \<in> set (cc_Route c)"
    by (metis diff_less length_greater_0_conv less_one nth_mem)
  then show ?thesis
    by (auto simp: validateCandidate_def candidate_ok_def route_ok_def bindR_eq_Ok nonempty_hops Let_def
      last_conv_nth hd_conv_nth domIff qoru_consts)
qed

lemma routeKey_tcp [simp]: "routeKey p s = routeKey p s' \<longleftrightarrow> s = s'"
  by (simp add: routeKey_def)

lemma validateServiceRoutes_Ok:
  "validateServiceRoutes cfg m = Ok () \<longleftrightarrow>
   (\<forall>r\<in>set (cfg_Routes cfg). service_route_ok (dom m) r) \<and> distinct (map rc_Service (cfg_Routes cfg))"
proof -
  let ?key = "\<lambda>r. routeKey (rc_Protocol r) (rc_Service r)"
  have "validateServiceRoutes cfg m = Ok () \<longleftrightarrow>
      (\<forall>r\<in>set (cfg_Routes cfg). service_route_ok (dom m) r) \<and> distinct (map ?key (cfg_Routes cfg))"
    unfolding validateServiceRoutes_def bindR_eq_Ok
    by (subst foldEach_distinct [where key = ?key and D = "\<lambda>s. s" and upd = "\<lambda>r. insert (?key r)"
          and P = "service_route_ok (dom m)"])
      (auto simp: service_route_ok_def bindR_eq_Ok forEach_iff [OF validateCandidate_Ok] Let_def qoru_consts)
  also have "\<dots> \<longleftrightarrow> (\<forall>r\<in>set (cfg_Routes cfg). service_route_ok (dom m) r) \<and>
      distinct (map rc_Service (cfg_Routes cfg))"
    by (auto simp: distinct_map inj_on_def service_route_ok_def)
  finally show ?thesis .
qed

lemma validateForwardE2E_Ok:
  "validateForwardE2E cfg i f = Ok () \<longleftrightarrow> fc_E2E f \<in> {[], ForwardE2EOff} \<or>
     fc_E2E f \<in> {ForwardE2EAuto, ForwardE2EAlways} \<and> si_CA (cfg_ServiceIdentity cfg) \<noteq> []"
  by (auto simp: validateForwardE2E_def qoru_consts)

lemma validateForwardRoute_Ok:
  "validateForwardRoute i f m = Ok () \<longleftrightarrow> fc_Route f = [] \<or>
     route_ok (dom m) (fc_Route f) \<and> fc_Egress f \<in> {[], last (fc_Route f)}"
  by (auto simp: validateForwardRoute_def route_ok_def bindR_eq_Ok nonempty_hops Let_def
      last_conv_nth hd_conv_nth domIff qoru_consts)

lemma bindR_Ok_unit: "bindR m (\<lambda>_. m') = Ok x \<longleftrightarrow> m = Ok () \<and> m' = Ok x"
  by (cases m) auto

lemma validateForward_Ok:
  assumes "dom m = serverIDs cfg" "card (dom m) = length (cfg_Servers cfg)" "cfg_Servers cfg \<noteq> []"
  shows "validateForward cfg m i f = Ok () \<longleftrightarrow> forward_ok cfg f"
proof -
  have c: "1 < card (dom m) \<longleftrightarrow> length (cfg_Servers cfg) \<noteq> 1"
    using assms(2,3) by (cases "cfg_Servers cfg") auto
  have "m x = None \<longleftrightarrow> x \<notin> serverIDs cfg" for x
    using assms(1) by (auto simp: domIff)
  then show ?thesis
    using c address_nonempty [of "fc_Listen f"] assms(1)
    by (cases "fc_Route f = []"; cases "fc_Egress f = []")
      (auto simp: validateForward_def forward_ok_def bindR_Ok_unit validateForwardE2E_Ok validateForwardRoute_Ok)
qed

lemma ValidateClient_iff: "ValidateClient (Some cfg) = Ok () \<longleftrightarrow> client_config cfg"
proof -
  let ?m = "fold (\<lambda>s m. m(sc_ID s \<mapsto> s)) (cfg_Servers cfg) Map.empty"
  have d: "dom ?m = serverIDs cfg"
    by (simp add: dom_server_map serverIDs_def)
  have "card (dom ?m) = length (cfg_Servers cfg)" if "distinct (map sc_ID (cfg_Servers cfg))"
    using that d distinct_card [of "map sc_ID (cfg_Servers cfg)"] by (simp add: serverIDs_def)
  then have f: "forEach (validateForward cfg ?m) 0 (cfg_Forwards cfg) = Ok () \<longleftrightarrow>
      (\<forall>f\<in>set (cfg_Forwards cfg). forward_ok cfg f)"
    if "distinct (map sc_ID (cfg_Servers cfg))" "cfg_Servers cfg \<noteq> []"
    using that validateForward_Ok [OF d] by (intro forEach_iff) simp
  show ?thesis
  proof (cases "distinct (map sc_ID (cfg_Servers cfg)) \<and> cfg_Servers cfg \<noteq> []")
    case True
    then show ?thesis
      using f d by (auto simp: ValidateClient_def client_config_def bindR_eq_Ok validateCommon_Ok
          validateClientServers_def validateConfiguredServers_Ok validateServiceRoutes_Ok qoru_consts)
  next
    case False
    then show ?thesis
      by (auto simp: ValidateClient_def client_config_def bindR_eq_Ok validateCommon_Ok
          validateClientServers_def validateConfiguredServers_Ok split: if_splits)
  qed
qed

lemma validateServerPeers_Ok:
  "(\<exists>m. validateServerPeers cfg = Ok m) \<longleftrightarrow>
   distinct (map pc_ID (cfg_Peers cfg)) \<and> (\<forall>p\<in>set (cfg_Peers cfg). peer_ok cfg p)"
  unfolding validateServerPeers_def
  by (subst foldEach_distinct [where key = pc_ID and D = dom and upd = "\<lambda>s m. m(pc_ID s \<mapsto> s)"
        and P = "peer_ok cfg"]) (auto simp: peer_ok_def bindR_Ok_unit split: if_splits)

lemma validateServiceE2E_Ok:
  "validateServiceE2E cfg i s = Ok () \<longleftrightarrow> se_Cert (sv_E2E s) = [] \<and> se_Key (sv_E2E s) = [] \<or>
      sv_Protocol s = ''tcp'' \<and> se_Cert (sv_E2E s) \<noteq> [] \<and> se_Key (sv_E2E s) \<noteq> [] \<and>
      si_CA (cfg_ServiceIdentity cfg) \<noteq> []"
  by (auto simp: validateServiceE2E_def)

lemma validateService_Ok: "validateService cfg i s = Ok () \<longleftrightarrow> service_ok cfg s"
  using address_nonempty [of "sv_Target s"]
  by (auto simp: validateService_def service_ok_def bindR_Ok_unit validateServiceE2E_Ok nonempty_hops)

lemma ValidateServer_iff: "ValidateServer (Some cfg) = Ok () \<longleftrightarrow> server_config cfg"
  using validateServerPeers_Ok [of cfg]
  by (auto simp: ValidateServer_def server_config_def bindR_eq_Ok validateCommon_Ok nonempty_hops
      forEach_iff [OF validateService_Ok] qoru_consts)

section \<open>Validation returns\<close>

lemma forEach_Panic: "forEach f i xs = Panic \<Longrightarrow> \<exists>i x. f i x = Panic"
  using forEach_ne_Panic [of xs f i] by blast

lemma foldEach_Panic: "foldEach f i xs s = Panic \<Longrightarrow> \<exists>i x s. f i x s = Panic"
  using foldEach_ne_Panic [of xs f i s] by blast

lemma validateCommon_total [simp]: "validateCommon cfg \<noteq> Panic"
  by (simp add: validateCommon_def split: option.split)

lemma validateForwardRoute_total [simp]: "validateForwardRoute i fwd servers \<noteq> Panic"
  by (auto simp: validateForwardRoute_def bindR_eq_Panic Let_def split: if_splits dest!: forEach_Panic)

lemma validateForwardE2E_total [simp]: "validateForwardE2E cfg i fwd \<noteq> Panic"
  by (simp add: validateForwardE2E_def)

lemma validateCandidate_total [simp]: "validateCandidate i servers j candidate \<noteq> Panic"
  by (auto simp: validateCandidate_def bindR_eq_Panic Let_def split: if_splits dest!: forEach_Panic)

lemma validateForward_total [simp]: "validateForward cfg servers i fwd \<noteq> Panic"
  by (auto simp: validateForward_def bindR_eq_Panic split: if_splits)

lemma validateClientServers_total [simp]: "validateClientServers cfg \<noteq> Panic"
  by (auto simp: validateClientServers_def validateConfiguredServers_def split: if_splits dest!: foldEach_Panic)

lemma validateServiceRoutes_total [simp]: "validateServiceRoutes cfg servers \<noteq> Panic"
  by (auto simp: validateServiceRoutes_def bindR_eq_Panic Let_def split: if_splits
      dest!: foldEach_Panic forEach_Panic)

lemma validateServerPeers_total [simp]: "validateServerPeers cfg \<noteq> Panic"
  by (auto simp: validateServerPeers_def bindR_eq_Panic split: if_splits dest!: foldEach_Panic)

lemma validateServiceE2E_total [simp]: "validateServiceE2E cfg i svc \<noteq> Panic"
  by (simp add: validateServiceE2E_def Let_def)

lemma validateService_total [simp]: "validateService cfg i svc \<noteq> Panic"
  by (auto simp: validateService_def bindR_eq_Panic split: if_splits dest!: forEach_Panic)

lemma ValidateClient_total: "ValidateClient cfg \<noteq> Panic"
  by (auto simp: ValidateClient_def bindR_eq_Panic split: if_splits dest!: forEach_Panic)

lemma ValidateServer_total: "ValidateServer cfg \<noteq> Panic"
  by (auto simp: ValidateServer_def bindR_eq_Panic split: if_splits dest!: forEach_Panic)

lemma ValidateForMode_total: "ValidateForMode cfg \<noteq> Panic"
  using ValidateClient_total ValidateServer_total by (auto simp: ValidateForMode_def split: option.split)

lemma ValidateForMode_iff: "ValidateForMode (Some cfg) = Ok () \<longleftrightarrow> client_config cfg \<or> server_config cfg"
  by (auto simp: ValidateForMode_def ValidateClient_iff ValidateServer_iff client_config_def
      server_config_def qoru_consts)

section \<open>Properties\<close>

text \<open>
  C6: validation is exact. \<open>ValidateForMode\<close> accepts a configuration if and only if it is a
  well-formed client configuration (distinct named servers with addresses; static routes for
  distinct tcp services, each with candidates of one to three named hops that start at a
  configured server and end at their egress; forwards with a splittable listen address, a
  service, a known e2e mode backed by a service CA, and a route or egress that can be
  resolved) or a well-formed server configuration (distinct peers other than the node itself,
  dialled ones with an address; services with a target and a complete e2e pair or none).
\<close>

theorem validation_exact:
  "ValidateForMode (Some cfg) = Ok () \<longleftrightarrow> client_config cfg \<or> server_config cfg"
  by (rule ValidateForMode_iff)

end
