(* ===== verification/Server_Properties.thy ===== *)
theory Server_Properties
  imports Server_Lemmas Totality Protocol_Properties Config_Lemmas
begin

text \<open>
  The properties of the server's stream handling, over \<open>handleStream\<close> as a whole: what it
  admits, how it refuses, that every stream ends closed or connected, that a relay is
  transparent, and that a failed end-to-end set-up is reported to the client.
\<close>

section \<open>Admission\<close>

lemma relay_admits: "streamAction cfg peer req = Relay \<longleftrightarrow> may_relay cfg peer req"
  using relay_action [of req cfg peer] terminal_action [of req cfg peer]
  by (cases "1 < length (rq_Route req)") (auto simp: may_relay_def)

lemma e2e_admits: "streamAction cfg peer req = ServeE2E \<longleftrightarrow> may_terminate cfg peer req \<and> rq_E2ERequired req"
  using relay_action [of req cfg peer] terminal_action [of req cfg peer]
  by (cases "1 < length (rq_Route req)") (auto simp: may_terminate_def)

lemma plain_admits: "streamAction cfg peer req = ServePlain svc \<longleftrightarrow> may_use_plain cfg peer req svc"
  using relay_action [of req cfg peer] terminal_action [of req cfg peer]
  by (cases "1 < length (rq_Route req)") (auto simp: may_use_plain_def may_terminate_def)

text \<open>
  C11: the dispatcher admits exactly what the access rules allow. A request is relayed, served
  end to end or served in plain text if and only if the declarative rule of that kind holds:
  the route must start at this node and end at the named egress, relaying needs an allowed
  relay client, terminating a routed request needs a configured peer, plain text needs a
  service open to the peer and is refused for routed requests to a service with end-to-end
  keys. Everything else is refused.
\<close>

theorem stream_admission:
  "(streamAction cfg peer req = Relay \<longleftrightarrow> may_relay cfg peer req) \<and>
   (streamAction cfg peer req = ServeE2E \<longleftrightarrow> may_terminate cfg peer req \<and> rq_E2ERequired req) \<and>
   (streamAction cfg peer req = ServePlain svc \<longleftrightarrow> may_use_plain cfg peer req svc)"
  by (simp add: relay_admits e2e_admits plain_admits)

section \<open>Refusals\<close>

lemma serviceErrorCode_denied: "errorsIs e ErrAccessDenied \<Longrightarrow> \<not> errorsIs e ErrServiceNotFound \<Longrightarrow>
    serviceErrorCode e = ConnectCodeAccessDenied"
  by (simp add: serviceErrorCode_def)

lemma resolveService_Err:
  assumes "resolveService cfg peer protocol service = Err e"
  shows "serviceErrorCode e = (if \<exists>s\<in>set (cfg_Services cfg). sv_Protocol s = protocol \<and> sv_Name s = service
    then ConnectCodeAccessDenied else ConnectCodeServiceNotFound)"
proof (cases "findService cfg protocol service")
  case (Ok svc)
  then have "authorizeServicePeer svc peer protocol service = Err e"
    using assms by (cases "authorizeServicePeer svc peer protocol service") (auto simp: resolveService_def)
  then have "serviceErrorCode e = ConnectCodeAccessDenied"
    by (auto simp: authorizeServicePeer_def serviceErrorCode_def errorsIs_def ErrAccessDenied_def ErrServiceNotFound_def
        split: if_splits)
  moreover have "\<exists>s\<in>set (cfg_Services cfg). sv_Protocol s = protocol \<and> sv_Name s = service"
    using findService_Ok [OF Ok] by auto
  ultimately show ?thesis by simp
next
  case (Err e')
  then have "e = e'" using assms by (simp add: resolveService_def)
  then show ?thesis
    using Err findService_Err [OF Err] by (auto simp: findService_def findServiceIn_Err serviceErrorCode_def)
qed (simp add: findService_def)

text \<open>The code of the first rule a request breaks.\<close>

definition refusal_code :: "Config \<Rightarrow> string \<Rightarrow> ConnectRequest \<Rightarrow> ConnectCode" where
  "refusal_code cfg peer req =
    (if rq_Protocol req \<noteq> ''tcp'' then ConnectCodeUnsupportedProtocol
     else if rq_Route req \<noteq> [] \<and> \<not> (hd (rq_Route req) = cfg_NodeID cfg \<and> rq_Egress req \<in> {[], last (rq_Route req)})
     then ConnectCodeRouteInvalid
     else if rq_Route req = [] \<and> rq_Egress req \<notin> {[], cfg_NodeID cfg} then ConnectCodeUnreachableEgress
     else if may_terminate cfg peer req \<and> \<not> rq_E2ERequired req \<and>
       \<not> (\<exists>s\<in>set (cfg_Services cfg). sv_Protocol s = ''tcp'' \<and> sv_Name s = rq_Service req)
     then ConnectCodeServiceNotFound
     else ConnectCodeAccessDenied)"

lemma refuse_code:
  assumes "streamAction cfg peer req = Refuse code e"
  shows "code = refusal_code cfg peer req"
  supply refusal_code_def [simp]
proof -
  let ?v = "validateConnectRoute (cfg_NodeID cfg) (rq_Route req) (rq_Egress req)"
  let ?p = "if length (rq_Route req) = 1 then requireConfiguredPeer cfg peer else Ok ()"
  note vOk = validateConnectRoute_Ok [of "cfg_NodeID cfg" "rq_Route req" "rq_Egress req"]
  consider (proto) "rq_Protocol req \<noteq> ''tcp''"
    | (route) "rq_Protocol req = ''tcp''" "?v \<noteq> Ok ()"
    | (relay) "rq_Protocol req = ''tcp''" "?v = Ok ()" "1 < length (rq_Route req)"
    | (final) "rq_Protocol req = ''tcp''" "?v = Ok ()" "length (rq_Route req) \<le> 1"
    by linarith
  then show ?thesis
  proof cases
    case proto
    then show ?thesis using assms by (simp add: streamAction_def)
  next
    case route
    then obtain e' where "?v = Err e'" by (cases ?v) auto
    then show ?thesis using assms route vOk by (simp add: streamAction_def)
  next
    case relay
    have "\<not> may_terminate cfg peer req" using relay(3) by (auto simp: may_terminate_def)
    moreover have "code = ConnectCodeAccessDenied"
      using assms relay by (auto simp: streamAction_def split: res.splits)
    ultimately show ?thesis using relay vOk by auto
  next
    case final
    have noroute: "\<not> (rq_Route req \<noteq> [] \<and> \<not> (hd (rq_Route req) = cfg_NodeID cfg \<and> rq_Egress req \<in> {[], last (rq_Route req)}))"
      using final(2) vOk by auto
    have l: "\<not> 1 < length (rq_Route req)" using final(3) by simp
    show ?thesis
    proof (cases "?p = Ok () \<and> \<not> (rq_Egress req \<noteq> [] \<and> rq_Egress req \<noteq> cfg_NodeID cfg)")
      case True
      then have mt: "may_terminate cfg peer req"
        using terminal_checks [OF final(3), of cfg peer] final by simp
      then have "rq_Route req = [] \<longrightarrow> rq_Egress req \<in> {[], cfg_NodeID cfg}" by (auto simp: may_terminate_def)
      moreover have "\<not> rq_E2ERequired req \<and> (code = ConnectCodeAccessDenied \<and>
            (\<exists>s\<in>set (cfg_Services cfg). sv_Protocol s = ''tcp'' \<and> sv_Name s = rq_Service req) \<or>
          (\<exists>e'. resolveService cfg peer ''tcp'' (rq_Service req) = Err e' \<and> code = serviceErrorCode e'))"
      proof (cases "resolveService cfg peer ''tcp'' (rq_Service req)")
        case (Ok svc)
        then have "svc \<in> set (cfg_Services cfg) \<and> sv_Protocol svc = ''tcp'' \<and> sv_Name svc = rq_Service req"
          by (auto simp: resolveService_Ok dest: findService_Ok)
        then show ?thesis
          using assms final True l Ok by (auto simp: streamAction_def split: if_splits)
      qed (use assms final True l in \<open>auto simp: streamAction_def split: if_splits\<close>)
      ultimately show ?thesis
        using mt final noroute resolveService_Err [of cfg peer "''tcp''" "rq_Service req"] by (auto split: if_splits)
    next
      case False
      have "?p \<noteq> Panic" by simp
      then consider (peer) e' where "?p = Err e'" | (egress) "?p = Ok ()" "rq_Egress req \<noteq> []" "rq_Egress req \<noteq> cfg_NodeID cfg"
        using False by (cases ?p) auto
      then show ?thesis
      proof cases
        case peer
        then have "length (rq_Route req) = 1" "requireConfiguredPeer cfg peer = Err e'" by (auto split: if_splits)
        then show ?thesis
          using assms final noroute l terminal_checks [OF final(3), of cfg peer] by (auto simp: streamAction_def)
      next
        case egress
        then have "rq_Route req = []"
          using final vOk by (cases "rq_Route req") auto
        then show ?thesis using assms egress final by (auto simp: streamAction_def)
      qed
    qed
  qed
qed

text \<open>
  A refused request is answered with the code of the first rule it breaks: an unsupported
  protocol, an invalid route, an egress that is not this node, an unknown service, and access
  denied for everything else. The client's stream carries exactly that answer and is closed;
  the server's sessions are untouched and no other stream is opened.
\<close>

theorem refusal_delivered:
  assumes "onIn (ReadConnectRequest (sl_U L)) st = (Ok req, st1)" "streamAction (rt_cfg rt) peer req = Refuse code e"
    and "reliable (qs_out st)" "length (sl_errText L e) \<le> MaxPayloadSize - 4"
  shows "\<exists>st' d. handleStream L rt peer st = (HandlerClosed, st', None, rt) \<and> qs_closed st' \<and>
      os_data (qs_out st') = os_data (qs_out st) @ d \<and>
      (\<forall>rest e'. ReadConnectResponse \<lparr>is_data = d @ rest, is_end = e'\<rparr> =
        (Ok \<lparr>rs_OK = False, rs_Code = refusal_code (rt_cfg rt) peer req, rs_Message = sl_errText L e\<rparr>,
         \<lparr>is_data = rest, is_end = e'\<rparr>))"
proof -
  note c = refuse_code [OF assms(2), symmetric]
  let ?resp = "\<lparr>rs_OK = False, rs_Code = code, rs_Message = sl_errText L e\<rparr>"
  have v: "ConnectCode_Valid code" "code \<noteq> ConnectCodeOK"
    by (auto simp: c [symmetric] refusal_code_def ConnectCode_Valid_def qoru_consts)
  have canon: "canonResponse ?resp = ?resp" using v(2) by (simp add: canonResponse_def)
  have out: "qs_out st1 = qs_out st" using assms(1) by (auto simp: onIn_def split: prod.splits)
  have w: "WriteConnectResponse (qs_out st1) ?resp =
      (Ok (), (qs_out st1)\<lparr>os_data := os_data (qs_out st1) @ frameBytes TypeConnectResponse (responseBytes ?resp)\<rparr>)"
    using assms(3,4) out by (intro WriteConnectResponse_fits) simp_all
  have h: "handleStream L rt peer st = (HandlerClosed, rejectStream L code e st1, None, rt)"
    using assms(1,2) by (simp add: handleStream_def)
  show ?thesis
    using h w out canon ReadConnectResponse_fits [of ?resp] v(1) assms(4)
    by (intro exI [of _ "rejectStream L code e st1"] exI [of _ "frameBytes TypeConnectResponse (responseBytes ?resp)"])
      (simp add: rejectStream_def onOut_def closeStream_def c)
qed

text \<open>A server with toy libraries, for the concrete runs below.\<close>

definition toy_env :: dial_env where
  "toy_env = \<lparr>de_now = 1, de_failNow = 1, de_dial = (\<lambda>addr tls. Ok 7)\<rparr>"

definition toy_server_lib :: "qstream \<Rightarrow> server_lib" where
  "toy_server_lib outbound = \<lparr>sl_C = toy_crypto, sl_U = raw_uuid, sl_F = toy_files, sl_errText = (\<lambda>e. ''no''),
     sl_dial = (\<lambda>t. Ok 3), sl_drawn = Ok [1], sl_E1 = toy_env, sl_E2 = toy_env, sl_openSync = (\<lambda>c. Ok outbound)\<rparr>"

definition toy_runtime :: serverRuntime where
  "toy_runtime = \<lparr>rt_cfg = sample_peer_config, rt_peers = Some (newPeerSessions sample_peer_config {}), rt_e2e = None\<rparr>"

lemma raw_uuid_canonical: "is_Ok (ParseBytes raw_uuid s) \<Longrightarrow> canonical_id raw_uuid s"
  by (auto simp: canonical_id_def ParseBytes_def raw_uuid_def is_Ok_iff bindR_eq_Ok split: if_splits)

lemma incoming_request:
  assumes "valid_request raw_uuid req" "request_size req \<le> MaxPayloadSize"
  obtains d where "\<And>rest e sent. onIn (ReadConnectRequest raw_uuid) (stream_on (d @ rest) e sent) = (Ok req, stream_on rest e sent)"
    "\<And>rest e. ReadConnectRequest raw_uuid \<lparr>is_data = d @ rest, is_end = e\<rparr> = (Ok req, \<lparr>is_data = rest, is_end = e\<rparr>)"
proof -
  obtain idb where idb: "ParseBytes raw_uuid (rq_RequestID req) = Ok idb"
    using assms(1) by (auto simp: valid_request_def is_Ok_iff)
  have p: "connectRequestPayload raw_uuid req = Ok (requestBytes idb req)" "length (requestBytes idb req) \<le> MaxPayloadSize"
    using connectRequestPayload_valid [OF raw_uuid_laws assms(1) idb]
      length_requestBytes [OF ParseBytes_length [OF raw_uuid_laws idb], of req] assms(2) by simp_all
  have "canonRequest raw_uuid req = req"
    by (rule canonRequest_id, rule raw_uuid_canonical) (simp add: idb)
  with connectRequest.read_enc [OF raw_uuid_laws TrueI p] that [of "frameBytes TypeConnectRequest (requestBytes idb req)"]
  show ?thesis by (simp add: onIn_def stream_on_def)
qed

lemma sample_request_fits: "request_size sample_request \<le> MaxPayloadSize"
  by (simp add: sample_request_size qoru_consts)

section \<open>Every stream ends\<close>

text \<open>The libraries and the network return, with a value or an error.\<close>

definition server_lib_total :: "server_lib \<Rightarrow> bool" where
  "server_lib_total L \<longleftrightarrow> crypto_total (sl_C L) \<and> uuid_laws (sl_U L) \<and> file_total (sl_F L) \<and>
     (\<forall>t. sl_dial L t \<noteq> Panic) \<and> sl_drawn L \<noteq> Panic \<and> (\<forall>a c. de_dial (sl_E1 L) a c \<noteq> Panic) \<and>
     (\<forall>a c. de_dial (sl_E2 L) a c \<noteq> Panic) \<and> (\<forall>c. sl_openSync L c \<noteq> Panic)"

lemma connection_total:
  assumes "file_total F" "\<And>a c. de_dial E a c \<noteq> Panic"
  shows "fst (connection C F E p s) \<noteq> Panic"
  using assms ClientTLSConfig_total [OF assms(1), of C]
  by (auto simp: connection_def fst_pureThen_Panic split: prod.splits conn_start.splits res.splits)

lemma OpenStream_total:
  assumes "file_total F" "\<And>a c. de_dial E1 a c \<noteq> Panic" "\<And>a c. de_dial E2 a c \<noteq> Panic" "\<And>c. openSync c \<noteq> Panic"
  shows "fst (OpenStream C F E1 E2 openSync p s) \<noteq> Panic"
proof -
  have "connection C F E1 p s \<noteq> (Panic, s')" "connection C F E2 p t \<noteq> (Panic, s')" for t s'
    using connection_total [OF assms(1,2), of C p s] connection_total [OF assms(1,3), of C p t] by auto
  then show ?thesis
    using assms(4) by (auto simp: OpenStream_def split: prod.splits res.splits)
qed

lemma dialTCP_total: "(\<And>t. sl_dial L t \<noteq> Panic) \<Longrightarrow> dialTCP L t \<noteq> Panic"
  by (auto simp: dialTCP_def bindR_eq_Panic)

text \<open>A handler's outcome leaves nothing open: it did not panic, and if it is over, the stream is closed.\<close>

fun settled :: "handler_end \<Rightarrow> qstream \<Rightarrow> bool" where
  "settled HandlerPanic st = False"
| "settled HandlerClosed st = qs_closed st"
| "settled _ st = True"

lemma onOut_response: "onOut (\<lambda>w. WriteConnectResponse w resp) st \<noteq> (Panic, st')"
  using connectResponse.write_total [OF TrueI, of "qs_out st" resp] by (auto simp: onOut_def split: prod.splits)

lemma settled_reject [simp]: "qs_closed (rejectStream L code e st)"
  by (simp add: rejectStream_def closeStream_def)

lemma settled_plain:
  assumes "server_lib_total L" "handlePlaintextServiceStream L svc st = (fin, st')"
  shows "settled fin st'"
  using dialTCP_total [of L] assms onOut_response
  by (auto simp: handlePlaintextServiceStream_def server_lib_total_def closeStream_def split: res.splits prod.splits)

lemma settled_e2e:
  assumes "server_lib_total L" "handleE2EStream L rt req st = (fin, st')"
  shows "settled fin st'"
proof -
  let ?pre = "\<lambda>svc clientID. wrapErr (ErrE2EConnect ConnectCodeTargetDialFailed) (dialTCP L (sv_Target svc))"
  have "fst (serverRunHandshake (sl_C L) (sl_U L) (rt_e2e rt) req svc (sl_drawn L) (?pre svc) s) \<noteq> Panic" for svc s
    using assms(1) dialTCP_total [of L] by (intro serverRunHandshake_total) (auto simp: server_lib_total_def)
  then have np: "serverRunHandshake (sl_C L) (sl_U L) (rt_e2e rt) req svc (sl_drawn L) (?pre svc) s \<noteq> (Panic, s', t)" for svc s s' t
    by (metis fst_conv)
  have nt: "serverRunHandshake (sl_C L) (sl_U L) (rt_e2e rt) req svc (sl_drawn L) (?pre svc) s \<noteq> (Ok h, s', None)" for svc s s' h
    using serverRunHandshake_target by (metis option.distinct(1))
  show ?thesis
    using assms(2) np nt onOut_response
    by (auto simp: handleE2EStream_def closeStream_def split: res.splits prod.splits if_splits option.splits)
qed

lemma settled_conversation:
  assumes "server_lib_total L" "relayConversation L req inb outb = (fin, inb', outb')"
  shows "settled fin inb' \<and> settled fin outb'"
proof -
  have "fst (onOut (\<lambda>w. WriteConnectRequest (sl_U L) w (forwardRequest req)) outb) \<noteq> Panic"
    "\<And>st. fst (onIn ReadConnectResponse st) \<noteq> Panic"
    using assms(1) connectRequest.write_total [of "sl_U L"] connectResponse.read_total [OF TrueI]
    by (auto simp: server_lib_total_def)
  then have np: "onOut (\<lambda>w. WriteConnectRequest (sl_U L) w (forwardRequest req)) outb \<noteq> (Panic, s)"
    "onIn ReadConnectResponse st \<noteq> (Panic, s)" for s st
    by (metis fst_conv)+
  show ?thesis
    using assms(2) np onOut_response
    by (auto simp: relayConversation_def closeStream_def split: res.splits prod.splits if_splits)
qed

lemma settled_relay:
  assumes "server_lib_total L" "handleRelayStream L rt req inb = (fin, inb', outb, rt')"
  shows "settled fin inb' \<and> (\<forall>o'. outb = Some o' \<longrightarrow> settled fin o')"
proof -
  have np: "OpenStream (sl_C L) (sl_F L) (sl_E1 L) (sl_E2 L) (sl_openSync L) hop s \<noteq> (Panic, s')" for hop s s'
    using OpenStream_total [of "sl_F L" "sl_E1 L" "sl_E2 L" "sl_openSync L" "sl_C L" hop s] assms(1)
    by (auto simp: server_lib_total_def)
  show ?thesis
    using assms(2) np
    by (auto simp: handleRelayStream_def Let_def dest: settled_conversation [OF assms(1)]
        split: option.splits res.splits prod.splits)
qed

lemma handleStream_settled:
  assumes "server_lib_total L"
  shows "case handleStream L rt peer st of (fin, st', outb, rt') \<Rightarrow>
    fin \<noteq> HandlerPanic \<and> (fin = HandlerClosed \<longrightarrow> qs_closed st' \<and> (\<forall>o'. outb = Some o' \<longrightarrow> qs_closed o'))"
proof (cases "handleStream L rt peer st")
  case (fields fin st' outb rt')
  have "fst (onIn (ReadConnectRequest (sl_U L)) st) \<noteq> Panic"
    using assms connectRequest.read_total [of "sl_U L"] by (simp add: server_lib_total_def)
  then have np: "onIn (ReadConnectRequest (sl_U L)) st \<noteq> (Panic, s)" for s
    by (metis fst_conv)
  have "settled fin st' \<and> (\<forall>o'. outb = Some o' \<longrightarrow> settled fin o')"
    using fields np settled_plain [OF assms] settled_e2e [OF assms] settled_relay [OF assms]
    unfolding handleStream_def
    by (auto simp: closeStream_def split: res.splits prod.splits stream_action.splits)
  then show ?thesis
    using fields by (cases fin) auto
qed

text \<open>
  C18: every stream a peer opens is settled. Whatever bytes the peer sends and whatever the
  network, the file system and the next hop do, the handler does not panic (no index out of
  range, no nil connection is used), and when it is done without starting to proxy, the
  stream is closed, and so is the stream it opened to the next hop.
\<close>

theorem streams_settled:
  assumes "server_lib_total L"
  shows "case handleStream L rt peer st of (fin, st', outb, rt') \<Rightarrow>
    fin \<noteq> HandlerPanic \<and> (fin = HandlerClosed \<longrightarrow> qs_closed st' \<and> (\<forall>o'. outb = Some o' \<longrightarrow> qs_closed o'))"
  using handleStream_settled [OF assms] .

lemma toy_server_lib_total: "server_lib_total (toy_server_lib outb)"
  by (simp add: server_lib_total_def toy_server_lib_def toy_env_def toy_crypto_total raw_uuid_laws toy_file_total)

theorem streams_settled_witness:
  "case handleStream (toy_server_lib (stream_on [] EOF [])) toy_runtime ''b'' (stream_on [1, 1, 0] EOF []) of
     (fin, st', outb, rt') \<Rightarrow> fin \<noteq> HandlerPanic \<and> (fin = HandlerClosed \<longrightarrow> qs_closed st' \<and> (\<forall>o'. outb = Some o' \<longrightarrow> qs_closed o'))"
  by (rule streams_settled [OF toy_server_lib_total])

section \<open>Connections are made for admitted requests only\<close>

lemma handleE2EStream_proxies:
  assumes "handleE2EStream L rt req st = (ProxyEncrypted h c, st')"
  shows "\<exists>svc. findService (rt_cfg rt) (rq_Protocol req) (rq_Service req) = Ok svc \<and> isServiceE2EConfigured svc \<and>
    (\<exists>st1 st2. serverRunHandshake (sl_C L) (sl_U L) (rt_e2e rt) req svc (sl_drawn L)
       (\<lambda>clientID. wrapErr (ErrE2EConnect ConnectCodeTargetDialFailed) (dialTCP L (sv_Target svc))) st1 = (Ok h, st2, Some c))"
  using assms by (auto simp: handleE2EStream_def split: res.splits prod.splits if_splits option.splits)

lemma serverRunHandshake_client:
  assumes "serverRunHandshake C U rto req svc drawn prepare st = (Ok h, st', t)"
  shows "sv_Peers svc = [] \<or> hr_clientID h \<in> set (sv_Peers svc)"
  using assms unfolding serverRunHandshake_def Let_def case_prod_unfold
  by (cases rto) (auto simp: pureThen_Ok authorizeServicePeer_Ok)

definition admitted_end :: "server_lib \<Rightarrow> Config \<Rightarrow> string \<Rightarrow> qstream \<Rightarrow> handler_end \<Rightarrow> bool" where
  "admitted_end L cfg peer st fin \<longleftrightarrow> (case fin of
      ProxyPlain c \<Rightarrow> \<exists>req i svc. ReadConnectRequest (sl_U L) (qs_in st) = (Ok req, i) \<and>
        may_use_plain cfg peer req svc \<and> dialTCP L (sv_Target svc) = Ok c
    | ProxyEncrypted h c \<Rightarrow> \<exists>req i svc. ReadConnectRequest (sl_U L) (qs_in st) = (Ok req, i) \<and>
        may_terminate cfg peer req \<and> rq_E2ERequired req \<and>
        findService cfg ''tcp'' (rq_Service req) = Ok svc \<and> isServiceE2EConfigured svc \<and>
        (sv_Peers svc = [] \<or> hr_clientID h \<in> set (sv_Peers svc)) \<and> dialTCP L (sv_Target svc) = Ok c
    | ProxyRelay \<Rightarrow> \<exists>req i. ReadConnectRequest (sl_U L) (qs_in st) = (Ok req, i) \<and> may_relay cfg peer req
    | _ \<Rightarrow> True)"

lemma handleStream_admitted:
  assumes "handleStream L rt peer st = (fin, st', outb, rt')"
  shows "admitted_end L (rt_cfg rt) peer st fin"
  supply admitted_end_def [simp]
proof -
  obtain m i where r: "ReadConnectRequest (sl_U L) (qs_in st) = (m, i)" by fastforce
  show ?thesis
  proof (cases m)
    case (Ok req)
    let ?st = "st\<lparr>qs_in := i\<rparr>"
    have rd: "onIn (ReadConnectRequest (sl_U L)) st = (Ok req, ?st)" using r Ok by (simp add: onIn_def)
    show ?thesis
    proof (cases "streamAction (rt_cfg rt) peer req")
      case (Refuse code e)
      then show ?thesis using assms rd by (auto simp: handleStream_def)
    next
      case Relay
      then have "may_relay (rt_cfg rt) peer req" using relay_admits by blast
      moreover have "handleRelayStream L rt req ?st = (fin, st', outb, rt')"
        using assms rd Relay by (simp add: handleStream_def)
      then have "fin \<in> {HandlerClosed, HandlerPanic, ProxyRelay}"
        by (auto simp: handleRelayStream_def relayConversation_def Let_def split: option.splits res.splits prod.splits if_splits)
      ultimately show ?thesis using r Ok by auto
    next
      case ServeE2E
      then have t: "may_terminate (rt_cfg rt) peer req" "rq_E2ERequired req" using e2e_admits by blast+
      have "handleE2EStream L rt req ?st = (fin, st')"
        using assms rd ServeE2E by (auto simp: handleStream_def split: prod.splits)
      moreover from this have "fin \<in> {HandlerClosed, HandlerPanic} \<or> (\<exists>h c. fin = ProxyEncrypted h c)"
        by (auto simp: handleE2EStream_def split: option.splits res.splits prod.splits if_splits)
      moreover have "\<exists>svc. findService (rt_cfg rt) ''tcp'' (rq_Service req) = Ok svc \<and> isServiceE2EConfigured svc \<and>
          (sv_Peers svc = [] \<or> hr_clientID h \<in> set (sv_Peers svc)) \<and> dialTCP L (sv_Target svc) = Ok c"
        if "handleE2EStream L rt req ?st = (ProxyEncrypted h c, st')" for h c
        using handleE2EStream_proxies [OF that] t(1)
        by (fastforce dest: serverRunHandshake_client prepared_authorized simp: may_terminate_def)
      ultimately show ?thesis using r Ok t by fastforce
    next
      case (ServePlain svc)
      then have "may_use_plain (rt_cfg rt) peer req svc" using plain_admits by blast
      moreover have "handlePlaintextServiceStream L svc ?st = (fin, st')"
        using assms rd ServePlain by (auto simp: handleStream_def split: prod.splits)
      then have "fin \<in> {HandlerClosed, HandlerPanic} \<or> (\<exists>c. fin = ProxyPlain c \<and> dialTCP L (sv_Target svc) = Ok c)"
        by (auto simp: handlePlaintextServiceStream_def split: res.splits prod.splits)
      ultimately show ?thesis using r Ok by auto
    qed
  qed (use assms r in \<open>auto simp: handleStream_def onIn_def\<close>)
qed


definition plain_config :: Config where
  "plain_config = sample_peer_config\<lparr>cfg_Services := [\<lparr>sv_Name = ''echo'', sv_Protocol = ''tcp'', sv_Target = ''h:1'',
     sv_Peers = [''b''], sv_E2E = \<lparr>se_Cert = [], se_Key = []\<rparr>\<rparr>]\<rparr>"

definition plain_request :: ConnectRequest where
  "plain_request = sample_request\<lparr>rq_Egress := [], rq_Route := [], rq_E2ERequired := False, rq_E2ERoute := []\<rparr>"

lemma plain_request_valid: "valid_request raw_uuid plain_request" "request_size plain_request \<le> MaxPayloadSize"
  using sample_request_valid
  by (simp_all add: valid_request_def request_size_def plain_request_def sample_request_def ok_route_def routeBytes_def qoru_consts)

lemma plain_request_admitted:
  "may_use_plain plain_config ''b'' plain_request (hd (cfg_Services plain_config))"
  by (simp add: may_use_plain_def may_terminate_def plain_request_def sample_request_def plain_config_def findService_def
      isServiceE2EConfigured_def)

lemma dial_h1: "dialTCP (toy_server_lib outb) ''h:1'' = Ok 3"
proof -
  have "is_Ok (SplitHostPort ''h:1'')" by code_simp
  then show ?thesis by (cases "SplitHostPort ''h:1''") (simp_all add: dialTCP_def toy_server_lib_def)
qed


section \<open>Relaying\<close>

lemma relay_exchange:
  assumes "uuid_laws (sl_U L)" "ReadConnectRequest (sl_U L) (qs_in st) = (Ok req, i)" "may_relay (rt_cfg rt) peer req"
    and "rt_peers rt = Some ps"
    and "OpenStream (sl_C L) (sl_F L) (sl_E1 L) (sl_E2 L) (sl_openSync L) (rq_Route req ! 1) ps = (Ok outb, ps')"
    and "reliable (qs_out outb)" "reliable (qs_out st)" "ReadConnectResponse (qs_in outb) = (Ok resp, i')"
  shows "\<exists>st' outb' d d'. handleStream L rt peer st =
      (if rs_OK resp then ProxyRelay else HandlerClosed, st', Some outb', rt\<lparr>rt_peers := Some ps'\<rparr>) \<and>
    os_data (qs_out outb') = os_data (qs_out outb) @ d \<and>
    (\<forall>rest e. ReadConnectRequest (sl_U L) \<lparr>is_data = d @ rest, is_end = e\<rparr> =
      (Ok (req\<lparr>rq_Route := drop 1 (rq_Route req)\<rparr>), \<lparr>is_data = rest, is_end = e\<rparr>)) \<and>
    os_data (qs_out st') = os_data (qs_out st) @ d' \<and>
    (\<forall>rest e. ReadConnectResponse \<lparr>is_data = d' @ rest, is_end = e\<rparr> = (Ok resp, \<lparr>is_data = rest, is_end = e\<rparr>)) \<and>
    qs_in st' = i \<and> qs_in outb' = i'"
proof -
  have len: "1 < length (rq_Route req)" using assms(3) by (simp add: may_relay_def)
  obtain p where p: "connectRequestPayload (sl_U L) (forwardRequest req) = Ok p" "length p \<le> MaxPayloadSize"
    using forward_encodes(1) [OF assms(1,2) len] by blast
  note canon = forward_encodes(2) [OF assms(1,2) len]
  obtain q where q: "connectResponsePayload resp = Ok q" "length q \<le> MaxPayloadSize"
      "\<And>rest e. ReadConnectResponse \<lparr>is_data = frameBytes TypeConnectResponse q @ rest, is_end = e\<rparr> =
        (Ok resp, \<lparr>is_data = rest, is_end = e\<rparr>)"
    using response_reencodes [OF assms(8)] by blast
  have a: "streamAction (rt_cfg rt) peer req = Relay" using assms(3) relay_admits by blast
  have w1: "WriteConnectRequest (sl_U L) (qs_out outb) (forwardRequest req) =
      (Ok (), (qs_out outb)\<lparr>os_data := os_data (qs_out outb) @ frameBytes TypeConnectRequest p\<rparr>)"
    using connectRequest.write_enc [OF p assms(6)] .
  have w2: "WriteConnectResponse (qs_out st) resp =
      (Ok (), (qs_out st)\<lparr>os_data := os_data (qs_out st) @ frameBytes TypeConnectResponse q\<rparr>)"
    using connectResponse.write_enc [OF q(1,2) assms(7)] .
  have rd: "ReadConnectRequest (sl_U L) \<lparr>is_data = frameBytes TypeConnectRequest p @ rest, is_end = e\<rparr> =
      (Ok (req\<lparr>rq_Route := drop 1 (rq_Route req)\<rparr>), \<lparr>is_data = rest, is_end = e\<rparr>)" for rest e
    using connectRequest.read_enc [OF assms(1) TrueI p] canon by (simp add: forwardRequest_def)
  show ?thesis
    using assms(2,4,5,8) a w1 w2 rd q(3)
    by (intro exI [of _ "if rs_OK resp then st\<lparr>qs_in := i, qs_out := (qs_out st)\<lparr>os_data := os_data (qs_out st) @ frameBytes TypeConnectResponse q\<rparr>\<rparr>
          else closeStream (st\<lparr>qs_in := i, qs_out := (qs_out st)\<lparr>os_data := os_data (qs_out st) @ frameBytes TypeConnectResponse q\<rparr>\<rparr>)"]
        exI [of _ "if rs_OK resp then outb\<lparr>qs_out := (qs_out outb)\<lparr>os_data := os_data (qs_out outb) @ frameBytes TypeConnectRequest p\<rparr>, qs_in := i'\<rparr>
          else closeStream (outb\<lparr>qs_out := (qs_out outb)\<lparr>os_data := os_data (qs_out outb) @ frameBytes TypeConnectRequest p\<rparr>, qs_in := i'\<rparr>)"]
        exI [of _ "frameBytes TypeConnectRequest p"] exI [of _ "frameBytes TypeConnectResponse q"])
      (simp add: handleStream_def handleRelayStream_def relayConversation_def onIn_def onOut_def closeStream_def Let_def)
qed

text \<open>
  C16: a relay is transparent. Once the stream to the next hop is open, the next hop receives
  exactly the request this node received, less this node's own entry of the route: identifier,
  service, egress, end-to-end flag and end-to-end route are those of the client. The answer of
  the next hop reaches the previous one unchanged, refusals with their code and message
  included, and neither side has lost a byte of what follows. Proxying starts if and only if
  the next hop accepted.
\<close>

theorem relay_transparent:
  assumes "uuid_laws (sl_U L)" "ReadConnectRequest (sl_U L) (qs_in st) = (Ok req, i)" "may_relay (rt_cfg rt) peer req"
    and "rt_peers rt = Some ps"
    and "OpenStream (sl_C L) (sl_F L) (sl_E1 L) (sl_E2 L) (sl_openSync L) (rq_Route req ! 1) ps = (Ok outb, ps')"
    and "reliable (qs_out outb)" "reliable (qs_out st)" "ReadConnectResponse (qs_in outb) = (Ok resp, i')"
  shows "\<exists>st' outb' d d'. handleStream L rt peer st =
      (if rs_OK resp then ProxyRelay else HandlerClosed, st', Some outb', rt\<lparr>rt_peers := Some ps'\<rparr>) \<and>
    os_data (qs_out outb') = os_data (qs_out outb) @ d \<and>
    (\<forall>rest e. ReadConnectRequest (sl_U L) \<lparr>is_data = d @ rest, is_end = e\<rparr> =
      (Ok (req\<lparr>rq_Route := drop 1 (rq_Route req)\<rparr>), \<lparr>is_data = rest, is_end = e\<rparr>)) \<and>
    os_data (qs_out st') = os_data (qs_out st) @ d' \<and>
    (\<forall>rest e. ReadConnectResponse \<lparr>is_data = d' @ rest, is_end = e\<rparr> = (Ok resp, \<lparr>is_data = rest, is_end = e\<rparr>)) \<and>
    qs_in st' = i \<and> qs_in outb' = i'"
  using relay_exchange [OF assms] .

lemma toy_OpenStream:
  "\<exists>ps'. OpenStream toy_crypto toy_files toy_env toy_env (\<lambda>c. Ok outb) ''b'' (newPeerSessions sample_peer_config {}) = (Ok outb, ps')"
  by (simp add: OpenStream_def connection_def connectionStart_def connectionFinish_def newPeerSessions_def
      sample_peer_config_def toy_env_def ClientTLSConfig_def loadCertificateAndCA_def toy_files_def Let_def bytes_of_def)

lemma sample_request_relayed: "may_relay sample_peer_config ''c'' sample_request"
  by (simp add: may_relay_def sample_request_def sample_peer_config_def)

theorem relay_transparent_witness:
  "\<exists>i0 d st' outb outb' rt'. handleStream (toy_server_lib outb) toy_runtime ''c'' (stream_on i0 EOF []) =
      (HandlerClosed, st', Some outb', rt') \<and>
    ReadConnectRequest raw_uuid \<lparr>is_data = i0, is_end = EOF\<rparr> = (Ok sample_request, \<lparr>is_data = [], is_end = EOF\<rparr>) \<and>
    os_data (qs_out outb') = d \<and>
    ReadConnectRequest raw_uuid \<lparr>is_data = d @ [1], is_end = EOF\<rparr> =
      (Ok (sample_request\<lparr>rq_Route := [''b'']\<rparr>), \<lparr>is_data = [1], is_end = EOF\<rparr>)"
proof -
  let ?resp = "\<lparr>rs_OK = False, rs_Code = ConnectCodeServiceNotFound, rs_Message = []\<rparr>"
  let ?b = "frameBytes TypeConnectResponse (responseBytes ?resp)"
  let ?outb = "stream_on ?b EOF []"
  have resp: "ReadConnectResponse (qs_in ?outb) = (Ok ?resp, \<lparr>is_data = [], is_end = EOF\<rparr>)"
    using ReadConnectResponse_fits [of ?resp "[]" EOF]
    by (simp add: stream_on_def canonResponse_def ConnectCode_Valid_def qoru_consts)
  obtain i0 where "\<And>rest e. ReadConnectRequest raw_uuid \<lparr>is_data = i0 @ rest, is_end = e\<rparr> =
      (Ok sample_request, \<lparr>is_data = rest, is_end = e\<rparr>)"
    using incoming_request [OF sample_request_valid sample_request_fits] by metis
  from this [of "[]" EOF]
  have rq: "ReadConnectRequest raw_uuid (qs_in (stream_on i0 EOF [])) = (Ok sample_request, \<lparr>is_data = [], is_end = EOF\<rparr>)"
    by (simp add: stream_on_def)
  obtain ps' where ps: "OpenStream toy_crypto toy_files toy_env toy_env (\<lambda>c. Ok ?outb) ''b'' (newPeerSessions sample_peer_config {}) = (Ok ?outb, ps')"
    using toy_OpenStream [of ?outb] by (elim exE)
  let ?L = "toy_server_lib ?outb"
  have L: "sl_U ?L = raw_uuid" by (simp add: toy_server_lib_def)
  have hop: "rq_Route sample_request ! 1 = ''b''" "drop 1 (rq_Route sample_request) = [''b'']"
    by (simp_all add: sample_request_def)
  have open_b: "OpenStream (sl_C ?L) (sl_F ?L) (sl_E1 ?L) (sl_E2 ?L) (sl_openSync ?L) (rq_Route sample_request ! 1)
      (newPeerSessions sample_peer_config {}) = (Ok ?outb, ps')"
    using ps by (simp only: hop toy_server_lib_def server_lib.select_convs)
  have rel: "may_relay (rt_cfg toy_runtime) ''c'' sample_request" "rt_peers toy_runtime = Some (newPeerSessions sample_peer_config {})"
    using sample_request_relayed by (simp_all add: toy_runtime_def)
  have r: "reliable (qs_out ?outb)" "reliable (qs_out (stream_on i0 EOF []))" by (simp_all add: stream_on_def)
  obtain st' outb' d where
    "handleStream ?L toy_runtime ''c'' (stream_on i0 EOF []) = (HandlerClosed, st', Some outb', toy_runtime\<lparr>rt_peers := Some ps'\<rparr>)"
    "os_data (qs_out outb') = os_data (qs_out ?outb) @ d"
    "ReadConnectRequest raw_uuid \<lparr>is_data = d @ [1], is_end = EOF\<rparr> =
       (Ok (sample_request\<lparr>rq_Route := [''b'']\<rparr>), \<lparr>is_data = [1], is_end = EOF\<rparr>)"
    using relay_transparent [of ?L, unfolded L, OF raw_uuid_laws rq rel open_b r resp] unfolding hop
    by (simp only: ConnectResponse.select_convs if_False) blast
  with rq show ?thesis
    by (intro exI [of _ i0] exI [of _ d] exI [of _ st'] exI [of _ ?outb] exI [of _ outb']
        exI [of _ "toy_runtime\<lparr>rt_peers := Some ps'\<rparr>"]) (simp add: stream_on_def)
qed

section \<open>Failures of the end-to-end set-up\<close>

lemma writeE2ECloseConnectError_reliable:
  assumes "reliable (qs_out st)" "ConnectCode_Valid code" "length (errText e) \<le> MaxE2ECloseMessageLength"
  shows "snd (writeE2ECloseConnectError errText code e st) = st\<lparr>qs_out := (qs_out st)\<lparr>os_data := os_data (qs_out st) @
    frameBytes TypeE2EClose (closeBytes \<lparr>ec_Code = CloseCodeError, ec_ConnectCode = code, ec_Message = errText e\<rparr>)\<rparr>\<rparr>"
proof -
  let ?c = "\<lparr>ec_Code = CloseCodeError, ec_ConnectCode = code, ec_Message = errText e\<rparr>"
  have v: "valid_close ?c" using assms(2,3) by (simp add: valid_close_def)
  then have "closePayload ?c = Ok (closeBytes ?c)" by (simp add: closePayload_Ok)
  from e2eClose.write_enc [OF this length_closeBytes [OF v] assms(1)] show ?thesis
    by (simp add: writeE2ECloseConnectError_def onOut_def)
qed

lemma setup_error_codes:
  "authorizeServicePeer svc peer protocol service = Err e \<Longrightarrow>
    e2eConnectErrorCode (ErrPhase p e) = ConnectCodeAccessDenied"
  "e2eConnectErrorCode (ErrPhase p (ErrE2EConnect code e)) = code"
  by (auto simp: authorizeServicePeer_def e2eConnectErrorCode_def serviceErrorCode_def errorsAs_def errorsIs_def
      ErrAccessDenied_def ErrServiceNotFound_def split: if_splits)

text \<open>What the handshake fails with when the client is not authorised, or when the target cannot be dialled.\<close>

definition setup_refusal :: "ServiceConfig \<Rightarrow> string \<Rightarrow> ConnectRequest \<Rightarrow> go_error \<Rightarrow> go_error" where
  "setup_refusal svc ident req e0 =
     (if sv_Peers svc = [] \<or> ident \<in> set (sv_Peers svc)
      then ErrPhase ''prepare_service'' (ErrE2EConnect ConnectCodeTargetDialFailed e0)
      else ErrPhase ''authorize_client'' (ErrorfW ''%w: peer %q is not allowed to access %s service %q''
        [FQ ident, FS (rq_Protocol req), FQ (rq_Service req)] ErrAccessDenied))"

lemma refused_setup:
  assumes "serviceCertificate ert svc = Ok cert" "ReadE2EClientHello (qs_in st) = (Ok hello, i)"
    "VerifyClientHello C U (serverContext req) hello (Some (sr_nodeRoots ert)) = Ok (ident, leaf)"
    "\<not> (sv_Peers svc = [] \<or> ident \<in> set (sv_Peers svc)) \<or> prepare ident = Err (ErrE2EConnect ConnectCodeTargetDialFailed e0)"
  shows "serverRunHandshake C U (Some ert) req svc drawn prepare st = (Err (setup_refusal svc ident req e0), st\<lparr>qs_in := i\<rparr>, None)"
    and "e2eConnectErrorCode (setup_refusal svc ident req e0) = (if sv_Peers svc = [] \<or> ident \<in> set (sv_Peers svc)
      then ConnectCodeTargetDialFailed else ConnectCodeAccessDenied)"
proof -
  have a: "authorizeServicePeer svc ident (rq_Protocol req) (rq_Service req) = Err (ErrorfW ''%w: peer %q is not allowed to access %s service %q''
        [FQ ident, FS (rq_Protocol req), FQ (rq_Service req)] ErrAccessDenied)" if "\<not> (sv_Peers svc = [] \<or> ident \<in> set (sv_Peers svc))"
    using that by (simp add: authorizeServicePeer_def list_ex_iff)
  show "serverRunHandshake C U (Some ert) req svc drawn prepare st = (Err (setup_refusal svc ident req e0), st\<lparr>qs_in := i\<rparr>, None)"
    using assms a authorizeServicePeer_Ok [of svc ident "rq_Protocol req" "rq_Service req"]
    by (auto simp: serverRunHandshake_def onIn_def setup_refusal_def)
  show "e2eConnectErrorCode (setup_refusal svc ident req e0) = (if sv_Peers svc = [] \<or> ident \<in> set (sv_Peers svc)
      then ConnectCodeTargetDialFailed else ConnectCodeAccessDenied)"
    using setup_error_codes(1) [OF a, of "''authorize_client''"] setup_error_codes(2)
    by (auto simp: setup_refusal_def)
qed

text \<open>
  The client learns why an end-to-end connection was refused. When the client is not
  authorised for the service, or the target cannot be dialled, the answer on the stream is a
  positive connect response followed, in place of the server hello, by a close frame; the
  client's \<open>readE2EServerHelloOrClose\<close> returns it as a \<open>CloseError\<close> with the connect code
  ACCESS_DENIED or TARGET_DIAL_FAILED and the server's message. The stream is closed and no
  target connection is left behind.
\<close>

theorem e2e_refusal_reported:
  assumes "ReadConnectRequest (sl_U L) (qs_in st) = (Ok req, i)" "may_terminate (rt_cfg rt) peer req" "rq_E2ERequired req"
    and "findService (rt_cfg rt) (rq_Protocol req) (rq_Service req) = Ok svc" "isServiceE2EConfigured svc"
    and "rt_e2e rt = Some ert" "serviceCertificate ert svc = Ok cert" "ReadE2EClientHello i = (Ok hello, i')"
    and "VerifyClientHello (sl_C L) (sl_U L) (serverContext req) hello (Some (sr_nodeRoots ert)) = Ok (ident, leaf)"
    and "\<not> (sv_Peers svc = [] \<or> ident \<in> set (sv_Peers svc)) \<or> dialTCP L (sv_Target svc) = Err e0"
    and "reliable (qs_out st)" "length (sl_errText L (setup_refusal svc ident req e0)) \<le> MaxE2ECloseMessageLength"
  shows "\<exists>st' d. handleStream L rt peer st = (HandlerClosed, st', None, rt) \<and> qs_closed st' \<and>
    os_data (qs_out st') = os_data (qs_out st) @ d \<and>
    (\<forall>rest e. \<exists>j. ReadConnectResponse \<lparr>is_data = d @ rest, is_end = e\<rparr> = (Ok okResponse, j) \<and>
      readE2EServerHelloOrClose j =
        (Err (ErrClose \<lparr>ce_Code = CloseCodeError,
           ce_ConnectCode = (if sv_Peers svc = [] \<or> ident \<in> set (sv_Peers svc)
             then ConnectCodeTargetDialFailed else ConnectCodeAccessDenied), ce_Message = sl_errText L (setup_refusal svc ident req e0)\<rparr>),
         \<lparr>is_data = rest, is_end = e\<rparr>))"
proof -
  let ?code = "if sv_Peers svc = [] \<or> ident \<in> set (sv_Peers svc) then ConnectCodeTargetDialFailed else ConnectCodeAccessDenied"
  let ?pre = "\<lambda>clientID :: string. wrapErr (ErrE2EConnect ConnectCodeTargetDialFailed) (dialTCP L (sv_Target svc))"
  let ?ok = "frameBytes TypeConnectResponse (responseBytes okResponse)"
  let ?st1 = "st\<lparr>qs_in := i, qs_out := (qs_out st)\<lparr>os_data := os_data (qs_out st) @ ?ok\<rparr>\<rparr>"
  have w: "WriteConnectResponse (qs_out st) okResponse = (Ok (), (qs_out st)\<lparr>os_data := os_data (qs_out st) @ ?ok\<rparr>)"
    using assms(11) by (intro WriteConnectResponse_fits) (simp_all add: okResponse_def)
  let ?e = "setup_refusal svc ident req e0"
  have e: "serverRunHandshake (sl_C L) (sl_U L) (Some ert) req svc (sl_drawn L) ?pre ?st1 = (Err ?e, ?st1\<lparr>qs_in := i'\<rparr>, None)"
      "e2eConnectErrorCode ?e = ?code"
    using refused_setup(1) [OF assms(7) _ assms(9), of ?st1 i' ?pre e0 "sl_drawn L"]
      refused_setup(2) [OF assms(7) _ assms(9), of ?st1 i' ?pre e0] assms(8,10) by auto
  let ?c = "\<lparr>ec_Code = CloseCodeError, ec_ConnectCode = ?code, ec_Message = sl_errText L ?e\<rparr>"
  have code: "ConnectCode_Valid ?code" by (simp add: ConnectCode_Valid_def qoru_consts)
  then have v: "valid_close ?c" using assms(12) by (simp add: valid_close_def)
  have a: "streamAction (rt_cfg rt) peer req = ServeE2E" using assms(2,3) e2e_admits by blast
  have h: "handleStream L rt peer st = (HandlerClosed,
      closeStream (snd (writeE2ECloseConnectError (sl_errText L) ?code ?e (?st1\<lparr>qs_in := i'\<rparr>))), None, rt)"
    using assms(1,4-6) a w e by (simp add: handleStream_def handleE2EStream_def onIn_def onOut_def)
  have cl: "snd (writeE2ECloseConnectError (sl_errText L) ?code ?e (?st1\<lparr>qs_in := i'\<rparr>)) = ?st1\<lparr>qs_in := i',
      qs_out := (qs_out st)\<lparr>os_data := os_data (qs_out st) @ ?ok @ frameBytes TypeE2EClose (closeBytes ?c)\<rparr>\<rparr>"
    using writeE2ECloseConnectError_reliable [of "?st1\<lparr>qs_in := i'\<rparr>" ?code "sl_errText L" ?e] assms(11,12) code by simp
  have ok: "canonResponse okResponse = okResponse" "ConnectCode_Valid (rs_Code okResponse)"
    by (simp_all add: canonResponse_def okResponse_def ConnectCode_Valid_def qoru_consts)
  have "ReadConnectResponse \<lparr>is_data = (?ok @ frameBytes TypeE2EClose (closeBytes ?c)) @ rest, is_end = e'\<rparr> =
        (Ok okResponse, \<lparr>is_data = frameBytes TypeE2EClose (closeBytes ?c) @ rest, is_end = e'\<rparr>)" for rest e'
    using ReadConnectResponse_fits [of okResponse "frameBytes TypeE2EClose (closeBytes ?c) @ rest" e'] ok
    by (simp add: okResponse_def)
  then show ?thesis
    using h cl readE2EServerHelloOrClose_close [OF v]
    by (intro exI [of _ "closeStream (snd (writeE2ECloseConnectError (sl_errText L) ?code ?e (?st1\<lparr>qs_in := i'\<rparr>)))"]
        exI [of _ "?ok @ frameBytes TypeE2EClose (closeBytes ?c)"])
      (simp add: closeStream_def)
qed

definition toy_egress :: serverRuntime where
  "toy_egress = \<lparr>rt_cfg = sample_peer_config\<lparr>cfg_NodeID := ''b'', cfg_Services := [toy_service],
       cfg_Peers := [\<lparr>pc_ID = ''a'', pc_Address = [], pc_Dial = False\<rparr>]\<rparr>, rt_peers = None, rt_e2e = Some toy_server\<rparr>"

lemma toy_request_valid: "valid_request raw_uuid toy_request" "request_size toy_request \<le> MaxPayloadSize"
  using sample_request_valid
  by (simp_all add: valid_request_def request_size_def toy_request_def sample_request_def ok_route_def ok_hop_def
      routeBytes_def qoru_consts)

lemma toy_request_terminates:
  "may_terminate (rt_cfg toy_egress) ''a'' toy_request" "rq_E2ERequired toy_request"
  "findService (rt_cfg toy_egress) (rq_Protocol toy_request) (rq_Service toy_request) = Ok toy_service"
  "isServiceE2EConfigured toy_service" "rt_e2e toy_egress = Some toy_server"
  "serverContext toy_request = clientContext ''abcdefpaaaaaaaaa'' toy_candidate"
  by (simp_all add: may_terminate_def toy_egress_def toy_request_def findService_def toy_service_def
      isServiceE2EConfigured_def serverContext_def clientContext_def toy_candidate_def)

end
