(* ===== verification/Client_Session.thy ===== *)
theory Client_Session
  imports Protocol Identity Reconnect Quic
begin

text \<open>
  The client's streams and sessions (\<^verbatim>\<open>internal/client/stream.go\<close>, \<^verbatim>\<open>session.go\<close>): one QUIC
  connection per configured server, dialled when needed and after a failure only when the
  backoff has passed; a stream is opened on it by sending a connect request and reading the
  answer. The mutex is held while \<open>connection\<close> dials, so every operation is one step.
  \<open>us_dead\<close> holds the connections whose context has ended (\<open>conn.Context().Err()\<close>).
\<close>

section \<open>Streams (\<^verbatim>\<open>stream.go\<close>)\<close>

fun asRejected :: "go_error \<Rightarrow> ConnectRejectedError option" where
  "asRejected (ErrRejected r) = Some r"
| "asRejected _ = None"

definition isConnectRejected :: "go_error \<Rightarrow> bool" where
  "isConnectRejected err = (errorsAs asRejected err \<noteq> None)"

definition ConnectToServer ::
    "crypto_lib \<Rightarrow> file_lib \<Rightarrow> (string \<Rightarrow> tls_config \<Rightarrow> conn res) \<Rightarrow> IdentityConfig \<Rightarrow> ServerConfig \<Rightarrow> conn res" where
  "ConnectToServer C F quicDial identityCfg serverCfg =
     bindR (ClientTLSConfig C F identityCfg (sc_ID serverCfg)) (\<lambda>tlsConfig.
     quicDial (sc_Address serverCfg) tlsConfig)"

text \<open>The request \<open>OpenTCPStream\<close> sends.\<close>

definition tcpRequest :: "string \<Rightarrow> string \<Rightarrow> string \<Rightarrow> string list \<Rightarrow> bool \<Rightarrow> ConnectRequest" where
  "tcpRequest requestID service egress route e2eRequired =
     \<lparr>rq_RequestID = requestID, rq_Protocol = ''tcp'', rq_Service = service, rq_Egress = egress, rq_Route = route,
      rq_E2ERequired = e2eRequired, rq_E2ERoute = (if e2eRequired then [] @ route else [])\<rparr>"

text \<open>
  \<open>OpenTCPStream\<close>: the first argument is what \<open>conn.OpenStreamSync\<close> gives; the result comes
  with the stream that was closed when a later step failed.
\<close>

definition OpenTCPStream ::
    "uuid_lib \<Rightarrow> qstream res \<Rightarrow> string \<Rightarrow> string \<Rightarrow> string \<Rightarrow> string list \<Rightarrow> bool \<Rightarrow> qstream res \<times> qstream option" where
  "OpenTCPStream U opened requestID service egress route e2eRequired =
     (case opened of
        Err e \<Rightarrow> (Err e, None)
      | Panic \<Rightarrow> (Panic, None)
      | Ok stream \<Rightarrow>
          let req = tcpRequest requestID service egress route e2eRequired in
          (case onOut (\<lambda>w. WriteConnectRequest U w req) stream of
             (Err e, stream) \<Rightarrow> (Err e, Some (closeStream stream))
           | (Panic, stream) \<Rightarrow> (Panic, Some stream)
           | (Ok _, stream) \<Rightarrow>
               (case onIn ReadConnectResponse stream of
                  (Err e, stream) \<Rightarrow> (Err e, Some (closeStream stream))
                | (Panic, stream) \<Rightarrow> (Panic, Some stream)
                | (Ok resp, stream) \<Rightarrow>
                    if \<not> rs_OK resp
                    then (Err (ErrRejected \<lparr>cr_Code = rs_Code resp, cr_Message = rs_Message resp\<rparr>), Some (closeStream stream))
                    else (Ok stream, None))))"

section \<open>One server's session (\<^verbatim>\<open>session.go\<close>)\<close>

record reconnectingUpstreamSession =
  us_nodeID :: string
  us_identity :: IdentityConfig
  us_server :: ServerConfig
  us_conn :: "conn option"
  us_closed :: bool
  us_nextDial :: time
  us_lastDialErr :: "go_error option"
  us_backoffFailCount :: nat
  us_dead :: "conn set"

definition newReconnectingUpstreamSession ::
    "string \<Rightarrow> IdentityConfig \<Rightarrow> ServerConfig \<Rightarrow> conn set \<Rightarrow> reconnectingUpstreamSession" where
  "newReconnectingUpstreamSession nodeID identity server dead =
     \<lparr>us_nodeID = nodeID, us_identity = identity, us_server = server, us_conn = None, us_closed = False,
      us_nextDial = 0, us_lastDialErr = None, us_backoffFailCount = 0, us_dead = dead\<rparr>"

definition closeConnection :: "conn \<Rightarrow> reconnectingUpstreamSession \<Rightarrow> reconnectingUpstreamSession" where
  "closeConnection c s = s\<lparr>us_dead := insert c (us_dead s)\<rparr>"

definition recordDialFailure :: "time \<Rightarrow> go_error \<Rightarrow> reconnectingUpstreamSession \<Rightarrow> reconnectingUpstreamSession" where
  "recordDialFailure now err s =
     (let delay = backoffDelay (us_backoffFailCount s) in
      s\<lparr>us_backoffFailCount := us_backoffFailCount s + 1, us_nextDial := now + delay, us_lastDialErr := Some err\<rparr>)"

definition resetDialBackoff :: "reconnectingUpstreamSession \<Rightarrow> reconnectingUpstreamSession" where
  "resetDialBackoff s = s\<lparr>us_nextDial := 0, us_lastDialErr := None, us_backoffFailCount := 0\<rparr>"

text \<open>What one attempt meets: the clock, the outcome of \<open>quic.DialAddr\<close>, and of \<open>OpenStreamSync\<close>.\<close>

record client_env =
  cv_now :: time
  cv_dial :: "string \<Rightarrow> tls_config \<Rightarrow> conn res"
  cv_open :: "conn \<Rightarrow> qstream res"

definition upstreamConnection ::
    "crypto_lib \<Rightarrow> file_lib \<Rightarrow> client_env \<Rightarrow> reconnectingUpstreamSession \<Rightarrow> conn res \<times> reconnectingUpstreamSession" where
  "upstreamConnection C F E s =
     (if us_closed s then (Err (Errorf ''client session closed'' []), s)
      else
        let dialIt = (\<lambda>s. let now = cv_now E in
          if \<not> isZeroTime (us_nextDial s) \<and> now < us_nextDial s
          then (Err (ErrReconnectBackoff (sc_ID (us_server s)) (sc_Address (us_server s)) (us_nextDial s)
                  (us_lastDialErr s)), s)
          else case ConnectToServer C F (cv_dial E) (us_identity s) (us_server s) of
              Err e \<Rightarrow> (Err e, recordDialFailure now e s)
            | Panic \<Rightarrow> (Panic, s)
            | Ok conn \<Rightarrow> (Ok conn, resetDialBackoff (s\<lparr>us_conn := Some conn\<rparr>))) in
        case us_conn s of
          Some conn \<Rightarrow>
            if conn \<notin> us_dead s then (Ok conn, s)
            else dialIt ((closeConnection conn s)\<lparr>us_conn := None\<rparr>)
        | None \<Rightarrow> dialIt s)"

definition dropConnection :: "conn \<Rightarrow> reconnectingUpstreamSession \<Rightarrow> reconnectingUpstreamSession" where
  "dropConnection conn s =
     (if us_conn s = Some conn then (closeConnection conn s)\<lparr>us_conn := None\<rparr> else s)"

definition upstreamClose :: "reconnectingUpstreamSession \<Rightarrow> reconnectingUpstreamSession" where
  "upstreamClose s =
     (let s = s\<lparr>us_closed := True\<rparr> in
      case us_conn s of Some conn \<Rightarrow> (closeConnection conn s)\<lparr>us_conn := None\<rparr> | None \<Rightarrow> s)"

text \<open>The session's \<open>OpenTCPStream\<close>: \<open>ctxErr\<close> is \<open>ctx.Err() != nil\<close>, \<open>E2\<close> serves the second attempt.\<close>

definition sessionOpenTCPStream ::
    "crypto_lib \<Rightarrow> file_lib \<Rightarrow> uuid_lib \<Rightarrow> client_env \<Rightarrow> client_env \<Rightarrow> bool \<Rightarrow>
     string \<Rightarrow> string \<Rightarrow> string \<Rightarrow> string list \<Rightarrow> bool \<Rightarrow> reconnectingUpstreamSession \<Rightarrow>
     qstream res \<times> reconnectingUpstreamSession" where
  "sessionOpenTCPStream C F U E1 E2 ctxErr requestID service egress route e2eRequired s =
     (case upstreamConnection C F E1 s of
        (Err e, s) \<Rightarrow> (Err e, s)
      | (Panic, s) \<Rightarrow> (Panic, s)
      | (Ok conn, s) \<Rightarrow>
          (case fst (OpenTCPStream U (cv_open E1 conn) requestID service egress route e2eRequired) of
             Ok stream \<Rightarrow> (Ok stream, s)
           | Panic \<Rightarrow> (Panic, s)
           | Err err \<Rightarrow>
               if ctxErr \<or> isConnectRejected err then (Err err, s)
               else
                 (case upstreamConnection C F E2 (dropConnection conn s) of
                    (Err connErr, s) \<Rightarrow> (Err (ErrorfWV ''%w; reconnect failed: %v'' err connErr), s)
                  | (Panic, s) \<Rightarrow> (Panic, s)
                  | (Ok conn, s) \<Rightarrow>
                      (fst (OpenTCPStream U (cv_open E2 conn) requestID service egress route e2eRequired), s))))"

section \<open>All sessions\<close>

record upstreamSessions =
  ss_sessions :: "string \<rightharpoonup> reconnectingUpstreamSession"
  ss_defaultID :: string

definition configuredServers :: "Config \<Rightarrow> ServerConfig list res" where
  "configuredServers cfg =
     (if length (cfg_Servers cfg) = 0
      then Err (Errorf ''at least one servers entry is required for client mode'' [])
      else Ok (cfg_Servers cfg))"

text \<open>The map has one entry per distinct identifier.\<close>

definition newUpstreamSessions :: "Config \<Rightarrow> conn set \<Rightarrow> upstreamSessions res" where
  "newUpstreamSessions cfg dead =
     bindR (configuredServers cfg) (\<lambda>servers.
     let (sessions, defaultID) = foldl (\<lambda>(sessions, defaultID) server.
           (sessions(sc_ID server \<mapsto> newReconnectingUpstreamSession (cfg_NodeID cfg) (cfg_Identity cfg) server dead),
            sc_ID server)) (Map.empty, []) servers;
         defaultID = (if length (remdups (map sc_ID servers)) \<noteq> 1 then [] else defaultID) in
     Ok \<lparr>ss_sessions = sessions, ss_defaultID = defaultID\<rparr>)"

text \<open>\<open>ConnectAll\<close> over the sessions in the order the map iteration gives.\<close>

fun sessionsConnectAll ::
    "crypto_lib \<Rightarrow> file_lib \<Rightarrow> (string \<Rightarrow> client_env) \<Rightarrow> string list \<Rightarrow> upstreamSessions \<Rightarrow> unit res \<times> upstreamSessions" where
  "sessionsConnectAll C F E [] ss = (Ok (), ss)"
| "sessionsConnectAll C F E (sid # order) ss =
     (case ss_sessions ss sid of
        None \<Rightarrow> sessionsConnectAll C F E order ss
      | Some session \<Rightarrow>
          (case upstreamConnection C F (E sid) session of (r, session) \<Rightarrow>
             let ss = ss\<lparr>ss_sessions := (ss_sessions ss)(sid \<mapsto> session)\<rparr> in
             (case r of
                Err e \<Rightarrow> (Err (ErrorfW ''connect upstream %q: %w'' [FQ sid] e), ss)
              | Panic \<Rightarrow> (Panic, ss)
              | Ok _ \<Rightarrow> sessionsConnectAll C F E order ss)))"

text \<open>\<open>selectSession\<close>: the identifier of the session, and the egress to send.\<close>

definition selectSession :: "upstreamSessions \<Rightarrow> string \<Rightarrow> (string \<times> string) res" where
  "selectSession ss egress =
     (if egress = [] then
        (if ss_defaultID ss = [] then Err (Errorf ''egress is required when multiple servers are configured'' [])
         else Ok (ss_defaultID ss, []))
      else case ss_sessions ss egress of
        None \<Rightarrow> Err (Errorf ''egress %q does not match a configured server'' [FQ egress])
      | Some _ \<Rightarrow> Ok (egress, egress))"

definition sessionsOpenTCPStream ::
    "crypto_lib \<Rightarrow> file_lib \<Rightarrow> uuid_lib \<Rightarrow> client_env \<Rightarrow> client_env \<Rightarrow> bool \<Rightarrow>
     string \<Rightarrow> string \<Rightarrow> string \<Rightarrow> string list \<Rightarrow> bool \<Rightarrow> upstreamSessions \<Rightarrow> qstream res \<times> upstreamSessions" where
  "sessionsOpenTCPStream C F U E1 E2 ctxErr requestID service egress route e2eRequired ss =
     (let selector = (if length route > 0 then route ! 0 else egress) in
      case selectSession ss selector of
        Err e \<Rightarrow> (Err e, ss)
      | Panic \<Rightarrow> (Panic, ss)
      | Ok (sid, selectedEgress) \<Rightarrow>
          let selectedEgress = (if length route > 0 then egress else selectedEgress) in
          (case ss_sessions ss sid of
             None \<Rightarrow> (Panic, ss)
           | Some session \<Rightarrow>
               (case sessionOpenTCPStream C F U E1 E2 ctxErr requestID service selectedEgress route e2eRequired session of
                  (r, session) \<Rightarrow> (r, ss\<lparr>ss_sessions := (ss_sessions ss)(sid \<mapsto> session)\<rparr>))))"

definition sessionsClose :: "upstreamSessions \<Rightarrow> upstreamSessions" where
  "sessionsClose ss = ss\<lparr>ss_sessions := (\<lambda>sid. map_option upstreamClose (ss_sessions ss sid))\<rparr>"

end
