(* ===== verification/Client_Routes.thy ===== *)
theory Client_Routes
  imports Client_E2E Config
begin

text \<open>
  Route resolution in the client (\<^verbatim>\<open>internal/client/routes.go\<close>): which routes are tried for a
  forward, and whether a route needs the end-to-end handshake. The record \<open>selectedRoute\<close> is
  in \<open>Client_E2E\<close>. A \<open>nil\<close> route and an empty route are the same empty list, so \<open>copyRoute\<close>
  is the identity.
\<close>

record client_routeKey =
  rk_protocol :: string
  rk_service :: string

record routeResolver =
  rr_routes :: "client_routeKey \<rightharpoonup> ServiceRouteConfig"

definition newRouteResolver :: "Config \<Rightarrow> routeResolver" where
  "newRouteResolver cfg =
     \<lparr>rr_routes = foldl (\<lambda>routes route.
        routes(\<lparr>rk_protocol = rc_Protocol route, rk_service = rc_Service route\<rparr> \<mapsto> route)) Map.empty (cfg_Routes cfg)\<rparr>"

definition copyRoute :: "string list \<Rightarrow> string list" where
  "copyRoute route = (if length route = 0 then [] else [] @ route)"

definition normalizedForwardE2E :: "string \<Rightarrow> string" where
  "normalizedForwardE2E mode = (if mode = [] then ForwardE2EOff else mode)"

definition resolveCandidates :: "routeResolver option \<Rightarrow> ForwardConfig \<Rightarrow> selectedRoute list" where
  "resolveCandidates r forward =
     (let selected = \<lparr>sel_service = fc_Service forward, sel_egress = fc_Egress forward,
            sel_route = copyRoute (fc_Route forward), sel_e2eMode = normalizedForwardE2E (fc_E2E forward)\<rparr> in
      case r of
        None \<Rightarrow> [selected]
      | Some resolver \<Rightarrow>
          if length (fc_Route forward) > 0 \<or> fc_Egress forward \<noteq> [] then [selected]
          else case rr_routes resolver \<lparr>rk_protocol = fc_Protocol forward, rk_service = fc_Service forward\<rparr> of
            None \<Rightarrow> [selected]
          | Some serviceRoute \<Rightarrow>
              if length (rc_Candidates serviceRoute) = 0 then [selected]
              else map (\<lambda>candidate.
                \<lparr>sel_service = fc_Service forward, sel_egress = cc_Egress candidate,
                 sel_route = copyRoute (cc_Route candidate), sel_e2eMode = normalizedForwardE2E (fc_E2E forward)\<rparr>)
                (rc_Candidates serviceRoute))"

definition effectiveE2ERequired :: "selectedRoute \<Rightarrow> bool" where
  "effectiveE2ERequired r =
     (if sel_e2eMode r = ForwardE2EAlways then True
      else if sel_e2eMode r = ForwardE2EAuto then length (sel_route r) > 1
      else False)"

end
