(* ===== verification/Client_Connection.thy ===== *)
theory Client_Connection
  imports Client_Session Client_Routes
begin

text \<open>
  One local connection of the client (\<open>handleLocalConnection\<close> and its helpers in
  \<^verbatim>\<open>internal/client/client.go\<close>): the route candidates are tried in order until one is set up or
  a failure is final. The function takes the interface \<open>upstreamSession\<close>; here that is the
  argument \<open>opener\<close>, its method \<open>OpenTCPStream\<close> on a session state of any type, with the
  number of the candidate telling the attempts apart. The model ends where proxying starts.
  The failures are the ones the code logs, each with the stream it closed.
\<close>

fun asClose :: "go_error \<Rightarrow> CloseError option" where
  "asClose (ErrClose c) = Some c"
| "asClose _ = None"

definition e2eSetupError :: "go_error \<Rightarrow> go_error" where
  "e2eSetupError err =
     (case errorsAs asClose err of
        Some closeErr \<Rightarrow>
          if ConnectCode_Valid (ce_ConnectCode closeErr) \<and> ce_ConnectCode closeErr \<noteq> ConnectCodeOK
          then ErrRejected \<lparr>cr_Code = ce_ConnectCode closeErr, cr_Message = ce_Message closeErr\<rparr>
          else err
      | None \<Rightarrow> err)"

definition isRetryableSetupError :: "go_error \<Rightarrow> bool" where
  "isRetryableSetupError err =
     (case errorsAs asRejected err of
        None \<Rightarrow> True
      | Some rejected \<Rightarrow>
          cr_Code rejected \<in> set [ConnectCodeUnreachableEgress, ConnectCodeNextHopUnreachable, ConnectCodeTargetDialFailed])"

datatype local_end =
    LocalClosed
  | LocalPanic
  | LocalProxy selectedRoute qstream
  | LocalProxyEncrypted selectedRoute qstream EncryptedReader EncryptedWriter

type_synonym 's stream_opener =
  "nat \<Rightarrow> string \<Rightarrow> string \<Rightarrow> string \<Rightarrow> string list \<Rightarrow> bool \<Rightarrow> 's \<Rightarrow> qstream res \<times> 's"

type_synonym setup_failure = "selectedRoute \<times> go_error \<times> qstream option"

text \<open>
  One candidate: proxying starts, or a failure with the stream that was closed. \<open>drawn\<close> is the
  ephemeral key of the handshake.
\<close>

datatype attempt = Connected local_end | SetupFailed go_error "qstream option" | SetupPanic

definition tryCandidate ::
    "crypto_lib \<Rightarrow> uuid_lib \<Rightarrow> e2eClientRuntime option \<Rightarrow> bytes res \<Rightarrow> 's stream_opener \<Rightarrow> string \<Rightarrow>
     nat \<Rightarrow> selectedRoute \<Rightarrow> 's \<Rightarrow> attempt \<times> 's" where
  "tryCandidate C U rto drawn opener requestID i candidate s =
     (let e2eRequired = effectiveE2ERequired candidate in
      case opener i requestID (sel_service candidate) (sel_egress candidate) (sel_route candidate) e2eRequired s of
        (Panic, s) \<Rightarrow> (SetupPanic, s)
      | (Err err, s) \<Rightarrow> (SetupFailed err None, s)
      | (Ok stream, s) \<Rightarrow>
          if e2eRequired then
            (case clientRunHandshake C U rto drawn requestID candidate stream of
               (Ok (reader, writer), stream) \<Rightarrow> (Connected (LocalProxyEncrypted candidate stream reader writer), s)
             | (Err handshakeErr, stream) \<Rightarrow> (SetupFailed (e2eSetupError handshakeErr) (Some (closeStream stream)), s)
             | (Panic, stream) \<Rightarrow> (SetupPanic, s))
          else (Connected (LocalProxy candidate stream), s))"

text \<open>The loop; \<open>ctxErr i\<close> is \<open>ctx.Err() != nil\<close> after candidate \<open>i\<close>.\<close>

fun tryCandidates ::
    "crypto_lib \<Rightarrow> uuid_lib \<Rightarrow> e2eClientRuntime option \<Rightarrow> (nat \<Rightarrow> bytes res) \<Rightarrow> 's stream_opener \<Rightarrow> (nat \<Rightarrow> bool) \<Rightarrow>
     string \<Rightarrow> nat \<Rightarrow> selectedRoute list \<Rightarrow> 's \<Rightarrow> local_end \<times> setup_failure list \<times> 's" where
  "tryCandidates C U rto drawn opener ctxErr requestID i [] s = (LocalClosed, [], s)"
| "tryCandidates C U rto drawn opener ctxErr requestID i (candidate # rest) s =
     (case tryCandidate C U rto (drawn i) opener requestID i candidate s of
        (SetupPanic, s) \<Rightarrow> (LocalPanic, [], s)
      | (Connected fin, s) \<Rightarrow> (fin, [], s)
      | (SetupFailed err closed, s) \<Rightarrow>
          let retry = (\<not> ctxErr i \<and> rest \<noteq> [] \<and> isRetryableSetupError err) in
          if \<not> retry then (LocalClosed, [(candidate, err, closed)], s)
          else case tryCandidates C U rto drawn opener ctxErr requestID (i + 1) rest s of
            (fin, failures, s) \<Rightarrow> (fin, (candidate, err, closed) # failures, s))"

definition handleLocalConnection ::
    "crypto_lib \<Rightarrow> uuid_lib \<Rightarrow> e2eClientRuntime option \<Rightarrow> bytes res \<Rightarrow> (nat \<Rightarrow> bytes res) \<Rightarrow> 's stream_opener \<Rightarrow>
     (nat \<Rightarrow> bool) \<Rightarrow> selectedRoute list \<Rightarrow> 's \<Rightarrow> local_end \<times> setup_failure list \<times> 's" where
  "handleLocalConnection C U rto newV7 drawn opener ctxErr candidates s =
     (if length candidates = 0 then (LocalClosed, [], s)
      else case requestid_New U newV7 of
        Err e \<Rightarrow> (LocalClosed, [], s)
      | Panic \<Rightarrow> (LocalPanic, [], s)
      | Ok requestID \<Rightarrow> tryCandidates C U rto drawn opener ctxErr requestID 0 candidates s)"

end
