(* ===== verification/Client_Properties.thy ===== *)
theory Client_Properties
  imports Client_Connection Totality Protocol_Properties Config_Lemmas
begin

text \<open>
  What the client guarantees: candidates are tried in order and a final refusal stops the
  search; required encryption is never skipped; every candidate of a validated configuration
  leads to a configured server; sessions back off, reconnect once and stay closed.
\<close>

section \<open>Candidates\<close>

lemma tryCandidate_Connected:
  assumes "tryCandidate C U rto drawn opener requestID i c s = (Connected fin, s')"
  shows "(\<exists>st. fin = LocalProxy c st \<and> \<not> effectiveE2ERequired c) \<or>
    (\<exists>st0 st r w. fin = LocalProxyEncrypted c st r w \<and> effectiveE2ERequired c \<and>
       clientRunHandshake C U rto drawn requestID c st0 = (Ok (r, w), st))"
  using assms by (auto simp: tryCandidate_def Let_def split: prod.splits res.splits if_splits)

text \<open>The candidate a local connection ends up proxied through.\<close>

fun proxied :: "local_end \<Rightarrow> selectedRoute option" where
  "proxied (LocalProxy c st) = Some c"
| "proxied (LocalProxyEncrypted c st r w) = Some c"
| "proxied _ = None"

text \<open>A failure that lets the loop go on, at its position in the list.\<close>

definition passed_over :: "(nat \<Rightarrow> bool) \<Rightarrow> nat \<Rightarrow> setup_failure list \<Rightarrow> bool" where
  "passed_over ctxErr i fails \<longleftrightarrow>
     (\<forall>j<length fails. \<not> ctxErr (i + j) \<and> isRetryableSetupError (fst (snd (fails ! j))))"

lemma passed_over_Cons: "passed_over ctxErr i (f # fails) \<longleftrightarrow>
    \<not> ctxErr i \<and> isRetryableSetupError (fst (snd f)) \<and> passed_over ctxErr (Suc i) fails"
  by (auto simp: passed_over_def nth_Cons less_Suc_eq_0_disj split: nat.splits)

definition in_order :: "(nat \<Rightarrow> bool) \<Rightarrow> nat \<Rightarrow> selectedRoute list \<Rightarrow> local_end \<Rightarrow> setup_failure list \<Rightarrow> bool" where
  "in_order ctxErr i cs fin fails \<longleftrightarrow>
     map fst fails = take (length fails) cs \<and>
     (case fin of
        LocalClosed \<Rightarrow> cs \<noteq> [] \<longrightarrow> fails \<noteq> [] \<and> passed_over ctxErr i (butlast fails) \<and>
          (length fails = length cs \<or> \<not> passed_over ctxErr i fails)
      | LocalPanic \<Rightarrow> True
      | _ \<Rightarrow> length fails < length cs \<and> proxied fin = Some (cs ! length fails) \<and> passed_over ctxErr i fails)"

lemma tryCandidates_in_order:
  "tryCandidates C U rto drawn opener ctxErr requestID i cs s = (fin, fails, s') \<Longrightarrow> in_order ctxErr i cs fin fails"
proof (induction cs arbitrary: i s fails)
  case Nil
  then show ?case by (simp add: in_order_def)
next
  case (Cons c cs)
  obtain a s1 where a: "tryCandidate C U rto (drawn i) opener requestID i c s = (a, s1)" by fastforce
  show ?case
  proof (cases a)
    case (Connected fin')
    then have "fin' = fin" "fails = []" using Cons.prems a by simp_all
    then show ?thesis
      using tryCandidate_Connected [of C U rto "drawn i" opener requestID i c s fin s1] a Connected
      by (auto simp: in_order_def passed_over_def)
  next
    case (SetupFailed err closed)
    show ?thesis
    proof (cases "\<not> ctxErr i \<and> cs \<noteq> [] \<and> isRetryableSetupError err")
      case True
      then obtain fs where fs: "tryCandidates C U rto drawn opener ctxErr requestID (i + 1) cs s1 = (fin, fs, s')"
          "fails = (c, err, closed) # fs"
        using Cons.prems a SetupFailed by (auto simp: Let_def split: prod.splits)
      have "in_order ctxErr (Suc i) cs fin fs" using Cons.IH [OF fs(1)] by simp
      then show ?thesis
        using True fs(2) by (cases fin) (auto simp: in_order_def passed_over_Cons)
    next
      case False
      then have "fin = LocalClosed" "fails = [(c, err, closed)]"
        using Cons.prems a SetupFailed by (auto simp: Let_def split: if_splits)
      then show ?thesis
        using False by (auto simp: in_order_def passed_over_def)
    qed
  next
    case SetupPanic
    then show ?thesis using Cons.prems a by (simp add: in_order_def)
  qed
qed


definition plain_candidate :: "string \<Rightarrow> selectedRoute" where
  "plain_candidate egress = \<lparr>sel_service = ''echo'', sel_egress = egress, sel_route = [], sel_e2eMode = ForwardE2EOff\<rparr>"


section \<open>Encryption\<close>

lemma tryCandidates_Connected:
  "tryCandidates C U rto drawn opener ctxErr requestID i cs s = (fin, fails, s') \<Longrightarrow> proxied fin = Some c \<Longrightarrow>
   c \<in> set cs \<and> ((\<exists>st. fin = LocalProxy c st \<and> \<not> effectiveE2ERequired c) \<or>
    (\<exists>j st0 st r w. fin = LocalProxyEncrypted c st r w \<and> effectiveE2ERequired c \<and>
       clientRunHandshake C U rto (drawn j) requestID c st0 = (Ok (r, w), st)))"
proof (induction cs arbitrary: i s fails)
  case (Cons d cs)
  obtain a s1 where a: "tryCandidate C U rto (drawn i) opener requestID i d s = (a, s1)" by fastforce
  show ?case
  proof (cases a)
    case (Connected fin')
    then have "fin' = fin" using Cons.prems a by simp
    then show ?thesis
      using tryCandidate_Connected [of C U rto "drawn i" opener requestID i d s fin s1] a Connected Cons.prems(2)
      by (auto simp del: tryCandidates.simps)
  next
    case (SetupFailed err closed)
    then obtain fs where "tryCandidates C U rto drawn opener ctxErr requestID (i + 1) cs s1 = (fin, fs, s')"
      using Cons.prems a by (auto simp: Let_def split: prod.splits if_splits)
    from Cons.IH [OF this Cons.prems(2)] show ?thesis by simp
  qed (use Cons.prems a in simp)
qed simp

lemma resolveCandidates_mode:
  "c \<in> set (resolveCandidates r f) \<Longrightarrow>
   sel_service c = fc_Service f \<and> sel_e2eMode c = normalizedForwardE2E (fc_E2E f)"
  by (auto simp: resolveCandidates_def Let_def split: option.splits if_splits)

text \<open>
  The service at the other end of an encrypted stream proved its identity: the stream carried a
  server hello whose chain leads to the service CA and names the candidate's service, signed
  over the candidate's context, and both directions are keyed by that transcript.
\<close>

definition service_authenticated ::
    "crypto_lib \<Rightarrow> uuid_lib \<Rightarrow> e2eClientRuntime option \<Rightarrow> Context \<Rightarrow> EncryptedReader \<Rightarrow> EncryptedWriter \<Rightarrow> bool" where
  "service_authenticated C U rto ctx rd wr \<longleftrightarrow>
     (\<exists>rt (st0 :: qstream) i sh leaf a th. rto = Some rt \<and> readE2EServerHelloOrClose (qs_in st0) = (Ok sh, i) \<and>
        trusted_chain C (sh_ServiceCertChain sh) (cl_serviceRoots rt) ExtKeyUsageServerAuth leaf \<and>
        names spiffeServicePrefix leaf (cx_Service ctx) \<and>
        verifySignature C (Some leaf) (sha256_Sum C (transcriptBytes serverHelloDomain ctx
          (x25519_PublicKey C a) (nilable (sh_EphemeralPublicKey sh)))) (sh_Signature sh) = Ok () \<and>
        TranscriptHash C U ctx (x25519_PublicKey C a) (sh_EphemeralPublicKey sh) = Ok th \<and>
        er_transcriptHash rd = th \<and> ew_transcriptHash wr = th)"

lemma handshake_authenticates:
  assumes "clientRunHandshake C U rto drawn rid c st0 = (Ok (rd, wr), st)"
  shows "service_authenticated C U rto (clientContext rid c) rd wr"
proof -
  have "cx_Service (clientContext rid c) = sel_service c" by (simp add: clientContext_def)
  with handshake_authentic [OF assms] show ?thesis
    unfolding service_authenticated_def by metis
qed

text \<open>
  C14: required encryption is never skipped. For a forward with \<open>e2e: always\<close>, and for one with
  \<open>e2e: auto\<close> on a route of more than one hop, a local connection is never proxied in plain
  text. When it is proxied encrypted, the service on the other end has proved its identity in
  the context of this connection: its chain leads to the service CA and names exactly the
  forward's service, its signature covers the new request identifier and the candidate's
  egress and route, and both directions are keyed by that transcript.
\<close>

theorem encryption_not_skipped:
  assumes "handleLocalConnection C U rto (Ok v7) drawn opener ctxErr (resolveCandidates r f) s = (fin, fails, s')"
  shows "case fin of
      LocalProxy c st \<Rightarrow> fc_E2E f \<noteq> ForwardE2EAlways \<and> (fc_E2E f = ForwardE2EAuto \<longrightarrow> length (sel_route c) \<le> 1)
    | LocalProxyEncrypted c st rd wr \<Rightarrow> c \<in> set (resolveCandidates r f) \<and> sel_service c = fc_Service f \<and>
        service_authenticated C U rto (clientContext (uuid_String U v7) c) rd wr
    | _ \<Rightarrow> True"
proof (cases "proxied fin")
  case None
  then show ?thesis by (cases fin) simp_all
next
  case (Some c)
  have "tryCandidates C U rto drawn opener ctxErr (uuid_String U v7) 0 (resolveCandidates r f) s = (fin, fails, s')"
    using assms Some by (auto simp: handleLocalConnection_def requestid_New_def split: if_splits)
  note run = tryCandidates_Connected [OF this Some]
  then have c: "sel_service c = fc_Service f" "sel_e2eMode c = normalizedForwardE2E (fc_E2E f)"
    using resolveCandidates_mode by auto
  show ?thesis
    using run c handshake_authenticates
    by (auto simp: effectiveE2ERequired_def normalizedForwardE2E_def qoru_consts split: if_splits)
qed

definition always_forward :: ForwardConfig where
  "always_forward = \<lparr>fc_Protocol = ''tcp'', fc_Listen = '':1'', fc_Service = ''echo'', fc_Egress = ''b'',
     fc_Route = [''a'', ''b''], fc_E2E = ''always''\<rparr>"

theorem encryption_not_skipped_witness:
  "\<exists>sb c st rd wr. handleLocalConnection toy_crypto raw_uuid (Some toy_client) (Ok (bytes_of ''abcdefpaaaaaaaaa'')) (\<lambda>i. Ok [3])
       (\<lambda>i rid svc eg rt e2e (u :: unit). (Ok (stream_on sb EOF []), u)) (\<lambda>i. False)
       (resolveCandidates None always_forward) () = (LocalProxyEncrypted c st rd wr, [], ()) \<and>
     sel_service c = ''echo'' \<and> service_authenticated toy_crypto raw_uuid (Some toy_client) (clientContext ''abcdefpaaaaaaaaa'' c) rd wr"
proof -
  obtain cb sb kc ks th where h: "clientRunHandshake toy_crypto raw_uuid (Some toy_client) (Ok [3]) ''abcdefpaaaaaaaaa'' toy_candidate
       (stream_on sb EOF []) = (Ok (fresh_reader \<lparr>is_data = [], is_end = EOF\<rparr> ks th,
         fresh_writer \<lparr>os_data = cb, os_script = []\<rparr> kc th), stream_on [] EOF cb)"
    using toy_run by metis
  let ?op = "\<lambda>i rid svc eg rt e2e (u :: unit). (Ok (stream_on sb EOF []), u)"
  have c: "resolveCandidates None always_forward = [toy_candidate]"
    by (simp add: resolveCandidates_def always_forward_def toy_candidate_def copyRoute_def normalizedForwardE2E_def)
  have e: "effectiveE2ERequired toy_candidate"
    by (simp add: effectiveE2ERequired_def toy_candidate_def qoru_consts)
  have u: "uuid_String raw_uuid (bytes_of ''abcdefpaaaaaaaaa'') = ''abcdefpaaaaaaaaa''"
    by (simp add: raw_uuid_def)
  obtain st rd wr where r: "handleLocalConnection toy_crypto raw_uuid (Some toy_client) (Ok (bytes_of ''abcdefpaaaaaaaaa'')) (\<lambda>i. Ok [3])
       ?op (\<lambda>i. False) (resolveCandidates None always_forward) () = (LocalProxyEncrypted toy_candidate st rd wr, [], ())"
    using h e
    by (simp add: c handleLocalConnection_def requestid_New_def u tryCandidate_def Let_def)
  have svc: "sel_service toy_candidate = ''echo''" by (simp add: toy_candidate_def)
  show ?thesis
    using encryption_not_skipped [OF r] r svc unfolding u
    by (intro exI [of _ sb] exI [of _ toy_candidate] exI [of _ st] exI [of _ rd] exI [of _ wr]) simp
qed

section \<open>Configured candidates\<close>

lemma foldl_upd_Some:
  "foldl (\<lambda>m x. m(k x \<mapsto> f x)) m0 xs y = Some v \<Longrightarrow> m0 y = Some v \<or> (\<exists>x\<in>set xs. k x = y \<and> v = f x)"
  by (induction xs arbitrary: m0) (fastforce split: if_splits)+

lemma dom_foldl_upd: "dom (foldl (\<lambda>m x. m(k x \<mapsto> f x)) m0 xs) = dom m0 \<union> k ` set xs"
  by (induction xs arbitrary: m0) auto

lemma foldl_upd_pair:
  "foldl (\<lambda>(m, d) x. (m(k x \<mapsto> f x), k x)) (m0, d0) xs =
   (foldl (\<lambda>m x. m(k x \<mapsto> f x)) m0 xs, if xs = [] then d0 else k (last xs))"
  by (induction xs arbitrary: m0 d0) auto

definition sessions_for :: "Config \<Rightarrow> upstreamSessions \<Rightarrow> bool" where
  "sessions_for cfg ss \<longleftrightarrow> dom (ss_sessions ss) = serverIDs cfg \<and>
     (\<forall>sid s. ss_sessions ss sid = Some s \<longrightarrow> us_server s \<in> set (cfg_Servers cfg) \<and> sc_ID (us_server s) = sid) \<and>
     (length (cfg_Servers cfg) = 1 \<longrightarrow> ss_defaultID ss = sc_ID (hd (cfg_Servers cfg))) \<and>
     ss_defaultID ss \<in> insert [] (serverIDs cfg)"

lemma newUpstreamSessions_Ok:
  assumes "cfg_Servers cfg \<noteq> []"
  shows "\<exists>ss. newUpstreamSessions cfg dead = Ok ss \<and> sessions_for cfg ss"
proof -
  let ?f = "\<lambda>server. newReconnectingUpstreamSession (cfg_NodeID cfg) (cfg_Identity cfg) server dead"
  let ?m = "foldl (\<lambda>m x. m(sc_ID x \<mapsto> ?f x)) Map.empty (cfg_Servers cfg)"
  let ?d = "if length (remdups (map sc_ID (cfg_Servers cfg))) \<noteq> 1 then [] else sc_ID (last (cfg_Servers cfg))"
  have n: "newUpstreamSessions cfg dead = Ok \<lparr>ss_sessions = ?m, ss_defaultID = ?d\<rparr>"
    using assms by (simp add: newUpstreamSessions_def configuredServers_def foldl_upd_pair Let_def)
  have "dom ?m = serverIDs cfg" by (simp add: dom_foldl_upd serverIDs_def)
  moreover have "us_server s \<in> set (cfg_Servers cfg) \<and> sc_ID (us_server s) = sid"
    if "?m sid = Some s" for sid s
    using foldl_upd_Some [OF that] by (auto simp: newReconnectingUpstreamSession_def)
  moreover have "?d = sc_ID (hd (cfg_Servers cfg))" if "length (cfg_Servers cfg) = 1"
    using that by (cases "cfg_Servers cfg") auto
  moreover have "?d \<in> insert [] (serverIDs cfg)"
    using assms by (simp add: serverIDs_def)
  ultimately show ?thesis unfolding sessions_for_def using n by auto
qed

lemma newRouteResolver_Some:
  assumes "rr_routes (newRouteResolver cfg) k = Some r"
  shows "r \<in> set (cfg_Routes cfg) \<and> rc_Protocol r = rk_protocol k \<and> rc_Service r = rk_service k"
  using foldl_upd_Some [of "\<lambda>route. \<lparr>rk_protocol = rc_Protocol route, rk_service = rc_Service route\<rparr>" "\<lambda>r. r"
      Map.empty "cfg_Routes cfg" k r] assms
  by (auto simp: newRouteResolver_def)

lemma newRouteResolver_hit:
  assumes "hasServiceRoute cfg p s"
  obtains r where "rr_routes (newRouteResolver cfg) \<lparr>rk_protocol = p, rk_service = s\<rparr> = Some r"
proof -
  let ?k = "\<lambda>route. \<lparr>rk_protocol = rc_Protocol route, rk_service = rc_Service route\<rparr>"
  have "\<lparr>rk_protocol = p, rk_service = s\<rparr> \<in> dom (rr_routes (newRouteResolver cfg))"
    using assms by (auto simp: newRouteResolver_def dom_foldl_upd [of ?k "\<lambda>r. r"] hasServiceRoute_def list_ex_iff)
  then show ?thesis using that by blast
qed

lemma copyRoute_id: "copyRoute r = r"
  by (simp add: copyRoute_def)

text \<open>A candidate the sessions can serve.\<close>

definition selectable :: "Config \<Rightarrow> upstreamSessions \<Rightarrow> selectedRoute \<Rightarrow> bool" where
  "selectable cfg ss c \<longleftrightarrow>
     (\<exists>sid eg session. selectSession ss (if sel_route c \<noteq> [] then hd (sel_route c) else sel_egress c) = Ok (sid, eg) \<and>
        ss_sessions ss sid = Some session \<and> us_server session \<in> set (cfg_Servers cfg) \<and> sc_ID (us_server session) = sid) \<and>
     (sel_route c \<noteq> [] \<longrightarrow> length (sel_route c) \<le> 3 \<and> sel_egress c \<in> {[], last (sel_route c)})"

lemma selectable_server:
  assumes "newUpstreamSessions cfg dead = Ok ss" "cfg_Servers cfg \<noteq> []" "sid \<in> serverIDs cfg" "sid \<noteq> []"
    and "sid = (if sel_route c \<noteq> [] then hd (sel_route c) else sel_egress c)"
    and "sel_route c \<noteq> [] \<Longrightarrow> length (sel_route c) \<le> 3 \<and> sel_egress c \<in> {[], last (sel_route c)}"
  shows "selectable cfg ss c"
proof -
  obtain ss' where n: "newUpstreamSessions cfg dead = Ok ss'" "sessions_for cfg ss'"
    using newUpstreamSessions_Ok [OF assms(2)] by blast
  then have ss: "ss' = ss" using assms(1) by simp
  obtain s where s: "ss_sessions ss sid = Some s" using n(2) assms(3) ss unfolding sessions_for_def by blast
  then have "selectSession ss sid = Ok (sid, sid)" using assms(4) by (simp add: selectSession_def)
  moreover have "us_server s \<in> set (cfg_Servers cfg)" "sc_ID (us_server s) = sid"
    using n(2) s ss unfolding sessions_for_def by blast+
  ultimately show ?thesis
    using s assms(6) unfolding selectable_def assms(5) [symmetric] by blast
qed

lemma selectable_route:
  assumes "newUpstreamSessions cfg dead = Ok ss" "cfg_Servers cfg \<noteq> []"
    and "\<And>sid. sid \<in> serverIDs cfg \<Longrightarrow> sid \<noteq> []"
    and "route_ok (serverIDs cfg) (sel_route c)" "sel_egress c \<in> {[], last (sel_route c)}"
  shows "selectable cfg ss c"
  by (rule selectable_server [OF assms(1,2), of "hd (sel_route c)"])
    (use assms(3-5) in \<open>simp_all add: route_ok_def qoru_consts\<close>)

lemma selectable_egress:
  assumes "newUpstreamSessions cfg dead = Ok ss" "cfg_Servers cfg \<noteq> []"
    and "sel_route c = []" "sel_egress c \<in> serverIDs cfg" "sel_egress c \<noteq> []"
  shows "selectable cfg ss c"
  by (rule selectable_server [OF assms(1,2), of "sel_egress c"]) (use assms(3-5) in simp_all)

lemma validated_selectable:
  assumes "ValidateClient (Some cfg) = Ok ()" "f \<in> set (cfg_Forwards cfg)"
  shows "\<exists>ss. newUpstreamSessions cfg dead = Ok ss \<and> resolveCandidates (Some (newRouteResolver cfg)) f \<noteq> [] \<and>
    (\<forall>c\<in>set (resolveCandidates (Some (newRouteResolver cfg)) f). selectable cfg ss c)"
proof -
  note cc = assms(1) [unfolded ValidateClient_iff client_config_def]
  then have ne: "cfg_Servers cfg \<noteq> []" and f: "forward_ok cfg f" using assms(2) by auto
  have ids: "sid \<noteq> []" if "sid \<in> serverIDs cfg" for sid using cc that by (auto simp: serverIDs_def)
  obtain ss where n: "newUpstreamSessions cfg dead = Ok ss" "sessions_for cfg ss"
    using newUpstreamSessions_Ok [OF ne] by blast
  let ?r = "Some (newRouteResolver cfg)"
  let ?sel = "\<lparr>sel_service = fc_Service f, sel_egress = fc_Egress f, sel_route = copyRoute (fc_Route f),
       sel_e2eMode = normalizedForwardE2E (fc_E2E f)\<rparr>"
  have explicit: "selectable cfg ss ?sel" if "fc_Route f \<noteq> [] \<or> fc_Egress f \<noteq> []"
  proof (cases "fc_Route f = []")
    case True
    then have "fc_Egress f \<in> serverIDs cfg" "fc_Egress f \<noteq> []" using f that by (simp_all add: forward_ok_def)
    then show ?thesis using True by (intro selectable_egress [OF n(1) ne]) (simp_all add: copyRoute_def)
  next
    case False
    then have "route_ok (serverIDs cfg) (fc_Route f)" "fc_Egress f \<in> {[], last (fc_Route f)}"
      using f by (simp_all add: forward_ok_def)
    then show ?thesis by (intro selectable_route [OF n(1) ne ids]) (simp_all add: copyRoute_id)
  qed
  have static: "selectable cfg ss c" if "r \<in> set (cfg_Routes cfg)" "d \<in> set (rc_Candidates r)"
      "c = \<lparr>sel_service = fc_Service f, sel_egress = cc_Egress d, sel_route = copyRoute (cc_Route d),
         sel_e2eMode = normalizedForwardE2E (fc_E2E f)\<rparr>" for r d c
  proof -
    have "candidate_ok (serverIDs cfg) d" using cc that by (auto simp: service_route_ok_def)
    then have "route_ok (serverIDs cfg) (cc_Route d)" "cc_Egress d = last (cc_Route d)"
      by (simp_all add: candidate_ok_def)
    then show ?thesis by (intro selectable_route [OF n(1) ne ids]) (simp_all add: copyRoute_id that(3))
  qed
  have default: "selectable cfg ss ?sel" if "fc_Route f = []" "fc_Egress f = []" "length (cfg_Servers cfg) = 1"
  proof -
    let ?sid = "sc_ID (hd (cfg_Servers cfg))"
    have "?sid \<in> serverIDs cfg" using ne by (simp add: serverIDs_def)
    then obtain s where s: "ss_sessions ss ?sid = Some s" "?sid \<noteq> []"
      using n(2) ids unfolding sessions_for_def by blast
    then show ?thesis
      using that n(2) by (simp add: sessions_for_def selectable_def selectSession_def copyRoute_def)
  qed
  have "resolveCandidates ?r f \<noteq> [] \<and> (\<forall>c\<in>set (resolveCandidates ?r f). selectable cfg ss c)"
  proof (cases "fc_Route f \<noteq> [] \<or> fc_Egress f \<noteq> []")
    case True
    then have "resolveCandidates ?r f = [?sel]" by (auto simp: resolveCandidates_def)
    then show ?thesis using explicit [OF True] by simp
  next
    case False
    let ?k = "\<lparr>rk_protocol = fc_Protocol f, rk_service = fc_Service f\<rparr>"
    show ?thesis
    proof (cases "rr_routes (newRouteResolver cfg) ?k")
      case None
      then have "length (cfg_Servers cfg) = 1"
        using f False newRouteResolver_hit [of cfg "''tcp''" "fc_Service f"]
        by (auto simp: forward_ok_def split: if_splits)
      then show ?thesis
        using default False None by (simp add: resolveCandidates_def)
    next
      case (Some r)
      then have r: "r \<in> set (cfg_Routes cfg)" using newRouteResolver_Some by blast
      then have "rc_Candidates r \<noteq> []" using cc by (auto simp: service_route_ok_def)
      then show ?thesis
        using False Some static [OF r] by (auto simp: resolveCandidates_def)
    qed
  qed
  with n(1) show ?thesis by blast
qed

text \<open>
  C36: a validated client configuration has no forward that cannot be served. If
  \<open>ValidateClient\<close> accepts the configuration, the sessions can be created, and for each
  forward there is at least one route candidate, and every candidate, static or explicit,
  selects the session of a configured server: neither "egress is required" nor "does not match
  a configured server" can occur at run time, and the egress sent agrees with the route.
\<close>

theorem validated_candidates_selectable:
  assumes "ValidateClient (Some cfg) = Ok ()" "f \<in> set (cfg_Forwards cfg)"
  shows "\<exists>ss. newUpstreamSessions cfg dead = Ok ss \<and> resolveCandidates (Some (newRouteResolver cfg)) f \<noteq> [] \<and>
    (\<forall>c\<in>set (resolveCandidates (Some (newRouteResolver cfg)) f). selectable cfg ss c)"
  using validated_selectable [OF assms] .

definition toy_client_config :: Config where
  "toy_client_config = \<lparr>cfg_NodeID = ''c'', cfg_Mode = ''client'', cfg_Identity = \<lparr>ic_Cert = ''x'', ic_Key = ''y'', ic_CA = ''z''\<rparr>,
     cfg_ServiceIdentity = \<lparr>si_CA = ''sca''\<rparr>, cfg_Servers = [\<lparr>sc_ID = ''a'', sc_Address = ''h:1''\<rparr>],
     cfg_Peers = [], cfg_Listen = [], cfg_Forwards = [always_forward], cfg_Routes = [], cfg_Services = [],
     cfg_AllowedRelayClients = []\<rparr>"

lemma toy_client_config_valid: "ValidateClient (Some toy_client_config) = Ok ()"
proof -
  have "address '':1''"
    by (simp add: address_def SplitHostPort_def lastIndexByte_def splitTail_def colon_def lbracket_def rbracket_def)
  then show ?thesis
    by (simp add: ValidateClient_iff client_config_def common_config_def toy_client_config_def forward_ok_def
        always_forward_def route_ok_def serverIDs_def qoru_consts)
qed

theorem validated_candidates_selectable_witness:
  "\<exists>ss. newUpstreamSessions toy_client_config {} = Ok ss \<and>
     resolveCandidates (Some (newRouteResolver toy_client_config)) always_forward \<noteq> [] \<and>
     (\<forall>c\<in>set (resolveCandidates (Some (newRouteResolver toy_client_config)) always_forward).
       selectable toy_client_config ss c)"
proof -
  have "always_forward \<in> set (cfg_Forwards toy_client_config)" by (simp add: toy_client_config_def)
  from validated_candidates_selectable [OF toy_client_config_valid this] show ?thesis by blast
qed

end
