(* ===== verification/Overlay.thy ===== *)
theory Overlay
  imports Server_Properties Client_Properties
begin

text \<open>
  Several nodes together. Each node runs \<open>handleStream\<close>; the bytes a relay writes on the stream it
  opened are what the next hop receives, and the bytes the next hop writes are what the relay
  reads. \<open>conversation\<close> composes the handlers in this way, over the connect phase, for a request
  that enters the overlay at one node.
\<close>

section \<open>Composing the handlers\<close>

record overlay =
  ov_lib :: "string \<Rightarrow> server_lib"
  ov_rt :: "string \<Rightarrow> serverRuntime"

text \<open>A node whose outbound stream, if it can be opened, carries the answer of the next hop.\<close>

definition answering :: "bytes \<Rightarrow> go_error \<Rightarrow> server_lib \<Rightarrow> server_lib" where
  "answering ans e L = L\<lparr>sl_openSync := (\<lambda>c. bindR (sl_openSync L c) (\<lambda>_. Ok (stream_on ans e [])))\<rparr>"

text \<open>
  \<open>conversation N peer node d path ans\<close>: \<open>node\<close> receives \<open>d\<close> from \<open>peer\<close> and answers \<open>ans\<close>; \<open>path\<close>
  lists the nodes that were asked, with what each received.
\<close>

inductive conversation :: "overlay \<Rightarrow> string \<Rightarrow> string \<Rightarrow> bytes \<Rightarrow> (string \<times> bytes) list \<Rightarrow> bytes \<Rightarrow> bool"
  for N :: overlay where
  decided: "handleStream (answering a e' (ov_lib N node)) (ov_rt N node) peer (stream_on (d @ later) e []) = (fin, st', None, rt') \<Longrightarrow>
     conversation N peer node d [(node, d)] (os_data (qs_out st'))"
| relayed: "ReadConnectRequest (sl_U (ov_lib N node)) \<lparr>is_data = d @ later, is_end = e\<rparr> = (Ok req, i) \<Longrightarrow>
     handleStream (answering ans e' (ov_lib N node)) (ov_rt N node) peer (stream_on (d @ later) e []) = (fin, st', Some outb, rt') \<Longrightarrow>
     conversation N node (rq_Route req ! 1) (os_data (qs_out outb)) path ans \<Longrightarrow>
     conversation N peer node d ((node, d) # path) (os_data (qs_out st'))"

definition encodes_request :: "uuid_lib \<Rightarrow> bytes \<Rightarrow> ConnectRequest \<Rightarrow> bool" where
  "encodes_request U d req \<longleftrightarrow>
     (\<forall>rest e. ReadConnectRequest U \<lparr>is_data = d @ rest, is_end = e\<rparr> = (Ok req, \<lparr>is_data = rest, is_end = e\<rparr>))"

definition answers_with :: "bytes \<Rightarrow> ConnectResponse \<Rightarrow> bool" where
  "answers_with ans resp \<longleftrightarrow>
     (\<exists>rest. \<forall>e. ReadConnectResponse \<lparr>is_data = ans, is_end = e\<rparr> = (Ok resp, \<lparr>is_data = rest, is_end = e\<rparr>))"

abbreviation at_hop :: "nat \<Rightarrow> ConnectRequest \<Rightarrow> ConnectRequest" where
  "at_hop i req \<equiv> req\<lparr>rq_Route := drop i (rq_Route req)\<rparr>"

lemma at_hop_simps [simp]:
  "at_hop 0 req = req" "forwardRequest req = at_hop (Suc 0) req" "at_hop i (at_hop j req) = at_hop (i + j) req"
  by (simp_all add: forwardRequest_def)

lemma answering_sel [simp]:
  "sl_C (answering a e L) = sl_C L" "sl_U (answering a e L) = sl_U L" "sl_F (answering a e L) = sl_F L"
  "sl_E1 (answering a e L) = sl_E1 L" "sl_E2 (answering a e L) = sl_E2 L"
  by (simp_all add: answering_def)

section \<open>One relay\<close>

lemma OpenStream_answering:
  "OpenStream C F E1 E2 (sl_openSync (answering ans e L)) hop ps =
   (case OpenStream C F E1 E2 (sl_openSync L) hop ps of (m, ps') \<Rightarrow> (bindR m (\<lambda>_. Ok (stream_on ans e [])), ps'))"
  by (auto simp: OpenStream_def answering_def split: res.splits prod.splits)

lemma forward_written:
  assumes "uuid_laws U" "ReadConnectRequest U i = (Ok req, i')" "1 < length (rq_Route req)"
  shows "\<exists>d. encodes_request U d (at_hop 1 req) \<and>
    (\<forall>w. reliable w \<longrightarrow> WriteConnectRequest U w (forwardRequest req) = (Ok (), w\<lparr>os_data := os_data w @ d\<rparr>))"
proof -
  obtain p where p: "connectRequestPayload U (forwardRequest req) = Ok p" "length p \<le> MaxPayloadSize"
    using forward_encodes(1) [OF assms] by blast
  have "encodes_request U (frameBytes TypeConnectRequest p) (at_hop 1 req)"
    using connectRequest.read_enc [OF assms(1) TrueI p] forward_encodes(2) [OF assms] by (simp add: encodes_request_def)
  then show ?thesis
    using connectRequest.write_enc [OF p] by blast
qed

lemma relayConversation_writes:
  assumes "\<And>w. reliable w \<Longrightarrow> WriteConnectRequest (sl_U L) w (forwardRequest req) = (Ok (), w\<lparr>os_data := os_data w @ d\<rparr>)"
    and "reliable (qs_out outb)" "relayConversation L req inb outb = (fin, inb', outb')"
  shows "os_data (qs_out outb') = os_data (qs_out outb) @ d"
proof -
  have "onOut (\<lambda>w. WriteConnectRequest (sl_U L) w (forwardRequest req)) outb =
      (Ok (), outb\<lparr>qs_out := (qs_out outb)\<lparr>os_data := os_data (qs_out outb) @ d\<rparr>\<rparr>)"
    using assms(1) [OF assms(2)] by (simp add: onOut_def)
  then show ?thesis
    using assms(3)
    by (auto simp: relayConversation_def onIn_def closeStream_def split: prod.splits res.splits if_splits)
qed

text \<open>What a handler that opened a stream has done, and what one that is asked to relay does.\<close>

lemma opened_relay:
  assumes "uuid_laws (sl_U L)" "ReadConnectRequest (sl_U L) \<lparr>is_data = d @ later, is_end = e\<rparr> = (Ok req, i)"
    and "handleStream (answering ans e' L) rt peer (stream_on (d @ later) e []) = (fin, st', Some outb, rt')"
  shows "may_relay (rt_cfg rt) peer req" "encodes_request (sl_U L) (os_data (qs_out outb)) (at_hop 1 req)"
    and "answers_with ans resp \<Longrightarrow> answers_with (os_data (qs_out st')) resp"
proof -
  let ?L = "answering ans e' L" and ?st = "stream_on (d @ later) e []"
  have rd: "ReadConnectRequest (sl_U ?L) (qs_in ?st) = (Ok req, i)" using assms(2) by (simp add: stream_on_def)
  have on: "onIn (ReadConnectRequest (sl_U ?L)) ?st = (Ok req, ?st\<lparr>qs_in := i\<rparr>)" using rd by (simp add: onIn_def)
  have relay: "streamAction (rt_cfg rt) peer req = Relay"
    using assms(3) on unfolding handleStream_def by (auto split: stream_action.splits prod.splits)
  then show may: "may_relay (rt_cfg rt) peer req" using relay_admits by blast
  then have len: "1 < length (rq_Route req)" by (simp add: may_relay_def)
  have hr: "handleRelayStream ?L rt req (?st\<lparr>qs_in := i\<rparr>) = (fin, st', Some outb, rt')"
    using assms(3) on relay by (simp add: handleStream_def)
  obtain ps where ps: "rt_peers rt = Some ps"
    using hr by (cases "rt_peers rt") (simp_all add: handleRelayStream_def)
  obtain m ps' where o0: "OpenStream (sl_C L) (sl_F L) (sl_E1 L) (sl_E2 L) (sl_openSync L) (rq_Route req ! 1) ps = (m, ps')"
    by fastforce
  then have o1: "OpenStream (sl_C ?L) (sl_F ?L) (sl_E1 ?L) (sl_E2 ?L) (sl_openSync ?L) (rq_Route req ! 1) ps =
      (bindR m (\<lambda>_. Ok (stream_on ans e' [])), ps')"
    by (simp add: OpenStream_answering)
  obtain x where m: "m = Ok x"
    using hr ps o1 by (cases m) (simp_all add: handleRelayStream_def)
  have os: "OpenStream (sl_C ?L) (sl_F ?L) (sl_E1 ?L) (sl_E2 ?L) (sl_openSync ?L) (rq_Route req ! 1) ps = (Ok (stream_on ans e' []), ps')"
    using o1 m by simp
  have rc: "relayConversation ?L req (?st\<lparr>qs_in := i\<rparr>) (stream_on ans e' []) = (fin, st', outb)"
    using hr ps os by (auto simp: handleRelayStream_def split: prod.splits)
  obtain q where q: "encodes_request (sl_U L) q (at_hop 1 req)"
      "\<And>w. reliable w \<Longrightarrow> WriteConnectRequest (sl_U ?L) w (forwardRequest req) = (Ok (), w\<lparr>os_data := os_data w @ q\<rparr>)"
    using forward_written [OF assms(1,2) len] by auto
  have "os_data (qs_out outb) = q"
    using relayConversation_writes [OF q(2) _ rc] by (simp add: stream_on_def)
  then show "encodes_request (sl_U L) (os_data (qs_out outb)) (at_hop 1 req)" using q(1) by simp
  show "answers_with (os_data (qs_out st')) resp" if answered: "answers_with ans resp"
  proof -
    obtain rest where "\<forall>e. ReadConnectResponse \<lparr>is_data = ans, is_end = e\<rparr> = (Ok resp, \<lparr>is_data = rest, is_end = e\<rparr>)"
      using answered unfolding answers_with_def by blast
    then have j: "ReadConnectResponse (qs_in (stream_on ans e' [])) = (Ok resp, \<lparr>is_data = rest, is_end = e'\<rparr>)"
      by (simp add: stream_on_def)
    have U: "uuid_laws (sl_U ?L)" using assms(1) by simp
    have r: "reliable (qs_out (stream_on ans e' []))" "reliable (qs_out ?st)" by (simp_all add: stream_on_def)
    obtain s2 o2 a b where h: "handleStream ?L rt peer ?st = (if rs_OK resp then ProxyRelay else HandlerClosed, s2, Some o2,
          rt\<lparr>rt_peers := Some ps'\<rparr>)"
        "os_data (qs_out s2) = os_data (qs_out ?st) @ b"
        "\<forall>rest e. ReadConnectResponse \<lparr>is_data = b @ rest, is_end = e\<rparr> = (Ok resp, \<lparr>is_data = rest, is_end = e\<rparr>)"
      using relay_exchange [OF U rd may ps os r j] by blast
    have "st' = s2" using h(1) assms(3) by simp
    moreover have "os_data (qs_out ?st) = []" by (simp add: stream_on_def)
    ultimately have "os_data (qs_out st') = b" using h(2) by simp
    then show ?thesis
      using h(3) unfolding answers_with_def by (metis append_Nil2)
  qed
qed

section \<open>The path of a request\<close>

text \<open>What a node decides on its own, without asking another one.\<close>

definition decides :: "overlay \<Rightarrow> string \<Rightarrow> string \<Rightarrow> bytes \<Rightarrow> bytes \<Rightarrow> bool" where
  "decides N peer node d ans \<longleftrightarrow>
     (\<exists>a e' later e fin st' rt'. ans = os_data (qs_out st') \<and>
        handleStream (answering a e' (ov_lib N node)) (ov_rt N node) peer (stream_on (d @ later) e []) = (fin, st', None, rt'))"

lemma conversation_path:
  assumes U: "\<And>n. sl_U (ov_lib N n) = U" "uuid_laws U"
  shows "conversation N peer node d path ans \<Longrightarrow> encodes_request U d req \<Longrightarrow> rq_Route req \<noteq> [] \<Longrightarrow>
    node = hd (rq_Route req) \<Longrightarrow>
    path \<noteq> [] \<and> map fst path = take (length path) (rq_Route req) \<and>
    (\<forall>i<length path. encodes_request U (snd (path ! i)) (at_hop i req)) \<and>
    (\<forall>i. Suc i < length path \<longrightarrow> may_relay (rt_cfg (ov_rt N (rq_Route req ! i))) ((peer # rq_Route req) ! i) (at_hop i req)) \<and>
    (\<exists>own. decides N ((peer # rq_Route req) ! (length path - 1)) (fst (last path)) (snd (last path)) own \<and>
       (\<forall>resp. answers_with own resp \<longrightarrow> answers_with ans resp))"
proof (induction arbitrary: req rule: conversation.induct)
  case (decided a e' node peer d later e fin st' rt')
  have "decides N peer node d (os_data (qs_out st'))" using decided.hyps unfolding decides_def by blast
  moreover have "encodes_request U d (req\<lparr>rq_Route := rq_Route req\<rparr>)" using decided.prems(1) by simp
  ultimately show ?case using decided.prems by (cases "rq_Route req") auto
next
  case (relayed node d later e req' i ans e' peer fin st' outb rt' path)
  have req': "req' = req" using relayed.hyps(1) relayed.prems(1) U(1) by (simp add: encodes_request_def)
  note op = opened_relay [OF _ relayed.hyps(1,2), unfolded U(1), OF U(2)]
  have may: "may_relay (rt_cfg (ov_rt N node)) peer req" using op(1) req' by simp
  then have len: "1 < length (rq_Route req)" by (simp add: may_relay_def)
  then obtain n2 rest where route: "rq_Route req = node # n2 # rest"
    using relayed.prems(3) by (cases "rq_Route req"; cases "tl (rq_Route req)") auto
  have "path \<noteq> [] \<and> map fst path = take (length path) (rq_Route (at_hop 1 req)) \<and>
    (\<forall>i<length path. encodes_request U (snd (path ! i)) (at_hop i (at_hop 1 req))) \<and>
    (\<forall>i. Suc i < length path \<longrightarrow> may_relay (rt_cfg (ov_rt N (rq_Route (at_hop 1 req) ! i)))
        ((node # rq_Route (at_hop 1 req)) ! i) (at_hop i (at_hop 1 req))) \<and>
    (\<exists>own. decides N ((node # rq_Route (at_hop 1 req)) ! (length path - 1)) (fst (last path)) (snd (last path)) own \<and>
       (\<forall>resp. answers_with own resp \<longrightarrow> answers_with ans resp))"
    by (rule relayed.IH) (use op(2) req' route in simp_all)
  then obtain own where ih: "path \<noteq> []" "map fst path = take (length path) (n2 # rest)"
    "\<And>i. i < length path \<Longrightarrow> encodes_request U (snd (path ! i)) (at_hop (Suc i) req)"
    "\<And>i. Suc i < length path \<Longrightarrow> may_relay (rt_cfg (ov_rt N ((n2 # rest) ! i))) ((node # n2 # rest) ! i) (at_hop (Suc i) req)"
    "decides N ((node # n2 # rest) ! (length path - 1)) (fst (last path)) (snd (last path)) own"
    "\<And>resp. answers_with own resp \<Longrightarrow> answers_with ans resp"
    using route by auto
  have "encodes_request U (snd (((node, d) # path) ! i)) (at_hop i req)" if "i < length ((node, d) # path)" for i
    using that ih(3) relayed.prems(1) by (cases i) simp_all
  moreover have "may_relay (rt_cfg (ov_rt N (rq_Route req ! i))) ((peer # rq_Route req) ! i) (at_hop i req)"
    if "Suc i < length ((node, d) # path)" for i
  proof (cases i)
    case 0
    have "at_hop 0 req = req" by simp
    then show ?thesis using 0 may route by (simp only: nth_Cons_0)
  qed (use that ih(4) route in simp)
  moreover have "\<exists>own. decides N ((peer # rq_Route req) ! (length ((node, d) # path) - 1)) (fst (last ((node, d) # path)))
      (snd (last ((node, d) # path))) own \<and> (\<forall>resp. answers_with own resp \<longrightarrow> answers_with (os_data (qs_out st')) resp)"
    using ih(1,5,6) op(3) route by (intro exI [of _ own]) (cases path, auto)
  ultimately show ?case
    using ih(1,2) route by (intro conjI allI impI) simp_all
qed

text \<open>Whatever hop it has reached, an encrypted request stands for the client's context.\<close>

definition clientRequest :: "string \<Rightarrow> selectedRoute \<Rightarrow> ConnectRequest" where
  "clientRequest rid c = tcpRequest rid (sel_service c) (sel_egress c) (sel_route c) (effectiveE2ERequired c)"

lemma clientRequest_sel [simp]:
  "rq_Route (clientRequest rid c) = sel_route c" "rq_Service (clientRequest rid c) = sel_service c"
  "rq_Protocol (clientRequest rid c) = ''tcp''" "rq_Egress (clientRequest rid c) = sel_egress c"
  "rq_E2ERequired (clientRequest rid c) = effectiveE2ERequired c" "rq_RequestID (clientRequest rid c) = rid"
  by (simp_all add: clientRequest_def tcpRequest_def)

lemma carried_context:
  assumes "effectiveE2ERequired c"
  shows "serverContext (clientRequest rid c\<lparr>rq_Route := drop i (sel_route c)\<rparr>) = clientContext rid c"
  using assms by (simp add: serverContext_def clientContext_def clientRequest_def tcpRequest_def)

section \<open>Requests get there\<close>

text \<open>
  Every relay of the route lets its previous hop through and can open a stream to the next hop.
\<close>

definition willing_relays :: "overlay \<Rightarrow> string \<Rightarrow> ConnectRequest \<Rightarrow> bool" where
  "willing_relays N peer req \<longleftrightarrow>
     (\<forall>i. Suc i < length (rq_Route req) \<longrightarrow>
        (let node = rq_Route req ! i; L = ov_lib N node in
         may_relay (rt_cfg (ov_rt N node)) ((peer # rq_Route req) ! i) (at_hop i req) \<and>
         (\<exists>ps st ps'. rt_peers (ov_rt N node) = Some ps \<and>
            OpenStream (sl_C L) (sl_F L) (sl_E1 L) (sl_E2 L) (sl_openSync L) (rq_Route req ! Suc i) ps = (Ok st, ps'))))"

lemma willing_relays_next:
  assumes "willing_relays N peer req" "1 < length (rq_Route req)"
  shows "willing_relays N (hd (rq_Route req)) (at_hop 1 req)"
proof -
  obtain a b rest where route: "rq_Route req = a # b # rest"
    using assms(2) by (cases "rq_Route req"; cases "tl (rq_Route req)") auto
  show ?thesis unfolding willing_relays_def
  proof (intro allI impI)
    fix i
    assume "Suc i < length (rq_Route (at_hop 1 req))"
    then have "Suc (Suc i) < length (rq_Route req)" by (simp add: route)
    with assms(1) have "let node = rq_Route req ! Suc i; L = ov_lib N node in
         may_relay (rt_cfg (ov_rt N node)) ((peer # rq_Route req) ! Suc i) (at_hop (Suc i) req) \<and>
         (\<exists>ps st ps'. rt_peers (ov_rt N node) = Some ps \<and>
            OpenStream (sl_C L) (sl_F L) (sl_E1 L) (sl_E2 L) (sl_openSync L) (rq_Route req ! Suc (Suc i)) ps = (Ok st, ps'))"
      unfolding willing_relays_def by blast
    then show "let node = rq_Route (at_hop 1 req) ! i; L = ov_lib N node in
         may_relay (rt_cfg (ov_rt N node)) ((hd (rq_Route req) # rq_Route (at_hop 1 req)) ! i) (at_hop i (at_hop 1 req)) \<and>
         (\<exists>ps st ps'. rt_peers (ov_rt N node) = Some ps \<and>
            OpenStream (sl_C L) (sl_F L) (sl_E1 L) (sl_E2 L) (sl_openSync L) (rq_Route (at_hop 1 req) ! Suc i) ps = (Ok st, ps'))"
      by (simp add: route Let_def)
  qed
qed

text \<open>A willing relay opens its stream and writes on it, whatever the answer will be.\<close>

lemma relay_opens:
  assumes "uuid_laws (sl_U L)" "encodes_request (sl_U L) d req" "may_relay (rt_cfg rt) peer req"
    and "rt_peers rt = Some ps"
    and "OpenStream (sl_C L) (sl_F L) (sl_E1 L) (sl_E2 L) (sl_openSync L) (rq_Route req ! 1) ps = (Ok x, ps')"
  shows "\<exists>q. encodes_request (sl_U L) q (at_hop 1 req) \<and>
    (\<forall>ans e'. \<exists>fin st' outb rt'. os_data (qs_out outb) = q \<and>
       handleStream (answering ans e' L) rt peer (stream_on (d @ []) EOF []) = (fin, st', Some outb, rt'))"
proof -
  have rd: "ReadConnectRequest (sl_U L) \<lparr>is_data = d @ [], is_end = EOF\<rparr> = (Ok req, \<lparr>is_data = [], is_end = EOF\<rparr>)"
    using assms(2) unfolding encodes_request_def by blast
  have len: "1 < length (rq_Route req)" using assms(3) by (simp add: may_relay_def)
  obtain q where q: "encodes_request (sl_U L) q (at_hop 1 req)"
      "\<And>w. reliable w \<Longrightarrow> WriteConnectRequest (sl_U L) w (forwardRequest req) = (Ok (), w\<lparr>os_data := os_data w @ q\<rparr>)"
    using forward_written [OF assms(1) rd len] by blast
  have relay: "streamAction (rt_cfg rt) peer req = Relay" using assms(3) relay_admits by blast
  have "\<exists>fin st' outb rt'. os_data (qs_out outb) = q \<and>
       handleStream (answering ans e' L) rt peer (stream_on (d @ []) EOF []) = (fin, st', Some outb, rt')" for ans e'
  proof -
    let ?L = "answering ans e' L" and ?st = "stream_on [] EOF []" and ?o = "stream_on ans e' []"
    obtain fin st' outb where rc: "relayConversation ?L req ?st ?o = (fin, st', outb)"
      by (cases "relayConversation ?L req ?st ?o") auto
    have "os_data (qs_out outb) = q"
      using relayConversation_writes [OF _ _ rc, of q] q(2) by (simp add: stream_on_def)
    moreover have "onIn (ReadConnectRequest (sl_U ?L)) (stream_on (d @ []) EOF []) = (Ok req, ?st)"
      using rd by (simp add: onIn_def stream_on_def)
    then have "handleStream ?L rt peer (stream_on (d @ []) EOF []) = (fin, st', Some outb, rt\<lparr>rt_peers := Some ps'\<rparr>)"
      using relay assms(4,5) rc by (simp add: handleStream_def handleRelayStream_def OpenStream_answering)
    ultimately show ?thesis by blast
  qed
  with q(1) show ?thesis by blast
qed

lemma last_hop_decides:
  assumes "encodes_request (sl_U L) d req" "length (rq_Route req) \<le> 1"
  shows "\<exists>fin st' rt'. handleStream (answering a e' L) rt peer (stream_on (d @ []) EOF []) = (fin, st', None, rt')"
proof -
  have rd: "onIn (ReadConnectRequest (sl_U (answering a e' L))) (stream_on (d @ []) EOF []) = (Ok req, stream_on [] EOF [])"
    using assms(1) by (simp add: encodes_request_def onIn_def stream_on_def del: append_Nil2)
  have "streamAction (rt_cfg rt) peer req \<noteq> Relay"
    using assms(2) relay_admits [of "rt_cfg rt" peer req] by (simp add: may_relay_def)
  then show ?thesis
    using rd by (cases "streamAction (rt_cfg rt) peer req") (simp_all add: handleStream_def split: prod.split)
qed

lemma request_arrives:
  assumes U: "\<And>n. sl_U (ov_lib N n) = U" "uuid_laws U"
  shows "rq_Route req = route \<Longrightarrow> route \<noteq> [] \<Longrightarrow> willing_relays N peer req \<Longrightarrow> encodes_request U d req \<Longrightarrow>
    \<exists>path ans. conversation N peer (hd route) d path ans \<and> map fst path = route"
proof (induction route arbitrary: req peer d)
  case (Cons node rest)
  show ?case
  proof (cases rest)
    case Nil
    obtain fin st' rt' where "handleStream (answering [] EOF (ov_lib N node)) (ov_rt N node) peer (stream_on (d @ []) EOF []) =
        (fin, st', None, rt')"
      using last_hop_decides [of "ov_lib N node" d req "[]" EOF "ov_rt N node" peer] Cons.prems(1,4) Nil U(1) by auto
    from conversation.decided [OF this] show ?thesis using Nil by fastforce
  next
    case (Cons n2 rest')
    then have len: "1 < length (rq_Route req)" using Cons.prems(1) by simp
    have route: "rq_Route req = node # n2 # rest'" using Cons Cons.prems(1) by simp
    obtain ps st ps' where w: "may_relay (rt_cfg (ov_rt N node)) peer (at_hop 0 req)" "rt_peers (ov_rt N node) = Some ps"
        "OpenStream (sl_C (ov_lib N node)) (sl_F (ov_lib N node)) (sl_E1 (ov_lib N node)) (sl_E2 (ov_lib N node))
          (sl_openSync (ov_lib N node)) (rq_Route req ! 1) ps = (Ok st, ps')"
      using Cons.prems(3) route unfolding willing_relays_def by (auto simp: Let_def dest: spec [of _ 0])
    have may: "may_relay (rt_cfg (ov_rt N node)) peer req" using w(1) by simp
    obtain q where q: "encodes_request U q (at_hop 1 req)"
        "\<And>ans e'. \<exists>fin st' outb rt'. os_data (qs_out outb) = q \<and>
          handleStream (answering ans e' (ov_lib N node)) (ov_rt N node) peer (stream_on (d @ []) EOF []) = (fin, st', Some outb, rt')"
      using relay_opens [of "ov_lib N node", unfolded U(1), OF U(2) Cons.prems(4) may w(2,3)] by blast
    have "rq_Route (at_hop 1 req) = rest" "rest \<noteq> []" using route Cons by simp_all
    moreover have "willing_relays N node (at_hop 1 req)"
      using willing_relays_next [OF Cons.prems(3) len] route by simp
    ultimately obtain path ans where c: "conversation N node (hd rest) q path ans" "map fst path = rest"
      using Cons.IH [of "at_hop 1 req" node q] q(1) by blast
    obtain fin st' outb rt' where h: "os_data (qs_out outb) = q"
        "handleStream (answering ans EOF (ov_lib N node)) (ov_rt N node) peer (stream_on (d @ []) EOF []) = (fin, st', Some outb, rt')"
      using q(2) by blast
    have "ReadConnectRequest (sl_U (ov_lib N node)) \<lparr>is_data = d @ [], is_end = EOF\<rparr> = (Ok req, \<lparr>is_data = [], is_end = EOF\<rparr>)"
      using Cons.prems(4) U(1) unfolding encodes_request_def by (simp del: append_Nil2)
    from conversation.relayed [OF this h(2)] have "conversation N peer node d ((node, d) # path) (os_data (qs_out st'))"
      using c(1) h(1) route Cons by simp
    then show ?thesis using c(2) by fastforce
  qed
qed simp

section \<open>The session at the end of the route\<close>

definition encodes_response :: "bytes \<Rightarrow> ConnectResponse \<Rightarrow> bool" where
  "encodes_response d resp \<longleftrightarrow>
     (\<forall>rest e. ReadConnectResponse \<lparr>is_data = d @ rest, is_end = e\<rparr> = (Ok resp, \<lparr>is_data = rest, is_end = e\<rparr>))"

text \<open>A client's stream on which the answer \<open>incoming\<close> arrives, as an opener for one candidate.\<close>

definition opens :: "uuid_lib \<Rightarrow> bytes \<Rightarrow> go_error \<Rightarrow> 's stream_opener" where
  "opens U incoming e = (\<lambda>i rid service egress route e2e s.
     (fst (OpenTCPStream U (Ok (stream_on incoming e [])) rid service egress route e2e), s))"

lemma client_request_written:
  assumes "uuid_laws U" "valid_request U (clientRequest rid c)" "request_size (clientRequest rid c) \<le> MaxPayloadSize"
    and "canonical_id U rid"
  obtains q where "encodes_request U q (clientRequest rid c)"
    "\<And>w. reliable w \<Longrightarrow> WriteConnectRequest U w (clientRequest rid c) = (Ok (), w\<lparr>os_data := os_data w @ q\<rparr>)"
proof -
  let ?r = "clientRequest rid c" and ?w0 = "\<lparr>os_data = [], os_script = []\<rparr>"
  obtain idb where idb: "ParseBytes U (rq_RequestID ?r) = Ok idb"
    using assms(2) by (auto simp: valid_request_def is_Ok_iff)
  have p: "connectRequestPayload U ?r = Ok (requestBytes idb ?r)" "length (requestBytes idb ?r) \<le> MaxPayloadSize"
    using connectRequestPayload_valid [OF assms(1,2) idb] length_requestBytes [OF ParseBytes_length [OF assms(1) idb], of ?r]
      assms(3) by simp_all
  have "canonRequest U ?r = ?r" by (rule canonRequest_id) (simp add: assms(4))
  then have "encodes_request U (frameBytes TypeConnectRequest (requestBytes idb ?r)) ?r"
    using connectRequest.read_enc [OF assms(1) TrueI p] by (simp add: encodes_request_def)
  then show ?thesis using that connectRequest.write_enc [OF p] by blast
qed

lemma accepted_response:
  obtains d where "encodes_response d okResponse"
    "\<And>w. reliable w \<Longrightarrow> WriteConnectResponse w okResponse = (Ok (), w\<lparr>os_data := os_data w @ d\<rparr>)"
proof -
  have "canonResponse okResponse = okResponse" "ConnectCode_Valid (rs_Code okResponse)"
    by (simp_all add: canonResponse_def okResponse_def ConnectCode_Valid_def qoru_consts)
  then have "encodes_response (frameBytes TypeConnectResponse (responseBytes okResponse)) okResponse"
    using ReadConnectResponse_fits [of okResponse] by (simp add: encodes_response_def okResponse_def)
  then show ?thesis
    using that WriteConnectResponse_fits [of _ okResponse] by (simp add: okResponse_def)
qed

text \<open>Both ends of a session, up to the point where they start proxying.\<close>

lemma opens_accepted:
  assumes "\<And>w. reliable w \<Longrightarrow> WriteConnectRequest U w (clientRequest rid c) = (Ok (), w\<lparr>os_data := os_data w @ q\<rparr>)"
    and "encodes_response ans resp" "rs_OK resp"
  shows "opens U (ans @ later) e j rid (sel_service c) (sel_egress c) (sel_route c) (effectiveE2ERequired c) s =
    (Ok (stream_on later e q), s)"
  using assms(1) [of "\<lparr>os_data = [], os_script = []\<rparr>"] assms(2,3)
  by (simp add: opens_def OpenTCPStream_def clientRequest_def [symmetric] stream_on_def onOut_def onIn_def encodes_response_def)

lemma egress_serves:
  assumes "encodes_request (sl_U L) d req" "streamAction (rt_cfg rt) peer req = ServeE2E"
    and "findService (rt_cfg rt) (rq_Protocol req) (rq_Service req) = Ok svc" "isServiceE2EConfigured svc"
    and "\<And>w. reliable w \<Longrightarrow> WriteConnectResponse w okResponse = (Ok (), w\<lparr>os_data := os_data w @ ok\<rparr>)"
    and "serverRunHandshake (sl_C L) (sl_U L) (rt_e2e rt) req svc (sl_drawn L)
        (\<lambda>clientID. wrapErr (ErrE2EConnect ConnectCodeTargetDialFailed) (dialTCP L (sv_Target svc)))
        (stream_on later e ok) = (Ok h, st, Some target)"
  shows "handleStream L rt peer (stream_on (d @ later) e []) = (ProxyEncrypted h target, st, None, rt)"
proof -
  have "onIn (ReadConnectRequest (sl_U L)) (stream_on (d @ later) e []) = (Ok req, stream_on later e [])"
    using assms(1) by (simp add: encodes_request_def onIn_def stream_on_def)
  moreover have "onOut (\<lambda>w. WriteConnectResponse w okResponse) (stream_on later e []) = (Ok (), stream_on later e ok)"
    using assms(5) [of "\<lparr>os_data = [], os_script = []\<rparr>"] by (simp add: onOut_def stream_on_def)
  ultimately show ?thesis
    using assms(2-4,6) by (simp add: handleStream_def handleE2EStream_def)
qed

lemma session_lemma:
  assumes "uuid_laws U" "sl_U L = U" "effectiveE2ERequired c"
    and "valid_request U (clientRequest rid c)" "request_size (clientRequest rid c) \<le> MaxPayloadSize" "canonical_id U rid"
    and "encodes_request U d (at_hop i (clientRequest rid c))"
    and "streamAction (rt_cfg rt) peer (at_hop i (clientRequest rid c)) = ServeE2E"
    and "findService (rt_cfg rt) ''tcp'' (sel_service c) = Ok svc" "isServiceE2EConfigured svc"
    and "rt_e2e rt = Some ert" "sl_drawn L = Ok b" "dialTCP L (sv_Target svc) = Ok target"
    and "honest_run (sl_C L) U crt ert svc (clientContext rid c) ident a b"
  shows "\<exists>q ok cb sb kc ks th. encodes_request U q (clientRequest rid c) \<and> encodes_response ok okResponse \<and>
    (\<forall>ans resp rest e j s. encodes_response ans resp \<longrightarrow> rs_OK resp \<longrightarrow>
       tryCandidate (sl_C L) U (Some crt) (Ok a) (opens U (ans @ sb @ rest) e) rid j c s =
         (Connected (LocalProxyEncrypted c (stream_on rest e (q @ cb)) (fresh_reader \<lparr>is_data = rest, is_end = e\<rparr> ks th)
            (fresh_writer \<lparr>os_data = q @ cb, os_script = []\<rparr> kc th)), s)) \<and>
    (\<forall>rest e. handleStream L rt peer (stream_on (d @ cb @ rest) e []) =
       (ProxyEncrypted \<lparr>hr_reader = fresh_reader \<lparr>is_data = rest, is_end = e\<rparr> kc th,
          hr_writer = fresh_writer \<lparr>os_data = ok @ sb, os_script = []\<rparr> ks th, hr_clientID = ident\<rparr> target,
        stream_on rest e (ok @ sb), None, rt))"
proof -
  let ?r = "clientRequest rid c"
  have ctx: "serverContext (at_hop i ?r) = clientContext rid c"
    using carried_context [OF assms(3)] by simp
  have t: "wrapErr (ErrE2EConnect ConnectCodeTargetDialFailed) (dialTCP L (sv_Target svc)) = Ok target"
    using assms(13) by simp
  obtain q where q: "encodes_request U q ?r"
      "\<And>w. reliable w \<Longrightarrow> WriteConnectRequest U w ?r = (Ok (), w\<lparr>os_data := os_data w @ q\<rparr>)"
    using client_request_written [OF assms(1,4-6)] by blast
  obtain ok where ok: "encodes_response ok okResponse"
      "\<And>w. reliable w \<Longrightarrow> WriteConnectResponse w okResponse = (Ok (), w\<lparr>os_data := os_data w @ ok\<rparr>)"
    using accepted_response by blast
  obtain cb sb kc ks th where h:
    "\<And>rest e sent. clientRunHandshake (sl_C L) U (Some crt) (Ok a) rid c (stream_on (sb @ rest) e sent) =
       (Ok (fresh_reader \<lparr>is_data = rest, is_end = e\<rparr> ks th, fresh_writer \<lparr>os_data = sent @ cb, os_script = []\<rparr> kc th),
        stream_on rest e (sent @ cb))"
    "\<And>rest e sent. serverRunHandshake (sl_C L) U (Some ert) (at_hop i ?r) svc (Ok b)
        (\<lambda>clientID. wrapErr (ErrE2EConnect ConnectCodeTargetDialFailed) (dialTCP L (sv_Target svc))) (stream_on (cb @ rest) e sent) =
       (Ok \<lparr>hr_reader = fresh_reader \<lparr>is_data = rest, is_end = e\<rparr> kc th,
            hr_writer = fresh_writer \<lparr>os_data = sent @ sb, os_script = []\<rparr> ks th, hr_clientID = ident\<rparr>,
        stream_on rest e (sent @ sb), Some target)"
    using handshake_lemma [OF assms(14) ctx, where
        prepare = "\<lambda>clientID. wrapErr (ErrE2EConnect ConnectCodeTargetDialFailed) (dialTCP L (sv_Target svc))", OF t] by blast
  have cl: "tryCandidate (sl_C L) U (Some crt) (Ok a) (opens U (ans @ sb @ rest) e) rid j c s =
         (Connected (LocalProxyEncrypted c (stream_on rest e (q @ cb)) (fresh_reader \<lparr>is_data = rest, is_end = e\<rparr> ks th)
            (fresh_writer \<lparr>os_data = q @ cb, os_script = []\<rparr> kc th)), s)"
    if "encodes_response ans resp" "rs_OK resp" for ans resp rest e j s
    using opens_accepted [OF q(2) that, of "sb @ rest" e j s] h(1) [of rest e q] assms(3) by (simp add: tryCandidate_def)
  have sv: "handleStream L rt peer (stream_on (d @ cb @ rest) e []) =
       (ProxyEncrypted \<lparr>hr_reader = fresh_reader \<lparr>is_data = rest, is_end = e\<rparr> kc th,
          hr_writer = fresh_writer \<lparr>os_data = ok @ sb, os_script = []\<rparr> ks th, hr_clientID = ident\<rparr> target,
        stream_on rest e (ok @ sb), None, rt)" for rest e
    by (rule egress_serves [OF _ assms(8) _ assms(10) ok(2)]) (use assms(2,7,9,11,12) h(2) in simp_all)
  show ?thesis
    by (intro exI [of _ q] exI [of _ ok] exI [of _ cb] exI [of _ sb] exI [of _ kc] exI [of _ ks] exI [of _ th] conjI allI impI)
      (rule q(1), rule ok(1), rule cl, assumption, assumption, rule sv)
qed

end
