(* ===== verification/Server_Maintain.thy ===== *)
theory Server_Maintain
  imports Server_Peers
begin

text \<open>
  The goroutine that keeps a dialled peer connected (\<open>maintainConnection\<close> and
  \<open>sleepUntilNextDial\<close> in \<^verbatim>\<open>internal/server/peers.go\<close>), turn by turn, and what it guarantees.
\<close>

section \<open>The loop\<close>

text \<open>What a turn waits for: the end of the connection, or a timer.\<close>

datatype maintain_wait = WatchConn conn | SleepFor time | MaintainPanic

definition maintainTurn ::
    "crypto_lib \<Rightarrow> file_lib \<Rightarrow> dial_env \<Rightarrow> time \<Rightarrow> string \<Rightarrow> peerSessions \<Rightarrow> maintain_wait \<times> peerSessions" where
  "maintainTurn C F E now peerID s =
     (case connection C F E peerID s of
        (Err e, s) \<Rightarrow> (SleepFor (sleepDelay now peerID s), s)
      | (Panic, s) \<Rightarrow> (MaintainPanic, s)
      | (Ok conn, s) \<Rightarrow> (WatchConn conn, s))"

text \<open>
  A turn meets the network, the clock when it goes to sleep, what the other goroutines do to the
  sessions during its wait, and whether the context ends first.
\<close>

record maintain_turn =
  mt_env :: dial_env
  mt_now :: time
  mt_meanwhile :: "peerSessions \<Rightarrow> peerSessions"
  mt_cancelled :: bool

fun maintainConnection ::
    "crypto_lib \<Rightarrow> file_lib \<Rightarrow> string \<Rightarrow> maintain_turn list \<Rightarrow> peerSessions \<Rightarrow> maintain_wait list \<times> peerSessions" where
  "maintainConnection C F peerID [] s = ([], s)"
| "maintainConnection C F peerID (t # turns) s =
     (case maintainTurn C F (mt_env t) (mt_now t) peerID s of (w, s) \<Rightarrow>
        let s = mt_meanwhile t s in
        if mt_cancelled t then ([w], s)
        else case w of
          MaintainPanic \<Rightarrow> ([w], s)
        | WatchConn conn \<Rightarrow>
            (case maintainConnection C F peerID turns (peerDrop peerID conn s) of (ws, s) \<Rightarrow> (w # ws, s))
        | SleepFor d \<Rightarrow>
            (case maintainConnection C F peerID turns s of (ws, s) \<Rightarrow> (w # ws, s)))"

section \<open>Reconnecting\<close>

lemma connectionStart_not_live:
  assumes "connectionStart now p s = (r, s1)" "\<forall>c. r \<noteq> HaveConn c"
  shows "ps_conns s1 p = None \<and> ps_dead s1 = ps_dead s \<and> ps_peers s1 = ps_peers s \<and> ps_identity s1 = ps_identity s \<and>
    ps_reconnect s1 = ps_reconnect s"
  using assms
  by (auto simp: connectionStart_def closeConn_def live_def Let_def insert_absorb split: option.splits if_splits)

lemma connectionStart_dials:
  assumes "ps_peers s p = Some peer" "pc_Address peer \<noteq> []" "ps_conns s p = None" "\<not> peerBlocked p s now"
  shows "connectionStart now p s = (MustDial peer, s)"
  using assms by (auto simp: connectionStart_def peerBlocked_def split: option.splits)

definition next_dial :: "string \<Rightarrow> peerSessions \<Rightarrow> time" where
  "next_dial p s = (case ps_reconnect s p of Some st \<Rightarrow> pr_nextDial st | None \<Rightarrow> 0)"

lemma connection_failed:
  assumes "connection C F E p s = (Err e, s1)"
  shows "ps_conns s1 p = None \<and> ps_dead s1 = ps_dead s \<and> ps_peers s1 = ps_peers s \<and> ps_identity s1 = ps_identity s \<and>
    (next_dial p s1 = next_dial p s \<or> (\<exists>n. next_dial p s1 = de_failNow E + backoffDelay n))"
proof -
  obtain r s' where st: "connectionStart (de_now E) p s = (r, s')" by fastforce
  have not_have: "\<forall>c. r \<noteq> HaveConn c" using assms st by (auto simp: connection_def)
  note start = connectionStart_not_live [OF st not_have]
  consider (same) "s1 = s'" | (failed) err where "s1 = peerRecordDialFailure (de_failNow E) p err s'"
  proof (cases r)
    case (MustDial peer)
    show ?thesis
    proof (cases "ClientTLSConfig C F (ps_identity s') p")
      case (Ok tls)
      then show ?thesis
        using assms st MustDial that by (cases "de_dial E (pc_Address peer) tls") (auto simp: connection_def split: prod.splits)
    qed (use assms st MustDial that in \<open>auto simp: connection_def\<close>)
  qed (use assms st not_have that in \<open>auto simp: connection_def\<close>)
  then show ?thesis
  proof cases
    case same
    then show ?thesis using start by (simp add: next_dial_def)
  next
    case (failed err)
    then have "next_dial p s1 = de_failNow E +
        backoffDelay (case ps_reconnect s' p of Some st \<Rightarrow> pr_failCount st | None \<Rightarrow> 0)"
      by (auto simp: next_dial_def peerRecordDialFailure_def Let_def split: option.split)
    then show ?thesis using start failed by (auto simp: peerRecordDialFailure_def Let_def)
  qed
qed

lemma sleep_unblocks: "now + sleepDelay now p s \<le> t \<Longrightarrow> \<not> peerBlocked p s t"
  by (auto simp: sleepDelay_def peerBlocked_def isZeroTime_def Let_def qoru_consts split: option.splits if_splits)

lemma sleepDelay_bounds:
  assumes "next_dial p s \<le> now + 16 * second"
  shows "0 < sleepDelay now p s \<and> sleepDelay now p s \<le> 16 * second"
  using assms by (auto simp: sleepDelay_def next_dial_def isZeroTime_def Let_def qoru_consts split: option.splits)

lemma fresh_dial_connects:
  assumes "ps_peers s p = Some peer" "pc_Address peer \<noteq> []" "ps_conns s p = None" "\<not> peerBlocked p s (de_now E)"
    and "ClientTLSConfig C F (ps_identity s) p = Ok tls" "de_dial E (pc_Address peer) tls = Ok conn" "conn \<notin> ps_dead s"
  shows "\<exists>s'. connection C F E p s = (Ok conn, s') \<and> ps_conns s' p = Some conn \<and> live s' conn"
  using assms connectionStart_dials [OF assms(1-4)]
  by (simp add: connection_def connectionFinish_def peerResetDialBackoff_def live_def)



section \<open>The dial flag\<close>

text \<open>
  \<open>dial: false\<close> only keeps \<open>ConnectAll\<close> from dialling: a request to be relayed to a peer that has
  an address dials it, whatever its flag.
\<close>

lemma dial_flag_ignored:
  assumes "ps_peers s p = Some peer" "\<not> pc_Dial peer" "pc_Address peer \<noteq> []" "ps_conns s p = None" "ps_reconnect s p = None"
    and "ClientTLSConfig C F (ps_identity s) p = Ok tls" "de_dial E1 (pc_Address peer) tls = Ok conn" "live s conn"
    and "openSync conn = Ok stream"
  shows "\<exists>s'. OpenStream C F E1 E2 openSync p s = (Ok stream, s') \<and> ps_conns s' p = Some conn"
proof -
  have "\<exists>s'. connection C F E1 p s = (Ok conn, s') \<and> ps_conns s' p = Some conn \<and> live s' conn"
    using assms by (intro fresh_dial_connects [of s p peer]) (simp_all add: peerBlocked_def live_def)
  then show ?thesis using assms(9) by (auto simp: OpenStream_def)
qed

end
