(* ===== verification/Error_Text.thy ===== *)
theory Error_Text
  imports E2E_Record
begin

text \<open>
  The texts of errors, \<open>err.Error()\<close>: the \<open>Error\<close> methods of the error types of client, server and
  record layer, and what \<^verbatim>\<open>fmt.Errorf\<close> makes of its format. A server sends these texts to its
  peers, so their length decides whether a refusal fits a frame. Which runes
  outside ASCII are printable and the layout of a time are the parameter \<open>X\<close>.
\<close>

record text_lib =
  tx_IsPrint :: "nat \<Rightarrow> bool"
  tx_RFC3339Nano :: "int \<Rightarrow> string"

section \<open>Quoting (\<^verbatim>\<open>%q\<close>)\<close>

definition hex_digit :: "nat \<Rightarrow> char" where
  "hex_digit d = char_of (if d < 10 then 48 + d else 87 + d)"

definition hex :: "nat \<Rightarrow> nat \<Rightarrow> string" where
  "hex digits n = map (\<lambda>i. hex_digit (n div 16 ^ i mod 16)) (rev [0..<digits])"

definition utf8_cont :: "nat \<Rightarrow> bool" where
  "utf8_cont b \<longleftrightarrow> 0x80 \<le> b \<and> b \<le> 0xBF"

text \<open>\<open>utf8.DecodeRuneInString\<close>: the first rune with its width, or none if the bytes are not UTF-8.\<close>

definition decodeRune :: "nat list \<Rightarrow> (nat \<times> nat) option" where
  "decodeRune bs =
     (case bs of
        [] \<Rightarrow> None
      | b0 # bs \<Rightarrow>
      if b0 < 0x80 then Some (b0, 1)
      else (case bs of
        [] \<Rightarrow> None
      | b1 # bs \<Rightarrow>
      if 0xC2 \<le> b0 \<and> b0 \<le> 0xDF \<and> utf8_cont b1 then Some ((b0 - 0xC0) * 64 + (b1 - 0x80), 2)
      else (case bs of
        [] \<Rightarrow> None
      | b2 # bs \<Rightarrow>
      if 0xE0 \<le> b0 \<and> b0 \<le> 0xEF \<and> (if b0 = 0xE0 then 0xA0 else 0x80) \<le> b1 \<and>
         b1 \<le> (if b0 = 0xED then 0x9F else 0xBF) \<and> utf8_cont b2
      then Some ((b0 - 0xE0) * 4096 + (b1 - 0x80) * 64 + (b2 - 0x80), 3)
      else (case bs of
        [] \<Rightarrow> None
      | b3 # bs \<Rightarrow>
      if 0xF0 \<le> b0 \<and> b0 \<le> 0xF4 \<and> (if b0 = 0xF0 then 0x90 else 0x80) \<le> b1 \<and>
         b1 \<le> (if b0 = 0xF4 then 0x8F else 0xBF) \<and> utf8_cont b2 \<and> utf8_cont b3
      then Some ((b0 - 0xF0) * 262144 + (b1 - 0x80) * 4096 + (b2 - 0x80) * 64 + (b3 - 0x80), 4)
      else None))))"

text \<open>\<open>strconv.IsPrint\<close>: the ASCII range is fixed.\<close>

definition isPrint :: "text_lib \<Rightarrow> nat \<Rightarrow> bool" where
  "isPrint X r = (if r < 0x80 then 0x20 \<le> r \<and> r < 0x7F else tx_IsPrint X r)"

definition escapeRune :: "text_lib \<Rightarrow> nat \<Rightarrow> string \<Rightarrow> string" where
  "escapeRune X r rune =
     (if r = 0x22 \<or> r = 0x5C then CHR 0x5C # rune
      else if isPrint X r then rune
      else if 7 \<le> r \<and> r \<le> 13
      then [CHR 0x5C, [CHR ''a'', CHR ''b'', CHR ''t'', CHR ''n'', CHR ''v'', CHR ''f'', CHR ''r''] ! (r - 7)]
      else if r < 32 \<or> r = 0x7F then [CHR 0x5C, CHR ''x''] @ hex 2 r
      else if r < 0x10000 then [CHR 0x5C, CHR ''u''] @ hex 4 r
      else [CHR 0x5C, CHR ''U''] @ hex 8 r)"

text \<open>\<open>strconv.Quote\<close>.\<close>

function quoteRunes :: "text_lib \<Rightarrow> string \<Rightarrow> string" where
  "quoteRunes X [] = []"
| "quoteRunes X (c # s) =
     (case decodeRune (map of_char (c # s)) of
        None \<Rightarrow> [CHR 0x5C, CHR ''x''] @ hex 2 (of_char c) @ quoteRunes X s
      | Some (r, width) \<Rightarrow> escapeRune X r (take width (c # s)) @ quoteRunes X (drop (width - 1) s))"
  by pat_completeness auto
termination by (relation "measure (\<lambda>(X, s). length s)") auto

definition Quote :: "text_lib \<Rightarrow> string \<Rightarrow> string" where
  "Quote X s = [CHR 0x22] @ quoteRunes X s @ [CHR 0x22]"

section \<open>Formats\<close>

fun fargText :: "text_lib \<Rightarrow> farg \<Rightarrow> string" where
  "fargText X (FD n) = (if n < 0 then ''-'' @ show_nat (nat (- n)) else show_nat (nat n))"
| "fargText X (FS s) = s"
| "fargText X (FQ s) = Quote X s"

text \<open>
  The verbs \<^verbatim>\<open>%d\<close>, \<^verbatim>\<open>%s\<close>, \<^verbatim>\<open>%q\<close> take the next argument, \<^verbatim>\<open>%w\<close> the next wrapped error; the \<^verbatim>\<open>%v\<close> of a
  printed error comes after the arguments. A verb without argument prints as Go prints it.
\<close>

fun Sprintf :: "text_lib \<Rightarrow> string \<Rightarrow> farg list \<Rightarrow> string list \<Rightarrow> string" where
  "Sprintf X [] args errs = []"
| "Sprintf X [c] args errs = [c]"
| "Sprintf X (c # v # f) args errs =
     (if c \<noteq> CHR ''%'' then c # Sprintf X (v # f) args errs
      else case (if v = CHR ''w'' then [] else args) of
        a # args \<Rightarrow> fargText X a @ Sprintf X f args errs
      | [] \<Rightarrow> (case errs of
          e # errs \<Rightarrow> e @ Sprintf X f args errs
        | [] \<Rightarrow> ''%!'' @ [v] @ ''(MISSING)'' @ Sprintf X f args []))"

section \<open>\<open>Error\<close> methods\<close>

text \<open>The methods of the error types, over the text of the error they wrap.\<close>

definition ConnectRejectedError_Error :: "ConnectRejectedError \<Rightarrow> string" where
  "ConnectRejectedError_Error e =
     (let prefix = ''connect rejected'' @
            (if cr_Code e \<noteq> ConnectCodeOK then '': '' @ ConnectCode_String (cr_Code e) else [])
      in if cr_Message e = [] then prefix else prefix @ '': '' @ cr_Message e)"

definition ReconnectBackoffError_Error :: "text_lib \<Rightarrow> int \<Rightarrow> string option \<Rightarrow> string" where
  "ReconnectBackoffError_Error X nextAttempt err =
     (let msg = ''upstream reconnect backoff active until '' @ tx_RFC3339Nano X nextAttempt
      in case err of Some e \<Rightarrow> msg @ '': '' @ e | None \<Rightarrow> msg)"

definition PeerReconnectBackoffError_Error :: "text_lib \<Rightarrow> int \<Rightarrow> string option \<Rightarrow> string" where
  "PeerReconnectBackoffError_Error X nextAttempt err =
     (let msg = ''peer reconnect backoff active until '' @ tx_RFC3339Nano X nextAttempt
      in case err of Some e \<Rightarrow> msg @ '': '' @ e | None \<Rightarrow> msg)"

definition e2eConnectError_Error :: "byte \<Rightarrow> string option \<Rightarrow> string" where
  "e2eConnectError_Error code err = (case err of None \<Rightarrow> ConnectCode_String code | Some e \<Rightarrow> e)"

definition e2eHandshakePhaseError_Error :: "string \<Rightarrow> string \<Rightarrow> string" where
  "e2eHandshakePhaseError_Error phase err = err"

fun errorString :: "text_lib \<Rightarrow> go_error \<Rightarrow> string" where
  "errorString X (ErrorsNew s) = s"
| "errorString X (Errorf f args) = Sprintf X f args []"
| "errorString X (ErrorfW f args e) = Sprintf X f args [errorString X e]"
| "errorString X (ErrorfWV f e v) = Sprintf X f [] [errorString X e, errorString X v]"
| "errorString X EOF = ''EOF''"
| "errorString X ErrUnexpectedEOF = ''unexpected EOF''"
| "errorString X (LibError s) = s"
| "errorString X (ErrClose e) = CloseError_Error e"
| "errorString X (ErrRejected e) = ConnectRejectedError_Error e"
| "errorString X (ErrPhase p e) = e2eHandshakePhaseError_Error p (errorString X e)"
| "errorString X (ErrE2EConnect code e) = e2eConnectError_Error code (Some (errorString X e))"
| "errorString X (ErrReconnectBackoff srv addr t e) =
     ReconnectBackoffError_Error X t (case e of Some e \<Rightarrow> Some (errorString X e) | None \<Rightarrow> None)"
| "errorString X (ErrPeerReconnectBackoff srv addr t e) =
     PeerReconnectBackoffError_Error X t (case e of Some e \<Rightarrow> Some (errorString X e) | None \<Rightarrow> None)"

section \<open>Lengths\<close>

lemma length_hex [simp]: "length (hex n r) = n"
  by (simp add: hex_def)

lemma decodeRune_width: "decodeRune bs = Some (r, w) \<Longrightarrow> 1 \<le> w \<and> w \<le> length bs \<and> (r < 128 \<or> w > 1)"
  by (auto simp: decodeRune_def split: list.splits if_splits)

text \<open>Only runes of four bytes lie outside the basic plane.\<close>

lemma decodeRune_plane: "decodeRune bs = Some (r, w) \<Longrightarrow> 0x10000 \<le> r \<Longrightarrow> w = 4"
  by (auto simp: decodeRune_def utf8_cont_def split: list.splits if_splits)

lemma escapeRune_length:
  assumes "decodeRune bs = Some (r, w)" "length rune = w"
  shows "length (escapeRune X r rune) \<le> 4 * w"
  using assms decodeRune_width [OF assms(1)] decodeRune_plane [OF assms(1)] by (auto simp: escapeRune_def isPrint_def)

lemma quoteRunes_length: "length (quoteRunes X s) \<le> 4 * length s"
proof (induction X s rule: quoteRunes.induct)
  case (2 X c s)
  show ?case
  proof (cases "decodeRune (map of_char (c # s))")
    case None
    then show ?thesis using 2(1) by simp
  next
    case (Some p)
    obtain r w where p: "p = (r, w)" by fastforce
    note d = decodeRune_width [OF Some [unfolded p]]
    have "length (escapeRune X r (take w (c # s))) \<le> 4 * w"
      using escapeRune_length [OF Some [unfolded p], of "take w (c # s)" X] d by simp
    moreover have "length (quoteRunes X (drop (w - 1) s)) \<le> 4 * (length s - (w - 1))"
      using 2(2) [OF Some p [symmetric]] by simp
    moreover have "decodeRune (of_char c # map of_char s) = Some (r, w)" using Some p by simp
    ultimately show ?thesis using conjunct1 [OF conjunct2 [OF d]] by (simp del: take.simps)
  qed
qed simp

lemma Quote_length: "length (Quote X s) \<le> 4 * length s + 2"
  using quoteRunes_length [of X s] by (simp add: Quote_def)

lemma Sprintf_length:
  "length (Sprintf X f args errs) \<le> 12 * length f + sum_list (map (\<lambda>a. length (fargText X a)) args) + sum_list (map length errs)"
proof (induction X f args errs rule: Sprintf.induct)
  case (3 X c v f args errs)
  then show ?case by (cases args; cases errs) auto
qed simp_all

end
