(* ===== verification/Server_Refusals.thy ===== *)
theory Server_Refusals
  imports Server_Properties Error_Text
begin

text \<open>
  Refusals with the texts the server writes: with \<open>err.Error()\<close> as the message, the answer to a
  request a server refuses always fits a frame, because the names in a request are bounded by
  the protocol and quoting grows a name at most four times.
\<close>

section \<open>The errors of a refusal\<close>

text \<open>Formats of at most 100 characters with at most three bounded arguments and a short cause.\<close>

fun short_arg :: "farg \<Rightarrow> bool" where
  "short_arg (FD n) \<longleftrightarrow> False"
| "short_arg (FS s) \<longleftrightarrow> length s \<le> MaxProtocolLength"
| "short_arg (FQ s) \<longleftrightarrow> length s \<le> MaxTargetLength"

fun short_error :: "go_error \<Rightarrow> bool" where
  "short_error (Errorf f args) \<longleftrightarrow> length f \<le> 100 \<and> length args \<le> 3 \<and> list_all short_arg args"
| "short_error (ErrorfW f args (ErrorsNew s)) \<longleftrightarrow>
     length f \<le> 100 \<and> length args \<le> 3 \<and> list_all short_arg args \<and> length s \<le> 100"
| "short_error _ \<longleftrightarrow> False"

lemma short_arg_text: "short_arg a \<Longrightarrow> length (fargText X a) \<le> 16386"
proof (cases a)
  case (FQ s)
  then show "short_arg a \<Longrightarrow> ?thesis" using Quote_length [of X s] by (simp add: qoru_consts)
qed (simp_all add: qoru_consts)

lemma short_args_text: "list_all short_arg args \<Longrightarrow> sum_list (map (\<lambda>a. length (fargText X a)) args) \<le> 16386 * length args"
proof (induction args)
  case (Cons a args)
  then show ?case using short_arg_text [of a X] by simp
qed simp

lemma short_error_text:
  assumes "short_error e"
  shows "length (errorString X e) \<le> MaxPayloadSize - 4"
proof -
  have "length (Sprintf X f args errs) \<le> MaxPayloadSize - 4"
    if "length f \<le> 100" "length args \<le> 3" "list_all short_arg args" "sum_list (map length errs) \<le> 100" for f args errs
    using Sprintf_length [of X f args errs] short_args_text [OF that(3), of X] that by (simp add: qoru_consts)
  then show ?thesis using assms by (cases e rule: short_error.cases) simp_all
qed

lemma policy_errors_short:
  "length peer \<le> MaxTargetLength \<Longrightarrow> authorizeRelayIngress cfg peer = Err e \<Longrightarrow> short_error e"
  "length peer \<le> MaxTargetLength \<Longrightarrow> requireConfiguredPeer cfg peer = Err e \<Longrightarrow> short_error e"
  "length peer \<le> MaxTargetLength \<Longrightarrow> length protocol \<le> MaxProtocolLength \<Longrightarrow> length service \<le> MaxTargetLength \<Longrightarrow>
    authorizeServicePeer svc peer protocol service = Err e \<Longrightarrow> short_error e"
  by (auto simp: authorizeRelayIngress_def requireConfiguredPeer_def authorizeServicePeer_def ErrAccessDenied_def
      split: if_splits)

lemma findServiceIn_short:
  "length protocol \<le> MaxProtocolLength \<Longrightarrow> length service \<le> MaxTargetLength \<Longrightarrow>
    findServiceIn svcs protocol service = Err e \<Longrightarrow> short_error e"
  by (induction svcs) (auto simp: ErrServiceNotFound_def split: if_splits)

lemma resolveService_short:
  assumes "length peer \<le> MaxTargetLength" "length protocol \<le> MaxProtocolLength" "length service \<le> MaxTargetLength"
    and "resolveService cfg peer protocol service = Err e"
  shows "short_error e"
  using assms findServiceIn_short [OF assms(2,3)] policy_errors_short(3) [OF assms(1-3)]
  by (auto simp: resolveService_def bindR_eq_Err findService_def)

lemma route_errors_short:
  assumes "ok_route route" "length node \<le> MaxTargetLength" "length egress \<le> MaxTargetLength"
    and "validateConnectRoute node route egress = Err e"
  shows "short_error e"
proof -
  have "length (route ! i) \<le> MaxTargetLength" if "i < length route" for i
    using assms(1) that by (auto simp: ok_route_def ok_hop_def list_all_length)
  then show ?thesis
    using assms(2-4) by (auto simp: validateConnectRoute_def split: if_splits)
qed

lemma refusal_short:
  assumes "valid_request U req" "length peer \<le> MaxTargetLength" "length (cfg_NodeID cfg) \<le> MaxTargetLength"
    and "streamAction cfg peer req = Refuse code e"
  shows "short_error e"
proof -
  note v = assms(1) [unfolded valid_request_def]
  note route = route_errors_short [of "rq_Route req" "cfg_NodeID cfg" "rq_Egress req"]
  note policy = policy_errors_short(1,2) [OF assms(2)]
  note res = resolveService_short [of peer "rq_Protocol req" "rq_Service req"]
  have p: "length (rq_Protocol req) \<le> MaxTargetLength" using v by (simp add: qoru_consts)
  show ?thesis
    using assms(2-4) v p
    by (auto simp: streamAction_def split: if_splits res.splits intro: route policy res)
qed

text \<open>A request that was read is well formed.\<close>

lemma read_request_valid:
  assumes "uuid_laws U" "onIn (ReadConnectRequest U) st = (Ok req, st1)"
  shows "valid_request U req"
proof -
  obtain i where "ReadConnectRequest U (qs_in st) = (Ok req, i)" using assms(2) by (auto simp: onIn_Ok)
  then have "\<exists>f. connectRequestOfFrame U f = Ok req"
    by (cases "ReadFrame (qs_in st)") (auto simp: ReadConnectRequest_def thenPure_def bindR_eq_Ok)
  then show ?thesis using connectRequestOfFrame_Ok(2) [OF assms(1)] by blast
qed

section \<open>Properties\<close>

text \<open>
  C29: a refused request is answered with the code of the first rule it breaks and the server's
  own words: an unsupported protocol, an invalid route, an egress that is not this node, an
  unknown service, and access denied for everything else. The client's stream carries exactly
  that answer and is closed; the server's sessions are untouched and no other stream is opened.
  The message is the text of the error, with every name in it quoted, and it always fits the
  frame, whatever names the request holds, if the two node identifiers are not longer than
  the protocol allows for a hop.
\<close>

theorem refusal_told:
  assumes "uuid_laws (sl_U L)" "sl_errText L = errorString X"
    and "length peer \<le> MaxTargetLength" "length (cfg_NodeID (rt_cfg rt)) \<le> MaxTargetLength"
    and "onIn (ReadConnectRequest (sl_U L)) st = (Ok req, st1)" "streamAction (rt_cfg rt) peer req = Refuse code e"
    and "reliable (qs_out st)"
  shows "\<exists>st' d. handleStream L rt peer st = (HandlerClosed, st', None, rt) \<and> qs_closed st' \<and>
      os_data (qs_out st') = os_data (qs_out st) @ d \<and>
      (\<forall>rest e'. ReadConnectResponse \<lparr>is_data = d @ rest, is_end = e'\<rparr> =
        (Ok \<lparr>rs_OK = False, rs_Code = refusal_code (rt_cfg rt) peer req, rs_Message = errorString X e\<rparr>,
         \<lparr>is_data = rest, is_end = e'\<rparr>))"
  using refusal_delivered [OF assms(5,6,7)] assms(2)
    short_error_text [OF refusal_short [OF read_request_valid [OF assms(1,5)] assms(3,4,6)]] by metis

definition toy_text :: text_lib where
  "toy_text = \<lparr>tx_IsPrint = (\<lambda>r. False), tx_RFC3339Nano = (\<lambda>t. ''now'')\<rparr>"

definition toy_talking :: server_lib where
  "toy_talking = (toy_server_lib (stream_on [] EOF []))\<lparr>sl_dial := \<lambda>t. Err EOF, sl_errText := errorString toy_text\<rparr>"

lemma toy_talking_simps:
  "sl_C toy_talking = toy_crypto" "sl_U toy_talking = raw_uuid" "sl_errText toy_talking = errorString toy_text"
  "sl_dial toy_talking t = Err EOF"
  by (simp_all add: toy_talking_def toy_server_lib_def)

theorem refusal_told_witness:
  "\<exists>d st' sent. handleStream toy_talking toy_runtime ''b'' (stream_on d EOF []) =
       (HandlerClosed, st', None, toy_runtime) \<and> qs_closed st' \<and> os_data (qs_out st') = sent \<and>
     ReadConnectResponse \<lparr>is_data = sent @ [1], is_end = EOF\<rparr> =
       (Ok \<lparr>rs_OK = False, rs_Code = ConnectCodeUnsupportedProtocol,
          rs_Message = ''unsupported connect protocol '' @ [CHR 0x22] @ ''udp'' @ [CHR 0x22]\<rparr>, \<lparr>is_data = [1], is_end = EOF\<rparr>)"
proof -
  let ?req = "sample_request\<lparr>rq_Protocol := ''udp''\<rparr>" and ?L = "toy_talking"
  have v: "valid_request raw_uuid ?req" "request_size ?req \<le> MaxPayloadSize"
    using sample_request_valid sample_request_fits
    by (simp_all add: valid_request_def request_size_def sample_request_def qoru_consts)
  obtain d where d: "onIn (ReadConnectRequest raw_uuid) (stream_on (d @ []) EOF []) = (Ok ?req, stream_on [] EOF [])"
    using incoming_request [OF v] by metis
  let ?e = "Errorf ''unsupported connect protocol %q'' [FQ ''udp'']"
  have a: "streamAction (rt_cfg toy_runtime) ''b'' ?req = Refuse ConnectCodeUnsupportedProtocol ?e"
    by (simp add: streamAction_def)
  have c: "refusal_code (rt_cfg toy_runtime) ''b'' ?req = ConnectCodeUnsupportedProtocol"
    by (simp add: refusal_code_def)
  have e: "errorString toy_text ?e = ''unsupported connect protocol '' @ [CHR 0x22] @ ''udp'' @ [CHR 0x22]"
    by code_simp
  have n: "length ''b'' \<le> MaxTargetLength" "length (cfg_NodeID (rt_cfg toy_runtime)) \<le> MaxTargetLength"
    by (simp_all add: toy_runtime_def sample_peer_config_def qoru_consts)
  have "onIn (ReadConnectRequest (sl_U ?L)) (stream_on d EOF []) = (Ok ?req, stream_on [] EOF [])"
    using d by (simp add: toy_talking_simps)
  from refusal_told [OF _ toy_talking_simps(3) n this a] show ?thesis
    unfolding c e by (simp add: toy_talking_simps raw_uuid_laws stream_on_def) blast
qed



end
