(* ===== verification/Server_Main.thy ===== *)
theory Server_Main
  imports Server_Connection
begin

text \<open>
  The server's main loop (\<^verbatim>\<open>internal/server/server.go\<close>) and the connection handler
  (\<open>handleConnection\<close> in \<^verbatim>\<open>connection.go\<close>). Start-up is a sequence of steps that may fail; the
  accept loop is driven by what \<open>listener.Accept\<close> and the two waits give; the streams of a
  connection are handled in any order, each with what its handler meets. Whether
  the goroutines of a wait group end before its timeout is an argument.
\<close>

section \<open>Start-up\<close>

text \<open>What \<open>quic.ListenAddr\<close> gives, and the outcome of the dials of \<open>ConnectAll\<close>.\<close>

record 'l server_world =
  sw_C :: crypto_lib
  sw_F :: file_lib
  sw_listen :: "string \<Rightarrow> tls_config \<Rightarrow> 'l res"
  sw_order :: "PeerConfig list"
  sw_dial :: "string \<Rightarrow> dial_env"
  sw_dead :: "conn set"

definition serverStart :: "'l server_world \<Rightarrow> Config option \<Rightarrow> ('l \<times> serverRuntime) res" where
  "serverStart W cfgo =
     bindR (ValidateServer cfgo) (\<lambda>_.
     case cfgo of None \<Rightarrow> Panic | Some cfg \<Rightarrow>
     bindR (ServerTLSConfig (sw_F W) (cfg_Identity cfg)) (\<lambda>tlsConfig.
     bindR (newE2EServerRuntime (sw_C W) (sw_F W) cfg) (\<lambda>e2eRuntime.
     bindR (sw_listen W (cfg_Listen cfg) tlsConfig) (\<lambda>listener.
     case peersConnectAll (sw_C W) (sw_F W) (sw_dial W) (sw_order W) (newPeerSessions cfg (sw_dead W)) of
       (Ok _, peers) \<Rightarrow> Ok (listener, \<lparr>rt_cfg = cfg, rt_peers = Some peers, rt_e2e = Some e2eRuntime\<rparr>)
     | (Err e, peers) \<Rightarrow> Err e
     | (Panic, peers) \<Rightarrow> Panic))))"

section \<open>The accept loop\<close>

definition acceptFailureInitialBackoff :: time where
  [qoru_consts]: "acceptFailureInitialBackoff = 100 * millisecond"
definition acceptFailureMaxBackoff :: time where
  [qoru_consts]: "acceptFailureMaxBackoff = 30 * second"

text \<open>
  One turn: a connection, or an error with \<open>ctx.Err() != nil\<close> at that moment and whether the
  context ends during the pause.
\<close>

datatype accepted = Accepted conn | AcceptError bool bool

datatype accept_action = StartConnection conn | Pause time | ReturnServer

fun acceptLoop :: "time \<Rightarrow> accepted list \<Rightarrow> accept_action list" where
  "acceptLoop backoff [] = []"
| "acceptLoop backoff (Accepted conn # later) = StartConnection conn # acceptLoop acceptFailureInitialBackoff later"
| "acceptLoop backoff (AcceptError ended endsInPause # later) =
     (if ended then [ReturnServer]
      else Pause backoff # (if endsInPause then [ReturnServer]
        else let backoff = backoff * 2 in
          acceptLoop (if backoff > acceptFailureMaxBackoff then acceptFailureMaxBackoff else backoff) later))"

definition serverAccepts :: "accepted list \<Rightarrow> accept_action list" where
  "serverAccepts events = acceptLoop acceptFailureInitialBackoff events"

text \<open>The returns of \<open>Run\<close> from the loop, with the deferred \<open>peers.Close\<close>.\<close>

definition serverReturn :: "bool \<Rightarrow> serverRuntime \<Rightarrow> unit res \<times> serverRuntime" where
  "serverReturn connectionsEnded rt =
     (wrapErr (ErrorfW ''server connection shutdown: %w'' []) (waitGroupTimeout connectionsEnded),
      rt\<lparr>rt_peers := map_option peersClose (rt_peers rt)\<rparr>)"

section \<open>One connection\<close>

text \<open>The streams accepted on a connection, each with what its handler meets, in the order their handlers finish.\<close>

fun handleStreams ::
    "serverRuntime \<Rightarrow> string \<Rightarrow> (server_lib \<times> qstream) list \<Rightarrow>
     (handler_end \<times> qstream \<times> qstream option) list \<times> serverRuntime" where
  "handleStreams rt peerID [] = ([], rt)"
| "handleStreams rt peerID ((L, st) # streams) =
     (case handleStream L rt peerID st of (fin, st', outbound, rt) \<Rightarrow>
      case handleStreams rt peerID streams of (ends, rt) \<Rightarrow> ((fin, st', outbound) # ends, rt))"

definition closeRtConn :: "conn \<Rightarrow> serverRuntime \<Rightarrow> serverRuntime" where
  "closeRtConn conn rt = rt\<lparr>rt_peers := map_option (closeConn conn) (rt_peers rt)\<rparr>"

definition handleConnection ::
    "serverRuntime \<Rightarrow> conn \<Rightarrow> x509_cert list \<Rightarrow> (server_lib \<times> qstream) list \<Rightarrow>
     (handler_end \<times> qstream \<times> qstream option) list res \<times> serverRuntime" where
  "handleConnection rt conn peerCertificates streams =
     (case PeerNodeID peerCertificates of
        Err e \<Rightarrow> (Err e, closeRtConn conn rt)
      | Panic \<Rightarrow> (Panic, rt)
      | Ok peerID \<Rightarrow>
          let rt = (case rt_peers rt of
                None \<Rightarrow> rt
              | Some peers \<Rightarrow> rt\<lparr>rt_peers := Some (snd (RegisterInbound peerID conn peers))\<rparr>) in
          case handleStreams rt peerID streams of (ends, rt) \<Rightarrow> (Ok ends, closeRtConn conn rt))"

end
