(* ===== verification/Server_Main_Properties.thy ===== *)
theory Server_Main_Properties
  imports Server_Main Server_Properties
begin

text \<open>
  What the server guarantees around its streams: a server that starts is ready for every
  service it is configured with, a connection is served under the identity its certificate
  proves and closed at the end, and the accept loop backs off when accepting fails.
\<close>

section \<open>Start-up\<close>

lemma foldEach_invariant:
  assumes "foldEach f i xs s = Ok s'" "Q ys s" "\<And>ys x i s s'. Q ys s \<Longrightarrow> f i x s = Ok s' \<Longrightarrow> Q (ys @ [x]) s'"
  shows "Q (ys @ xs) s'"
  using assms(1,2)
proof (induction xs arbitrary: i s ys)
  case (Cons x xs)
  then obtain t where "f i x s = Ok t" "foldEach f (Suc i) xs t = Ok s'" by (auto simp: bindR_eq_Ok)
  then show ?case using Cons.IH [of "Suc i" t "ys @ [x]"] assms(3) [OF Cons.prems(2)] by simp
qed simp

text \<open>The certificate loaded for a service is a valid identity of that service.\<close>

definition service_identity ::
    "crypto_lib \<Rightarrow> file_lib \<Rightarrow> Config \<Rightarrow> ServiceConfig \<Rightarrow> tls_cert \<Rightarrow> bool" where
  "service_identity C F cfg svc cert \<longleftrightarrow> LoadServiceCertificate F (sv_E2E svc) = Ok cert \<and>
     (\<exists>roots. LoadCertPool F (si_CA (cfg_ServiceIdentity cfg)) = Ok roots \<and>
        is_Ok (VerifyServiceCertificate C (tc_Certificate cert) (Some roots) (sv_Name svc)))"

definition certs_loaded ::
    "crypto_lib \<Rightarrow> file_lib \<Rightarrow> Config \<Rightarrow> ServiceConfig list \<Rightarrow> cert_pool option \<times> e2eServerRuntime \<Rightarrow> bool" where
  "certs_loaded C F cfg svcs s \<longleftrightarrow>
     (\<forall>roots. fst s = Some roots \<longrightarrow> LoadCertPool F (si_CA (cfg_ServiceIdentity cfg)) = Ok roots) \<and>
     (\<forall>svc\<in>set svcs. isServiceE2EConfigured svc \<longrightarrow>
        sr_serviceCerts (snd s) (serviceE2ECacheKey svc) \<noteq> None \<and> (\<exists>cert. service_identity C F cfg svc cert)) \<and>
     (\<forall>k cert. sr_serviceCerts (snd s) k = Some cert \<longrightarrow>
        (\<exists>svc\<in>set svcs. isServiceE2EConfigured svc \<and> k = serviceE2ECacheKey svc \<and> service_identity C F cfg svc cert))"

lemma loadServiceCertificates_loaded:
  assumes "loadServiceCertificates C F cfg \<lparr>sr_nodeRoots = roots, sr_serviceCerts = Map.empty\<rparr> = Ok rt"
  shows "\<exists>ro. certs_loaded C F cfg (cfg_Services cfg) (ro, rt)"
proof -
  let ?f = "\<lambda>i svc (serviceRoots, rt).
       if \<not> isServiceE2EConfigured svc then Ok (serviceRoots, rt)
       else bindR (case serviceRoots of Some roots \<Rightarrow> Ok roots
                   | None \<Rightarrow> wrapErr (ErrorfW ''load service identity CA: %w'' [])
                       (LoadCertPool F (si_CA (cfg_ServiceIdentity cfg)))) (\<lambda>roots.
       bindR (wrapErr (ErrorfW ''load services[%d] e2e certificate: %w'' [FD (int i)])
                (LoadServiceCertificate F (sv_E2E svc))) (\<lambda>cert.
       bindR (wrapErr (ErrorfW ''verify services[%d] e2e certificate for service %q: %w'' [FD (int i), FQ (sv_Name svc)])
                (VerifyServiceCertificate C (tc_Certificate cert) (Some roots) (sv_Name svc))) (\<lambda>_.
       Ok (Some roots, rt\<lparr>sr_serviceCerts := (sr_serviceCerts rt)(serviceE2ECacheKey svc \<mapsto> cert)\<rparr>))))"
  obtain ro where fold: "foldEach ?f 0 (cfg_Services cfg) (None, \<lparr>sr_nodeRoots = roots, sr_serviceCerts = Map.empty\<rparr>) = Ok (ro, rt)"
    using assms unfolding loadServiceCertificates_def by (auto simp: bindR_eq_Ok)
  have step: "certs_loaded C F cfg (svcs @ [svc]) s'" if q: "certs_loaded C F cfg svcs s" and f: "?f i svc s = Ok s'" for svcs svc i s s'
  proof (cases "isServiceE2EConfigured svc")
    case False
    then have "s' = s" using f by (cases s) simp
    then show ?thesis using q False by (auto simp: certs_loaded_def)
  next
    case True
    obtain o1 rt1 where s: "s = (o1, rt1)" by fastforce
    obtain r cert u where r: "(case o1 of Some roots \<Rightarrow> Ok roots
                   | None \<Rightarrow> wrapErr (ErrorfW ''load service identity CA: %w'' [])
                       (LoadCertPool F (si_CA (cfg_ServiceIdentity cfg)))) = Ok r"
        "LoadServiceCertificate F (sv_E2E svc) = Ok cert"
        "VerifyServiceCertificate C (tc_Certificate cert) (Some r) (sv_Name svc) = Ok u"
        "s' = (Some r, rt1\<lparr>sr_serviceCerts := (sr_serviceCerts rt1)(serviceE2ECacheKey svc \<mapsto> cert)\<rparr>)"
      using f True by (auto simp: s bindR_eq_Ok)
    have pool: "LoadCertPool F (si_CA (cfg_ServiceIdentity cfg)) = Ok r"
      using r(1) q by (cases o1) (auto simp: s certs_loaded_def)
    have "service_identity C F cfg svc cert" using pool r(2,3) by (simp add: service_identity_def)
    then show ?thesis using q pool True by (auto simp: s r(4) certs_loaded_def split: if_splits)
  qed
  have "certs_loaded C F cfg [] (None, \<lparr>sr_nodeRoots = roots, sr_serviceCerts = Map.empty\<rparr>)"
    by (simp add: certs_loaded_def)
  then have "certs_loaded C F cfg ([] @ cfg_Services cfg) (ro, rt)"
    by (rule foldEach_invariant [OF fold]) (rule step)
  then show ?thesis by auto
qed

text \<open>A file name with a NUL byte cannot be opened.\<close>

definition no_nul_paths :: "file_lib \<Rightarrow> bool" where
  "no_nul_paths F \<longleftrightarrow> (\<forall>c k. nul \<in> set c \<or> nul \<in> set k \<longrightarrow> \<not> is_Ok (fl_LoadX509KeyPair F c k))"

lemma identity_paths:
  assumes "no_nul_paths F" "service_identity C F cfg svc cert"
  shows "nul \<notin> set (se_Cert (sv_E2E svc)) \<and> nul \<notin> set (se_Key (sv_E2E svc))"
proof -
  have "is_Ok (fl_LoadX509KeyPair F (se_Cert (sv_E2E svc)) (se_Key (sv_E2E svc)))"
    using assms(2) by (auto simp: service_identity_def LoadServiceCertificate_def)
  then show ?thesis using assms(1) unfolding no_nul_paths_def by blast
qed

lemma nul_append_inject: "nul \<notin> set u \<Longrightarrow> nul \<notin> set u' \<Longrightarrow> u @ nul # v = u' @ nul # v' \<longleftrightarrow> u = u' \<and> v = v'"
proof (induction u arbitrary: u')
  case Nil
  then show ?case by (cases u') auto
next
  case (Cons x u)
  then show ?case by (cases u') auto
qed

lemma append_nul_inject: "nul \<notin> set b \<Longrightarrow> nul \<notin> set b' \<Longrightarrow> a @ nul # b = a' @ nul # b' \<longleftrightarrow> a = a' \<and> b = b'"
  using nul_append_inject [of "rev b" "rev b'" "rev a" "rev a'"] rev_is_rev_conv [of "a @ nul # b" "a' @ nul # b'"]
  by auto

lemma cacheKey_inject:
  assumes "serviceE2ECacheKey s = serviceE2ECacheKey s'" "sv_Protocol s = sv_Protocol s'"
    and "nul \<notin> set (se_Cert (sv_E2E s))" "nul \<notin> set (se_Key (sv_E2E s))"
    and "nul \<notin> set (se_Cert (sv_E2E s'))" "nul \<notin> set (se_Key (sv_E2E s'))"
  shows "sv_Name s = sv_Name s' \<and> se_Cert (sv_E2E s) = se_Cert (sv_E2E s') \<and> se_Key (sv_E2E s) = se_Key (sv_E2E s')"
proof -
  have "(sv_Protocol s @ nul # sv_Name s @ nul # se_Cert (sv_E2E s)) @ nul # se_Key (sv_E2E s) =
      (sv_Protocol s' @ nul # sv_Name s' @ nul # se_Cert (sv_E2E s')) @ nul # se_Key (sv_E2E s')"
    using assms(1) by (simp add: serviceE2ECacheKey_def)
  then have 1: "(sv_Protocol s @ nul # sv_Name s) @ nul # se_Cert (sv_E2E s) =
      (sv_Protocol s' @ nul # sv_Name s') @ nul # se_Cert (sv_E2E s')" "se_Key (sv_E2E s) = se_Key (sv_E2E s')"
    unfolding append_nul_inject [OF assms(4,6)] by simp_all
  from 1(1) have "sv_Protocol s @ nul # sv_Name s = sv_Protocol s' @ nul # sv_Name s'" "se_Cert (sv_E2E s) = se_Cert (sv_E2E s')"
    unfolding append_nul_inject [OF assms(3,5)] by simp_all
  then show ?thesis using 1(2) assms(2) by simp
qed

lemma serverStart_Ok:
  assumes "serverStart W (Some cfg) = Ok (l, rt)"
  shows "ValidateServer (Some cfg) = Ok () \<and> rt_cfg rt = cfg \<and>
    (\<exists>tls. ServerTLSConfig (sw_F W) (cfg_Identity cfg) = Ok tls \<and> sw_listen W (cfg_Listen cfg) tls = Ok l) \<and>
    (\<exists>ert. rt_e2e rt = Some ert \<and> newE2EServerRuntime (sw_C W) (sw_F W) cfg = Ok ert)"
  using assms by (auto simp: serverStart_def bindR_eq_Ok peersConnectAll_def)

text \<open>
  C21: a server that starts is ready for every service. If start-up succeeds, the configuration is
  well formed, the listener uses the node's TLS configuration, and for each service with
  end-to-end keys the certificate found at run time is the one configured for this very
  service, it has been verified against the service CA, and it names the service. So
  \<open>serviceCertificate\<close> cannot fail while the server runs, and no service can be given the
  certificate of another one through the cache.
\<close>

theorem server_start_ready:
  assumes "serverStart W (Some cfg) = Ok (l, rt)" "no_nul_paths (sw_F W)"
  shows "server_config cfg \<and> rt_cfg rt = cfg \<and>
    (\<exists>tls. ServerTLSConfig (sw_F W) (cfg_Identity cfg) = Ok tls \<and> sw_listen W (cfg_Listen cfg) tls = Ok l) \<and>
    (\<exists>ert. rt_e2e rt = Some ert \<and>
      (\<forall>svc\<in>set (cfg_Services cfg). isServiceE2EConfigured svc \<longrightarrow>
        (\<exists>cert. serviceCertificate ert svc = Ok cert \<and> service_identity (sw_C W) (sw_F W) cfg svc cert)))"
proof -
  note start = serverStart_Ok [OF assms(1)]
  then have cfg: "server_config cfg" by (simp add: ValidateServer_iff)
  obtain ert roots where ert: "rt_e2e rt = Some ert"
      "loadServiceCertificates (sw_C W) (sw_F W) cfg \<lparr>sr_nodeRoots = roots, sr_serviceCerts = Map.empty\<rparr> = Ok ert"
    using start by (auto simp: newE2EServerRuntime_def bindR_eq_Ok)
  obtain ro where q: "certs_loaded (sw_C W) (sw_F W) cfg (cfg_Services cfg) (ro, ert)"
    using loadServiceCertificates_loaded [OF ert(2)] by blast
  have "\<exists>cert. serviceCertificate ert svc = Ok cert \<and> service_identity (sw_C W) (sw_F W) cfg svc cert"
    if svc: "svc \<in> set (cfg_Services cfg)" "isServiceE2EConfigured svc" for svc
  proof -
    have ok: "se_Cert (sv_E2E svc) \<noteq> []" "se_Key (sv_E2E svc) \<noteq> []" "sv_Protocol svc = ''tcp''"
      using cfg svc by (auto simp: server_config_def service_ok_def isServiceE2EConfigured_def)
    obtain cert where c: "sr_serviceCerts ert (serviceE2ECacheKey svc) = Some cert"
      using q svc by (auto simp: certs_loaded_def)
    then obtain svc' where s': "svc' \<in> set (cfg_Services cfg)" "isServiceE2EConfigured svc'"
        "serviceE2ECacheKey svc = serviceE2ECacheKey svc'" "service_identity (sw_C W) (sw_F W) cfg svc' cert"
      using q unfolding certs_loaded_def snd_conv by blast
    obtain own where "service_identity (sw_C W) (sw_F W) cfg svc own"
      using q svc unfolding certs_loaded_def by blast
    moreover have "sv_Protocol svc' = ''tcp''"
      using cfg s'(1,2) by (auto simp: server_config_def service_ok_def isServiceE2EConfigured_def)
    ultimately have same: "sv_Name svc = sv_Name svc'" "sv_E2E svc = sv_E2E svc'"
      using cacheKey_inject [OF s'(3)] identity_paths [OF assms(2)] s'(4) ok(3) by (auto intro: ServiceE2EConfig.equality)
    then have "service_identity (sw_C W) (sw_F W) cfg svc cert"
      using s'(4) by (simp add: service_identity_def)
    then show ?thesis using c ok by (simp add: serviceCertificate_def)
  qed
  then show ?thesis using start cfg ert(1) by blast
qed

definition toy_server_config :: Config where
  "toy_server_config = sample_peer_config\<lparr>cfg_NodeID := ''b'', cfg_Peers := [], cfg_ServiceIdentity := \<lparr>si_CA = ''sca''\<rparr>,
     cfg_Services := [\<lparr>sv_Name = ''echo'', sv_Protocol = ''tcp'', sv_Target = ''h:1'', sv_Peers = [],
       sv_E2E = \<lparr>se_Cert = ''spiffe://qoru/service/echo'', se_Key = ''k''\<rparr>\<rparr>]\<rparr>"

definition toy_real_files :: file_lib where
  "toy_real_files = toy_files\<lparr>fl_LoadX509KeyPair := (\<lambda>cert key. if nul \<in> set cert \<or> nul \<in> set key then Err (LibError ''open'')
     else fl_LoadX509KeyPair toy_files cert key)\<rparr>"

definition toy_server_world :: "nat server_world" where
  "toy_server_world = \<lparr>sw_C = toy_crypto, sw_F = toy_real_files, sw_listen = (\<lambda>a t. Ok 4), sw_order = [],
     sw_dial = (\<lambda>p. toy_env), sw_dead = {}\<rparr>"

lemma toy_server_config_ok: "ValidateServer (Some toy_server_config) = Ok ()"
proof -
  have "address ''h:1''" unfolding address_def by code_simp
  then show ?thesis
    by (simp add: ValidateServer_iff server_config_def common_config_def toy_server_config_def sample_peer_config_def
        service_ok_def qoru_consts)
qed

lemma toy_server_starts: "\<exists>rt. serverStart toy_server_world (Some toy_server_config) = Ok (4, rt)"
proof -
  have "nul \<notin> set ''spiffe://qoru/service/echo''" "nul \<notin> set ''k''" "nul \<notin> set ''c''"
    by (simp_all add: nul_def char_of_def)
  moreover have "is_Ok (VerifyServiceCertificate toy_crypto [bytes_of ''spiffe://qoru/service/echo''] (Some r) ''echo'')" for r
    by (simp add: VerifyServiceCertificate_def toy_crypto_def ServiceNameFromCertificate_def spiffeServicePrefix_def
        hasPrefix_def trimPrefix_def)
  ultimately show ?thesis
    using toy_server_config_ok
    by (simp add: serverStart_def toy_server_world_def newE2EServerRuntime_def loadServiceCertificates_def
        toy_server_config_def sample_peer_config_def LoadServiceCertificate_def isServiceE2EConfigured_def
        ServerTLSConfig_def loadCertificateAndCA_def LoadCertPool_def toy_real_files_def toy_files_def peersConnectAll_def is_Ok_iff)
qed

theorem server_start_ready_witness:
  "\<exists>rt ert cert. serverStart toy_server_world (Some toy_server_config) = Ok (4, rt) \<and> rt_e2e rt = Some ert \<and>
     serviceCertificate ert (hd (cfg_Services toy_server_config)) = Ok cert \<and>
     service_identity toy_crypto toy_real_files toy_server_config (hd (cfg_Services toy_server_config)) cert"
proof -
  obtain rt where rt: "serverStart toy_server_world (Some toy_server_config) = Ok (4, rt)"
    using toy_server_starts by blast
  have "no_nul_paths (sw_F toy_server_world)"
    by (simp add: no_nul_paths_def toy_server_world_def toy_real_files_def)
  from server_start_ready [OF rt this] obtain ert where ert: "rt_e2e rt = Some ert"
    "\<forall>svc\<in>set (cfg_Services toy_server_config). isServiceE2EConfigured svc \<longrightarrow>
        (\<exists>cert. serviceCertificate ert svc = Ok cert \<and> service_identity (sw_C toy_server_world) (sw_F toy_server_world)
           toy_server_config svc cert)"
    by blast
  have s: "hd (cfg_Services toy_server_config) \<in> set (cfg_Services toy_server_config)"
      "isServiceE2EConfigured (hd (cfg_Services toy_server_config))"
      "sw_C toy_server_world = toy_crypto" "sw_F toy_server_world = toy_real_files"
    by (simp_all add: toy_server_config_def isServiceE2EConfigured_def toy_server_world_def)
  from ert(2) [rule_format, OF s(1,2)] rt ert(1) show ?thesis unfolding s(3,4) by blast
qed

section \<open>Connections\<close>

lemma handleStream_cfg:
  "handleStream L rt peer st = (fin, st', outb, rt') \<Longrightarrow> rt_cfg rt' = rt_cfg rt \<and> (rt_peers rt' = None \<longleftrightarrow> rt_peers rt = None)"
  by (auto simp: handleStream_def handleRelayStream_def Let_def
      split: res.splits prod.splits stream_action.splits option.splits)

definition stream_served :: "Config \<Rightarrow> string \<Rightarrow> server_lib \<times> qstream \<Rightarrow> handler_end \<times> qstream \<times> qstream option \<Rightarrow> bool" where
  "stream_served cfg peer inp out \<longleftrightarrow> (case (inp, out) of ((L, st), (fin, st', outb)) \<Rightarrow>
     fin \<noteq> HandlerPanic \<and> (fin = HandlerClosed \<longrightarrow> qs_closed st' \<and> (\<forall>o'. outb = Some o' \<longrightarrow> qs_closed o')) \<and>
     admitted_end L cfg peer st fin)"

lemma handleStreams_served:
  "handleStreams rt peer streams = (ends, rt') \<Longrightarrow> \<forall>(L, st)\<in>set streams. server_lib_total L \<Longrightarrow>
   list_all2 (stream_served (rt_cfg rt) peer) streams ends \<and> rt_cfg rt' = rt_cfg rt \<and>
   (rt_peers rt' = None \<longleftrightarrow> rt_peers rt = None)"
proof (induction streams arbitrary: rt ends)
  case (Cons x streams)
  obtain L st where x: "x = (L, st)" by fastforce
  obtain fin st' outb rt1 where 1: "handleStream L rt peer st = (fin, st', outb, rt1)" by (cases rule: prod_cases4)
  obtain ends' where 2: "handleStreams rt1 peer streams = (ends', rt')" "ends = (fin, st', outb) # ends'"
    using Cons.prems(1) x 1 by (auto split: prod.splits)
  have "server_lib_total L" using Cons.prems(2) x by simp
  from handleStream_settled [OF this, of rt peer st] have "stream_served (rt_cfg rt) peer x (fin, st', outb)"
    using handleStream_admitted [OF 1] 1 x by (simp add: stream_served_def)
  then show ?case
    using Cons.IH [OF 2(1)] Cons.prems(2) 2(2) handleStream_cfg [OF 1] by simp
qed simp

text \<open>
  C26: a connection is served under the identity it proved. A connection whose certificate has no
  node identity is closed without touching the peers' sessions or accepting a stream. Otherwise
  every stream on it is handled for that one node identity: it does not panic, it ends closed or
  proxied, and it is proxied only if the access rules admit that node. When the connection
  ends it has been closed on this side too.
\<close>

theorem connection_served:
  assumes "handleConnection rt conn certs streams = (r, rt')" "\<forall>(L, st)\<in>set streams. server_lib_total L"
  shows "(\<forall>peers. rt_peers rt' = Some peers \<longrightarrow> \<not> live peers conn) \<and> rt_cfg rt' = rt_cfg rt \<and>
    (case PeerNodeID certs of
       Ok peer \<Rightarrow> \<exists>ends. r = Ok ends \<and> list_all2 (stream_served (rt_cfg rt) peer) streams ends
     | Err e \<Rightarrow> r = Err e \<and> rt_peers rt' = map_option (closeConn conn) (rt_peers rt)
     | Panic \<Rightarrow> False)"
proof (cases "PeerNodeID certs")
  case (Ok peer)
  let ?rt = "case rt_peers rt of None \<Rightarrow> rt
     | Some peers \<Rightarrow> rt\<lparr>rt_peers := Some (snd (RegisterInbound peer conn peers))\<rparr>"
  obtain ends rt1 where 1: "handleStreams ?rt peer streams = (ends, rt1)" by fastforce
  have "rt_cfg ?rt = rt_cfg rt" by (simp split: option.splits)
  then show ?thesis
    using handleStreams_served [OF 1 assms(2)] assms(1) Ok 1
    by (auto simp: handleConnection_def Let_def closeRtConn_def live_def closeConn_def)
qed (use assms in \<open>auto simp: handleConnection_def closeRtConn_def live_def closeConn_def\<close>)

theorem connection_served_witness:
  "\<exists>ends rt'. handleConnection toy_runtime 7 [\<lparr>xc_URIs = [''spiffe://qoru/node/b''], xc_PublicKey = PubEd25519 []\<rparr>]
      [(toy_server_lib (stream_on [] EOF []), stream_on [1, 1, 0] EOF [])] = (Ok ends, rt') \<and>
    list_all2 (stream_served (rt_cfg toy_runtime) ''b'')
      [(toy_server_lib (stream_on [] EOF []), stream_on [1, 1, 0] EOF [])] ends \<and> length ends = 1"
proof -
  let ?certs = "[\<lparr>xc_URIs = [''spiffe://qoru/node/b''], xc_PublicKey = PubEd25519 []\<rparr>]"
  let ?streams = "[(toy_server_lib (stream_on [] EOF []), stream_on [1, 1, 0] EOF [])]"
  obtain r rt' where run: "handleConnection toy_runtime 7 ?certs ?streams = (r, rt')" by fastforce
  have peer: "PeerNodeID ?certs = Ok ''b''"
    by (simp add: PeerNodeID_def spiffeNodePrefix_def hasPrefix_def trimPrefix_def)
  obtain ends where "r = Ok ends" "list_all2 (stream_served (rt_cfg toy_runtime) ''b'') ?streams ends"
    using connection_served [OF run] toy_server_lib_total peer by auto
  then show ?thesis using run by (intro exI [of _ ends] exI [of _ rt']) (auto dest: list_all2_lengthD)
qed

section \<open>The accept loop\<close>

definition acceptBackoff :: "nat \<Rightarrow> time" where
  "acceptBackoff k = min (100000000 * 2 ^ k) 30000000000"

lemma acceptBackoff_Suc:
  "acceptBackoff (Suc k) = (if acceptBackoff k * 2 > acceptFailureMaxBackoff then acceptFailureMaxBackoff else acceptBackoff k * 2)"
  by (simp add: acceptBackoff_def qoru_consts min_def)

lemma acceptLoop_failures:
  "acceptLoop (acceptBackoff j) (replicate k (AcceptError False False) @ Accepted c # later) =
   map (\<lambda>i. Pause (acceptBackoff (j + i))) [0..<k] @ StartConnection c # acceptLoop acceptFailureInitialBackoff later"
proof (induction k arbitrary: j)
  case (Suc k)
  have "acceptLoop (acceptBackoff j) (replicate (Suc k) (AcceptError False False) @ Accepted c # later) =
      Pause (acceptBackoff j) # acceptLoop (acceptBackoff (Suc j)) (replicate k (AcceptError False False) @ Accepted c # later)"
    by (simp add: acceptBackoff_Suc Let_def)
  also have "\<dots> = Pause (acceptBackoff j) # map (\<lambda>i. Pause (acceptBackoff (j + Suc i))) [0..<k] @
      StartConnection c # acceptLoop acceptFailureInitialBackoff later"
    by (simp add: Suc.IH)
  also have "map (\<lambda>i. Pause (acceptBackoff (j + Suc i))) [0..<k] = map (\<lambda>i. Pause (acceptBackoff (j + i))) [Suc 0..<Suc k]"
    by (simp add: map_Suc_upt [symmetric] del: upt_Suc)
  finally show ?case by (simp add: upt_conv_Cons del: upt_Suc)
qed simp

text \<open>
  The server survives accept failures and backs off. While the context lasts, a run of k
  failed \<open>Accept\<close> calls pauses 100 ms, 200 ms, 400 ms and so on, doubling up to 30 seconds; the
  connection accepted next is served and the pauses start over at 100 ms, whatever happened
  before. Once the context has ended, the loop returns at the next failure, or in the pause.
\<close>

theorem accept_pauses:
  "serverAccepts (replicate k (AcceptError False False) @ Accepted c # later) =
     map (\<lambda>i. Pause (min (100000000 * 2 ^ i) 30000000000)) [0..<k] @ StartConnection c # serverAccepts later \<and>
   serverAccepts (AcceptError True p # later) = [ReturnServer] \<and>
   serverAccepts (AcceptError False True # later) = [Pause 100000000, ReturnServer]"
proof -
  have "acceptFailureInitialBackoff = acceptBackoff 0" by (simp add: acceptBackoff_def qoru_consts)
  then show ?thesis
    using acceptLoop_failures [of 0 k c later] by (simp add: serverAccepts_def acceptBackoff_def)
qed

end
