(* ===== verification/Client_Main.thy ===== *)
theory Client_Main
  imports Client_Connection Client_E2E Config_Validate
begin

text \<open>
  The client's \<open>Run\<close> and its accept loops (\<^verbatim>\<open>internal/client/client.go\<close>): start-up as the
  sequence of steps that may fail, with the listeners opened so far; what a forward's loop does
  with each local connection; and how \<open>Run\<close> ends. Whether the goroutines of the two wait groups
  end before the timeout is an argument.
\<close>

section \<open>Start-up\<close>

record 'l client_setup =
  cs_C :: crypto_lib
  cs_F :: file_lib
  cs_env :: "string \<Rightarrow> client_env"
  cs_order :: "string list"
  cs_dead :: "conn set"
  cs_listen :: "string \<Rightarrow> 'l res"

record 'l client_running =
  cr_sessions :: upstreamSessions
  cr_routes :: routeResolver
  cr_e2e :: "e2eClientRuntime option"
  cr_listeners :: "(ForwardConfig \<times> 'l) list"

text \<open>The listeners of the forwards; an error comes with those that were open and get closed.\<close>

fun listenForwards :: "(string \<Rightarrow> 'l res) \<Rightarrow> ForwardConfig list \<Rightarrow> (ForwardConfig \<times> 'l) list \<Rightarrow>
    (ForwardConfig \<times> 'l) list res \<times> (ForwardConfig \<times> 'l) list" where
  "listenForwards listen [] listeners = (Ok listeners, [])"
| "listenForwards listen (forward # forwards) listeners =
     (case listen (fc_Listen forward) of
        Err e \<Rightarrow> (Err e, listeners)
      | Panic \<Rightarrow> (Panic, [])
      | Ok listener \<Rightarrow> listenForwards listen forwards (listeners @ [(forward, listener)]))"

text \<open>The outcome, the listeners closed, and the sessions as start-up leaves them.\<close>

definition clientStart ::
    "'l client_setup \<Rightarrow> Config option \<Rightarrow> 'l client_running res \<times> (ForwardConfig \<times> 'l) list \<times> upstreamSessions option" where
  "clientStart W cfgo =
     (case ValidateClient cfgo of
        Err e \<Rightarrow> (Err e, [], None)
      | Panic \<Rightarrow> (Panic, [], None)
      | Ok _ \<Rightarrow>
      (case cfgo of None \<Rightarrow> (Panic, [], None) | Some cfg \<Rightarrow>
      (case newUpstreamSessions cfg (cs_dead W) of
        Err e \<Rightarrow> (Err e, [], None)
      | Panic \<Rightarrow> (Panic, [], None)
      | Ok sessions \<Rightarrow>
      (case sessionsConnectAll (cs_C W) (cs_F W) (cs_env W) (cs_order W) sessions of
        (Err e, sessions) \<Rightarrow> (Err e, [], Some sessions)
      | (Panic, sessions) \<Rightarrow> (Panic, [], Some sessions)
      | (Ok _, sessions) \<Rightarrow>
      (case newE2EClientRuntime (cs_F W) cfg of
        Err e \<Rightarrow> (Err e, [], Some sessions)
      | Panic \<Rightarrow> (Panic, [], Some sessions)
      | Ok e2eRuntime \<Rightarrow>
      (case listenForwards (cs_listen W) (cfg_Forwards cfg) [] of
        (Err e, closed) \<Rightarrow> (Err e, closed, Some sessions)
      | (Panic, closed) \<Rightarrow> (Panic, closed, Some sessions)
      | (Ok listeners, _) \<Rightarrow>
          (Ok \<lparr>cr_sessions = sessions, cr_routes = newRouteResolver cfg, cr_e2e = e2eRuntime, cr_listeners = listeners\<rparr>,
           [], Some sessions)))))))"

section \<open>Accepting\<close>

text \<open>
  One forward's loop: each local connection is handed to a handler with the candidates of the
  forward; a failing \<open>Accept\<close> ends the loop, and is reported unless the context has ended.
\<close>

datatype local_accept = LocalAccepted | LocalAcceptError bool go_error

fun acceptForward :: "routeResolver option \<Rightarrow> ForwardConfig \<Rightarrow> local_accept list \<Rightarrow> selectedRoute list list \<times> go_error option" where
  "acceptForward routes forward [] = ([], None)"
| "acceptForward routes forward (LocalAccepted # later) =
     (case acceptForward routes forward later of (handled, reported) \<Rightarrow>
        (resolveCandidates routes forward # handled, reported))"
| "acceptForward routes forward (LocalAcceptError ended e # later) = ([], if ended then None else Some e)"

text \<open>The end of \<open>Run\<close>: what it waits for, and what \<open>shutdown\<close> returns.\<close>

datatype run_event = ContextDone | ListenerError go_error bool

definition shutdown :: "bool \<Rightarrow> bool \<Rightarrow> 'l client_running \<Rightarrow> unit res \<times> 'l client_running" where
  "shutdown acceptsEnded handlersEnded run =
     (bindR (wrapErr (ErrorfW ''client accept shutdown: %w'' []) (waitGroupTimeout acceptsEnded)) (\<lambda>_.
        wrapErr (ErrorfW ''client connection shutdown: %w'' []) (waitGroupTimeout handlersEnded)),
      run\<lparr>cr_sessions := sessionsClose (cr_sessions run), cr_listeners := []\<rparr>)"

definition clientStop :: "bool \<Rightarrow> bool \<Rightarrow> run_event \<Rightarrow> 'l client_running \<Rightarrow> unit res \<times> 'l client_running" where
  "clientStop acceptsEnded handlersEnded ev run =
     (case ev of
        ContextDone \<Rightarrow> shutdown acceptsEnded handlersEnded run
      | ListenerError err ended \<Rightarrow>
          if ended then shutdown acceptsEnded handlersEnded run
          else (case shutdown acceptsEnded handlersEnded run of
              (Ok _, run) \<Rightarrow> (Err err, run)
            | (Err shutdownErr, run) \<Rightarrow> (Err (ErrorfWV ''%w; %v'' err shutdownErr), run)
            | (Panic, run) \<Rightarrow> (Panic, run)))"

end
