(* ===== verification/Client_Session_Properties.thy ===== *)
theory Client_Session_Properties
  imports Client_Properties
begin

text \<open>
  The client's sessions with its servers: the backoff contract on their state, the states the
  operations can reach in any order (the mutex makes each one atomic), what closing does, and
  the interface \<open>upstreamSession\<close> that \<open>handleLocalConnection\<close> calls, as a locale interpreted on
  \<open>upstreamSessions\<close>.
\<close>

section \<open>Backoff\<close>

definition dialBlocked :: "reconnectingUpstreamSession \<Rightarrow> time \<Rightarrow> bool" where
  "dialBlocked s now \<longleftrightarrow> \<not> isZeroTime (us_nextDial s) \<and> now < us_nextDial s"

interpretation client_backoff: reconnect_backoff dialBlocked recordDialFailure resetDialBackoff us_backoffFailCount
proof
  fix now t :: time and e s
  show "dialBlocked (recordDialFailure now e s) t \<longleftrightarrow> t < now + backoffDelay (us_backoffFailCount s)" if "0 < now"
    using that backoffDelay_pos [of "us_backoffFailCount s"]
    by (simp add: dialBlocked_def recordDialFailure_def isZeroTime_def Let_def)
qed (simp_all add: dialBlocked_def recordDialFailure_def resetDialBackoff_def isZeroTime_def Let_def)

text \<open>Where the connection a call returns comes from.\<close>

lemma upstreamConnection_cases:
  obtains (closed) "us_closed s" "upstreamConnection C F E s = (Err (Errorf ''client session closed'' []), s)"
  | (live) c where "\<not> us_closed s" "us_conn s = Some c" "c \<notin> us_dead s" "upstreamConnection C F E s = (Ok c, s)"
  | (dial) s1 where "\<not> us_closed s" "\<And>c. us_conn s = Some c \<Longrightarrow> c \<in> us_dead s" "s1 = s\<lparr>us_conn := None\<rparr>"
      "upstreamConnection C F E s =
        (if dialBlocked s (cv_now E)
         then (Err (ErrReconnectBackoff (sc_ID (us_server s)) (sc_Address (us_server s)) (us_nextDial s) (us_lastDialErr s)), s1)
         else case ConnectToServer C F (cv_dial E) (us_identity s) (us_server s) of
             Err e \<Rightarrow> (Err e, recordDialFailure (cv_now E) e s1)
           | Panic \<Rightarrow> (Panic, s1)
           | Ok conn \<Rightarrow> (Ok conn, resetDialBackoff (s\<lparr>us_conn := Some conn\<rparr>)))"
proof (cases "us_closed s")
  case True
  then show thesis using closed by (simp add: upstreamConnection_def)
next
  case open': False
  show thesis
  proof (cases "us_conn s")
    case None
    then have "s\<lparr>us_conn := None\<rparr> = s" by simp
    then show thesis
      using open' None by (intro dial [of s]) (simp_all add: upstreamConnection_def dialBlocked_def Let_def split: res.splits)
  next
    case (Some c)
    show thesis
    proof (cases "c \<in> us_dead s")
      case True
      then have "(closeConnection c s)\<lparr>us_conn := None\<rparr> = s\<lparr>us_conn := None\<rparr>"
        by (simp add: closeConnection_def insert_absorb)
      then show thesis
        using open' Some True
        by (intro dial [of "s\<lparr>us_conn := None\<rparr>"])
          (simp_all add: upstreamConnection_def dialBlocked_def Let_def split: res.splits)
    qed (use live open' Some in \<open>simp add: upstreamConnection_def\<close>)
  qed
qed


definition toy_session :: reconnectingUpstreamSession where
  "toy_session = newReconnectingUpstreamSession ''c'' \<lparr>ic_Cert = ''x'', ic_Key = ''y'', ic_CA = ''z''\<rparr>
     \<lparr>sc_ID = ''a'', sc_Address = ''h:1''\<rparr> {}"

lemma toy_session_simps [simp]:
  "us_closed toy_session = False" "us_conn toy_session = None" "us_dead toy_session = {}"
  "us_server toy_session = \<lparr>sc_ID = ''a'', sc_Address = ''h:1''\<rparr>" "us_nextDial toy_session = 0"
  "us_identity toy_session = \<lparr>ic_Cert = ''x'', ic_Key = ''y'', ic_CA = ''z''\<rparr>"
  by (simp_all add: toy_session_def newReconnectingUpstreamSession_def)

definition toy_client_env :: "time \<Rightarrow> conn \<Rightarrow> qstream \<Rightarrow> client_env" where
  "toy_client_env now c st = \<lparr>cv_now = now, cv_dial = (\<lambda>a t. Ok c), cv_open = (\<lambda>c. Ok st)\<rparr>"


section \<open>Reachable states\<close>

text \<open>
  The states of one session under any sequence of calls, with the connections it has handed
  out. A dial gives a connection that was not there before; a connection may end at any time.
\<close>

lemma upstreamConnection_closed:
  "us_closed s \<Longrightarrow> upstreamConnection C F E s = (Err (Errorf ''client session closed'' []), s)"
  by (simp add: upstreamConnection_def)

inductive upstream_reach ::
    "crypto_lib \<Rightarrow> file_lib \<Rightarrow> reconnectingUpstreamSession \<Rightarrow> reconnectingUpstreamSession \<Rightarrow> conn set \<Rightarrow> bool"
    for C F s0 where
  init: "upstream_reach C F s0 s0 {}"
| connected: "upstream_reach C F s0 s H \<Longrightarrow> \<forall>a t c. cv_dial E a t = Ok c \<longrightarrow> c \<notin> H \<and> c \<notin> us_dead s \<Longrightarrow>
    upstreamConnection C F E s = (Ok c, s') \<Longrightarrow> upstream_reach C F s0 s' (insert c H)"
| refused: "upstream_reach C F s0 s H \<Longrightarrow> \<forall>c. fst (upstreamConnection C F E s) \<noteq> Ok c \<Longrightarrow>
    upstream_reach C F s0 (snd (upstreamConnection C F E s)) H"
| dropped: "upstream_reach C F s0 s H \<Longrightarrow> upstream_reach C F s0 (dropConnection c s) H"
| closed: "upstream_reach C F s0 s H \<Longrightarrow> upstream_reach C F s0 (upstreamClose s) H"
| ends: "upstream_reach C F s0 s H \<Longrightarrow> upstream_reach C F s0 (closeConnection c s) H"

definition upstream_inv :: "reconnectingUpstreamSession \<Rightarrow> conn set \<Rightarrow> bool" where
  "upstream_inv s H \<longleftrightarrow> (\<forall>c\<in>H. c \<notin> us_dead s \<longrightarrow> us_conn s = Some c) \<and> (us_closed s \<longrightarrow> us_conn s = None)"

lemma upstream_inv_connected:
  assumes "upstream_inv s H" "upstreamConnection C F E s = (Ok c, s')"
  shows "upstream_inv s' (insert c H)"
proof (cases rule: upstreamConnection_cases [of s C F E])
  case (dial s1)
  have "\<forall>c\<in>H. c \<in> us_dead s" using assms(1) dial(2) unfolding upstream_inv_def by blast
  then show ?thesis
    using assms(2) dial(1,4) by (auto simp: upstream_inv_def resetDialBackoff_def split: if_splits res.splits)
qed (use assms in \<open>auto simp: upstream_inv_def\<close>)

lemma upstream_inv_refused:
  assumes "upstream_inv s H" "\<forall>c. fst (upstreamConnection C F E s) \<noteq> Ok c"
  shows "upstream_inv (snd (upstreamConnection C F E s)) H"
proof (cases rule: upstreamConnection_cases [of s C F E])
  case (dial s1)
  have "\<forall>c\<in>H. c \<in> us_dead s" using assms(1) dial(2) unfolding upstream_inv_def by blast
  then have "upstream_inv s1 H" "upstream_inv (recordDialFailure now e s1) H" for now e
    using dial(1) by (simp_all add: dial(3) upstream_inv_def recordDialFailure_def Let_def)
  then show ?thesis
    using assms(2)
    by (cases "dialBlocked s (cv_now E)"; cases "ConnectToServer C F (cv_dial E) (us_identity s) (us_server s)")
      (simp_all add: dial(4))
qed (use assms in simp_all)

lemma upstream_inv_other:
  assumes "upstream_inv s H"
  shows "upstream_inv (dropConnection c s) H" "upstream_inv (upstreamClose s) H" "upstream_inv (closeConnection c s) H"
  using assms
  by (auto simp: upstream_inv_def dropConnection_def upstreamClose_def closeConnection_def Let_def split: option.splits)

lemma upstream_reach_inv: "upstream_reach C F s0 s H \<Longrightarrow> us_conn s0 = None \<Longrightarrow> upstream_inv s H"
  by (induction rule: upstream_reach.induct)
    (auto simp: upstream_inv_other intro: upstream_inv_connected upstream_inv_refused, simp add: upstream_inv_def)

lemma upstream_reach_closed: "upstream_reach C F s0 s H \<Longrightarrow> us_closed s0 \<Longrightarrow> us_closed s"
proof (induction rule: upstream_reach.induct)
  case (connected s H E c s')
  then show ?case by (simp add: upstreamConnection_closed)
next
  case (refused s H E)
  then show ?case by (simp add: upstreamConnection_closed)
qed (simp_all add: dropConnection_def upstreamClose_def closeConnection_def Let_def split: option.splits)

lemma upstream_reach_closed_none: "upstream_reach C F s0 s H \<Longrightarrow> us_closed s0 \<Longrightarrow> H = {}"
proof (induction rule: upstream_reach.induct)
  case (connected s H E c s')
  then show ?case using upstream_reach_closed [of C F s0 s H] upstreamConnection_closed [of s C F E] by simp
qed simp_all

text \<open>
  A client keeps one connection per server. In every sequence of dials, drops, losses and
  closes, all connections the session has handed out that are still alive are one and the
  same, the one the next stream is opened on.
\<close>

theorem one_live_upstream:
  assumes "upstream_reach C F (newReconnectingUpstreamSession node identity server dead) s H"
    and "c \<in> H" "c \<notin> us_dead s" "c' \<in> H" "c' \<notin> us_dead s"
  shows "c = c' \<and> us_conn s = Some c \<and> upstreamConnection C F E s = (Ok c, s)"
proof -
  have "upstream_inv s H"
    using upstream_reach_inv [OF assms(1)] by (simp add: newReconnectingUpstreamSession_def)
  then have c: "us_conn s = Some c" "us_conn s = Some c'" and closed: "us_closed s \<longrightarrow> us_conn s = None"
    using assms(2-5) unfolding upstream_inv_def by blast+
  then show ?thesis using assms(3) by (simp add: upstreamConnection_def)
qed

lemma toy_connect:
  assumes "cv_now E = 5" "cv_dial E = (\<lambda>a t. Ok 7)"
  shows "upstreamConnection toy_crypto toy_files E toy_session =
      (Ok 7, resetDialBackoff (toy_session\<lparr>us_conn := Some 7\<rparr>))"
proof -
  obtain t where "ClientTLSConfig toy_crypto toy_files (us_identity toy_session) ''a'' = Ok t"
    by (simp add: ClientTLSConfig_def loadCertificateAndCA_def toy_files_def)
  then show ?thesis
    by (simp add: upstreamConnection_def ConnectToServer_def assms isZeroTime_def)
qed

theorem one_live_upstream_witness:
  "let s = resetDialBackoff (toy_session\<lparr>us_conn := Some 7\<rparr>) in
   upstream_reach toy_crypto toy_files toy_session s {7} \<and> 7 \<notin> us_dead s \<and>
   us_conn s = Some 7 \<and> upstreamConnection toy_crypto toy_files E s = (Ok 7, s)"
proof -
  let ?s = "resetDialBackoff (toy_session\<lparr>us_conn := Some 7\<rparr>)"
  let ?E = "toy_client_env 5 7 (stream_on [] EOF [])"
  have "upstreamConnection toy_crypto toy_files ?E toy_session = (Ok 7, ?s)"
    by (rule toy_connect) (simp_all add: toy_client_env_def)
  from upstream_reach.connected [OF upstream_reach.init _ this]
  have r: "upstream_reach toy_crypto toy_files toy_session ?s {7}" by (simp add: toy_client_env_def)
  have d: "7 \<notin> us_dead ?s" by (simp add: resetDialBackoff_def)
  show ?thesis
    using one_live_upstream [OF r [unfolded toy_session_def] _ d [unfolded toy_session_def] _ d [unfolded toy_session_def]] r d
    by (simp add: Let_def toy_session_def)
qed

text \<open>
  A closed session stays closed. Once \<open>Close\<close> has run, every connection the session ever
  handed out has been closed, no operation that follows hands out another one or reopens the
  session, and opening a stream fails with "client session closed" without dialling.
\<close>

theorem closed_session_final:
  assumes "upstream_reach C F (newReconnectingUpstreamSession node identity server dead) s H"
    and "upstream_reach C F (upstreamClose s) s' H'"
  shows "H \<subseteq> us_dead (upstreamClose s) \<and> us_closed s' \<and> H' = {} \<and>
    sessionOpenTCPStream C F U E1 E2 ctxErr rid svc eg rt e2e s' = (Err (Errorf ''client session closed'' []), s')"
proof -
  have c: "us_closed (upstreamClose s)"
    by (simp add: upstreamClose_def closeConnection_def Let_def split: option.splits)
  then have s': "us_closed s'" "H' = {}"
    using upstream_reach_closed [OF assms(2)] upstream_reach_closed_none [OF assms(2)] by simp_all
  have "upstream_inv (upstreamClose s) H"
    using upstream_reach_inv [OF assms(1)] by (simp add: newReconnectingUpstreamSession_def upstream_inv_other)
  then have "H \<subseteq> us_dead (upstreamClose s)" using c unfolding upstream_inv_def by auto
  then show ?thesis using s' by (simp add: sessionOpenTCPStream_def upstreamConnection_closed)
qed

theorem closed_session_final_witness:
  "let s = resetDialBackoff (toy_session\<lparr>us_conn := Some 7\<rparr>) in
   upstream_reach toy_crypto toy_files toy_session s {7} \<and> 7 \<in> us_dead (upstreamClose s) \<and>
   sessionOpenTCPStream toy_crypto toy_files raw_uuid E E False [] [] [] [] False (upstreamClose s) =
     (Err (Errorf ''client session closed'' []), upstreamClose s)"
proof -
  let ?s = "resetDialBackoff (toy_session\<lparr>us_conn := Some 7\<rparr>)"
  have "upstreamConnection toy_crypto toy_files (toy_client_env 5 7 (stream_on [] EOF [])) toy_session = (Ok 7, ?s)"
    by (rule toy_connect) (simp_all add: toy_client_env_def)
  from upstream_reach.connected [OF upstream_reach.init _ this]
  have r: "upstream_reach toy_crypto toy_files toy_session ?s {7}" by (simp add: toy_client_env_def)
  from closed_session_final [OF r [unfolded toy_session_def] upstream_reach.init] r show ?thesis
    by (simp add: Let_def toy_session_def)
qed

section \<open>Streams\<close>

lemma OpenTCPStream_answered:
  assumes "opened = Ok st" "uuid_laws U" "reliable (qs_out st)"
    and "valid_request U (tcpRequest rid svc eg rt e2e)" "request_size (tcpRequest rid svc eg rt e2e) \<le> MaxPayloadSize"
    and "ReadConnectResponse (qs_in st) = (Ok resp, i)"
  shows "\<exists>d. length d = 4 + request_size (tcpRequest rid svc eg rt e2e) \<and>
    (\<forall>rest e. ReadConnectRequest U \<lparr>is_data = d @ rest, is_end = e\<rparr> =
       (Ok (canonRequest U (tcpRequest rid svc eg rt e2e)), \<lparr>is_data = rest, is_end = e\<rparr>)) \<and>
    (let st' = st\<lparr>qs_out := (qs_out st)\<lparr>os_data := os_data (qs_out st) @ d\<rparr>, qs_in := i\<rparr> in
     OpenTCPStream U opened rid svc eg rt e2e =
       (if rs_OK resp then (Ok st', None)
        else (Err (ErrRejected \<lparr>cr_Code = rs_Code resp, cr_Message = rs_Message resp\<rparr>), Some (closeStream st'))))"
proof -
  obtain d where d: "WriteConnectRequest U (qs_out st) (tcpRequest rid svc eg rt e2e) =
        (Ok (), (qs_out st)\<lparr>os_data := os_data (qs_out st) @ d\<rparr>)"
      "length d = 4 + request_size (tcpRequest rid svc eg rt e2e)"
      "\<forall>rest e. ReadConnectRequest U \<lparr>is_data = d @ rest, is_end = e\<rparr> =
        (Ok (canonRequest U (tcpRequest rid svc eg rt e2e)), \<lparr>is_data = rest, is_end = e\<rparr>)"
    using written_request [OF assms(2,3,4,5)] by blast
  show ?thesis
    using d assms(1,6) by (intro exI [of _ d]) (simp add: OpenTCPStream_def onOut_def onIn_def Let_def)
qed

text \<open>
  C23: the server's answer decides, and costs nothing. When a stream is opened on the live
  connection and the server answers, the server has received exactly the request; the caller
  gets the stream positioned after the answer, or the server's refusal with its code and
  message. In both cases the session is unchanged: a refusal neither drops the connection that
  other streams share nor starts a reconnect.
\<close>

theorem answer_keeps_session:
  assumes "\<not> us_closed s" "us_conn s = Some c" "c \<notin> us_dead s" "cv_open E1 c = Ok st"
    and "uuid_laws U" "reliable (qs_out st)"
    and "valid_request U (tcpRequest rid svc eg rt e2e)" "request_size (tcpRequest rid svc eg rt e2e) \<le> MaxPayloadSize"
    and "ReadConnectResponse (qs_in st) = (Ok resp, i)"
  shows "\<exists>d. (\<forall>rest e. ReadConnectRequest U \<lparr>is_data = d @ rest, is_end = e\<rparr> =
       (Ok (canonRequest U (tcpRequest rid svc eg rt e2e)), \<lparr>is_data = rest, is_end = e\<rparr>)) \<and>
    sessionOpenTCPStream C F U E1 E2 ctxErr rid svc eg rt e2e s =
      (if rs_OK resp then Ok (st\<lparr>qs_in := i, qs_out := (qs_out st)\<lparr>os_data := os_data (qs_out st) @ d\<rparr>\<rparr>)
       else Err (ErrRejected \<lparr>cr_Code = rs_Code resp, cr_Message = rs_Message resp\<rparr>), s)"
proof -
  obtain d where d: "\<forall>rest e. ReadConnectRequest U \<lparr>is_data = d @ rest, is_end = e\<rparr> =
       (Ok (canonRequest U (tcpRequest rid svc eg rt e2e)), \<lparr>is_data = rest, is_end = e\<rparr>)"
    "fst (OpenTCPStream U (cv_open E1 c) rid svc eg rt e2e) =
       (if rs_OK resp then Ok (st\<lparr>qs_in := i, qs_out := (qs_out st)\<lparr>os_data := os_data (qs_out st) @ d\<rparr>\<rparr>)
        else Err (ErrRejected \<lparr>cr_Code = rs_Code resp, cr_Message = rs_Message resp\<rparr>))"
    using OpenTCPStream_answered [OF assms(4-9)] by (auto simp: Let_def)
  have "upstreamConnection C F E1 s = (Ok c, s)" using assms(1-3) by (simp add: upstreamConnection_def)
  then show ?thesis
    using d by (intro exI [of _ d]) (simp add: sessionOpenTCPStream_def isConnectRejected_def errorsAs_def)
qed

definition answered_stream :: "ConnectResponse \<Rightarrow> qstream" where
  "answered_stream resp = stream_on (frameBytes TypeConnectResponse (responseBytes resp)) EOF []"

lemma answered_stream_read:
  assumes "ConnectCode_Valid (rs_Code resp)" "length (rs_Message resp) \<le> MaxPayloadSize - 4"
  shows "ReadConnectResponse (qs_in (answered_stream resp)) = (Ok (canonResponse resp), \<lparr>is_data = [], is_end = EOF\<rparr>)"
proof -
  have "connectResponsePayload resp = Ok (responseBytes resp)" "length (responseBytes resp) \<le> MaxPayloadSize"
    using assms(2) by (simp_all add: connectResponsePayload_eq responseBytes_def qoru_consts)
  from connectResponse.read_enc [OF TrueI assms(1) this, of "[]"] show ?thesis
    by (simp add: answered_stream_def stream_on_def)
qed

definition denied :: ConnectResponse where
  "denied = \<lparr>rs_OK = False, rs_Code = ConnectCodeAccessDenied, rs_Message = ''no''\<rparr>"

lemma upstream_request_valid:
  "valid_request raw_uuid (tcpRequest ''abcdefpaaaaaaaaa'' ''echo'' ''b'' [''a'', ''b''] True)"
  "request_size (tcpRequest ''abcdefpaaaaaaaaa'' ''echo'' ''b'' [''a'', ''b''] True) \<le> MaxPayloadSize"
proof -
  have "tcpRequest ''abcdefpaaaaaaaaa'' ''echo'' ''b'' [''a'', ''b''] True = sample_request"
    by (simp add: tcpRequest_def sample_request_def)
  then show "valid_request raw_uuid (tcpRequest ''abcdefpaaaaaaaaa'' ''echo'' ''b'' [''a'', ''b''] True)"
    "request_size (tcpRequest ''abcdefpaaaaaaaaa'' ''echo'' ''b'' [''a'', ''b''] True) \<le> MaxPayloadSize"
    using sample_request_valid sample_request_size by (simp_all add: qoru_consts)
qed

theorem answer_keeps_session_witness:
  "let s = toy_session\<lparr>us_conn := Some 7\<rparr>; E = toy_client_env 5 7 (answered_stream denied) in
   sessionOpenTCPStream toy_crypto toy_files raw_uuid E E False ''abcdefpaaaaaaaaa'' ''echo'' ''b'' [''a'', ''b''] True s =
     (Err (ErrRejected \<lparr>cr_Code = ConnectCodeAccessDenied, cr_Message = ''no''\<rparr>), s)"
proof -
  have r: "ReadConnectResponse (qs_in (answered_stream denied)) = (Ok (canonResponse denied), \<lparr>is_data = [], is_end = EOF\<rparr>)"
    by (rule answered_stream_read) (simp_all add: denied_def ConnectCode_Valid_def qoru_consts)
  have c: "canonResponse denied = denied" by (simp add: canonResponse_def denied_def qoru_consts)
  have w: "reliable (qs_out (answered_stream denied))" by (simp add: answered_stream_def stream_on_def)
  let ?E = "toy_client_env 5 7 (answered_stream denied)"
  have e: "cv_open ?E 7 = Ok (answered_stream denied)" by (simp add: toy_client_env_def)
  show ?thesis
    using answer_keeps_session [OF _ _ _ e raw_uuid_laws w upstream_request_valid r [unfolded c],
        of "toy_session\<lparr>us_conn := Some 7\<rparr>" toy_crypto toy_files ?E False]
    by (auto simp: Let_def denied_def)
qed

text \<open>
  C24: a broken connection is replaced once. When opening a stream on the live connection fails,
  other than by a refusal or because the client is shutting down, the connection is closed and
  the server is dialled again, unless the backoff is active. If that succeeds, the request is
  sent once more on the new connection, which is now the session's, with the backoff reset, and
  the outcome of this second attempt is final; if not, the session has no connection, a failed
  dial lengthens the backoff, and the caller gets an error that still carries the first one.
\<close>

theorem broken_connection_replaced:
  assumes "\<not> us_closed s" "us_conn s = Some c" "c \<notin> us_dead s"
    and "fst (OpenTCPStream U (cv_open E1 c) rid svc eg rt e2e) = Err err" "\<not> isConnectRejected err"
    and "sessionOpenTCPStream C F U E1 E2 False rid svc eg rt e2e s = (r, s')"
  shows "c \<in> us_dead s' \<and>
    (if dialBlocked s (cv_now E2) then us_conn s' = None \<and> (\<exists>e. r = Err e \<and> err \<in> set (errChain e))
     else case ConnectToServer C F (cv_dial E2) (us_identity s) (us_server s) of
       Ok c' \<Rightarrow> r = fst (OpenTCPStream U (cv_open E2 c') rid svc eg rt e2e) \<and> us_conn s' = Some c' \<and>
         us_backoffFailCount s' = 0
     | Err e' \<Rightarrow> us_conn s' = None \<and> us_backoffFailCount s' = Suc (us_backoffFailCount s) \<and>
         (\<exists>e. r = Err e \<and> err \<in> set (errChain e))
     | Panic \<Rightarrow> r = Panic)"
proof -
  let ?d = "(closeConnection c s)\<lparr>us_conn := None\<rparr>"
  have own: "err \<in> set (errChain err)" by (cases err rule: errChain.cases) auto
  have 1: "upstreamConnection C F E1 s = (Ok c, s)" using assms(1-3) by (simp add: upstreamConnection_def)
  have 2: "sessionOpenTCPStream C F U E1 E2 False rid svc eg rt e2e s =
      (case upstreamConnection C F E2 ?d of
         (Err connErr, s) \<Rightarrow> (Err (ErrorfWV ''%w; reconnect failed: %v'' err connErr), s)
       | (Panic, s) \<Rightarrow> (Panic, s)
       | (Ok conn, s) \<Rightarrow> (fst (OpenTCPStream U (cv_open E2 conn) rid svc eg rt e2e), s))"
    by (simp add: sessionOpenTCPStream_def 1 assms(2,4,5) dropConnection_def)
  show ?thesis
    using assms(6) assms(1) own unfolding 2
    by (cases "ConnectToServer C F (cv_dial E2) (us_identity s) (us_server s)"; cases "dialBlocked s (cv_now E2)")
      (auto simp: upstreamConnection_def closeConnection_def dialBlocked_def recordDialFailure_def resetDialBackoff_def Let_def)
qed

theorem broken_connection_replaced_witness:
  "let s = toy_session\<lparr>us_conn := Some 7\<rparr>; E1 = toy_client_env 5 7 (stream_on [] EOF []);
       E2 = toy_client_env 6 8 (answered_stream denied) in
   \<exists>r s'. sessionOpenTCPStream toy_crypto toy_files raw_uuid E1 E2 False ''abcdefpaaaaaaaaa'' ''echo'' ''b'' [''a'', ''b''] True s =
     (r, s') \<and> 7 \<in> us_dead s' \<and> us_conn s' = Some 8 \<and>
     r = fst (OpenTCPStream raw_uuid (Ok (answered_stream denied)) ''abcdefpaaaaaaaaa'' ''echo'' ''b'' [''a'', ''b''] True)"
proof -
  let ?s = "toy_session\<lparr>us_conn := Some 7\<rparr>" and ?E1 = "toy_client_env 5 7 (stream_on [] EOF [])"
    and ?E2 = "toy_client_env 6 8 (answered_stream denied)"
  obtain i where "ReadConnectResponse (qs_in (stream_on [] EOF [])) = (Err EOF, i)"
    by (simp add: ReadConnectResponse_def ReadFrame_def ReadFull_def stream_on_def qoru_consts)
  moreover obtain w where "WriteConnectRequest raw_uuid (qs_out (stream_on [] EOF []))
      (tcpRequest ''abcdefpaaaaaaaaa'' ''echo'' ''b'' [''a'', ''b''] True) = (Ok (), w)"
    using written_request [OF raw_uuid_laws _ upstream_request_valid, of "qs_out (stream_on [] EOF [])"]
    by (auto simp: stream_on_def)
  ultimately have f: "fst (OpenTCPStream raw_uuid (cv_open ?E1 7) ''abcdefpaaaaaaaaa'' ''echo'' ''b'' [''a'', ''b''] True) = Err EOF"
    by (simp add: OpenTCPStream_def toy_client_env_def onOut_def onIn_def Let_def split: prod.splits)
  have nr: "\<not> isConnectRejected EOF" by (simp add: isConnectRejected_def errorsAs_def)
  obtain r s' where run: "sessionOpenTCPStream toy_crypto toy_files raw_uuid ?E1 ?E2 False
      ''abcdefpaaaaaaaaa'' ''echo'' ''b'' [''a'', ''b''] True ?s = (r, s')" by fastforce
  have d: "ConnectToServer toy_crypto toy_files (cv_dial ?E2) (us_identity ?s) (us_server ?s) = Ok 8" "\<not> dialBlocked ?s (cv_now ?E2)"
    by (simp_all add: ConnectToServer_def ClientTLSConfig_def loadCertificateAndCA_def toy_files_def toy_client_env_def
        dialBlocked_def isZeroTime_def)
  have "cv_open ?E2 8 = Ok (answered_stream denied)" by (simp add: toy_client_env_def)
  then show ?thesis
    using broken_connection_replaced [OF _ _ _ f nr run] d run
    by (auto simp: Let_def)
qed

section \<open>The interface \<open>upstreamSession\<close>\<close>

text \<open>
  What \<open>handleLocalConnection\<close> relies on when it calls \<open>OpenTCPStream\<close>: while the invariant
  holds, the call returns, with a stream or an error, and keeps the invariant.
\<close>

locale upstream_session =
  fixes opener :: "'s stream_opener"
    and inv :: "'s \<Rightarrow> bool"
  assumes open_total: "inv s \<Longrightarrow> fst (opener i rid svc eg rt e2e s) \<noteq> Panic"
    and open_inv: "inv s \<Longrightarrow> inv (snd (opener i rid svc eg rt e2e s))"
begin

lemma tryCandidate_settles:
  assumes "crypto_total C" "uuid_laws U" "drawn \<noteq> Panic" "inv s" "tryCandidate C U rto drawn opener rid i c s = (a, s')"
  shows "inv s' \<and> a \<noteq> SetupPanic \<and> a \<noteq> Connected LocalPanic \<and>
    (\<forall>e st. a = SetupFailed e (Some st) \<longrightarrow> qs_closed st)"
proof -
  obtain o' s1 where o: "opener i rid (sel_service c) (sel_egress c) (sel_route c) (effectiveE2ERequired c) s = (o', s1)"
    by fastforce
  have "o' \<noteq> Panic" "inv s1"
    using open_total [OF assms(4), of i rid "sel_service c" "sel_egress c" "sel_route c" "effectiveE2ERequired c"]
      open_inv [OF assms(4), of i rid "sel_service c" "sel_egress c" "sel_route c" "effectiveE2ERequired c"] o by simp_all
  then show ?thesis
    using assms(5) o clientRunHandshake_total [OF assms(1-3), of rto rid c]
    by (cases o') (auto simp: tryCandidate_def Let_def closeStream_def split: if_splits prod.splits res.splits,
        (metis fst_conv)+)
qed

lemma tryCandidates_settles:
  assumes "crypto_total C" "uuid_laws U" "\<And>i. drawn i \<noteq> Panic"
  shows "inv s \<Longrightarrow> tryCandidates C U rto drawn opener ctxErr rid i cs s = (fin, fails, s') \<Longrightarrow>
    inv s' \<and> fin \<noteq> LocalPanic \<and> (\<forall>c e st. (c, e, Some st) \<in> set fails \<longrightarrow> qs_closed st)"
proof (induction cs arbitrary: i s fails)
  case (Cons c cs)
  obtain a s1 where a: "tryCandidate C U rto (drawn i) opener rid i c s = (a, s1)" by fastforce
  note one = tryCandidate_settles [OF assms(1-3) Cons.prems(1) a]
  show ?case
  proof (cases a)
    case (SetupFailed err st)
    show ?thesis
    proof (cases "\<not> ctxErr i \<and> cs \<noteq> [] \<and> isRetryableSetupError err")
      case True
      then obtain fs where fs: "tryCandidates C U rto drawn opener ctxErr rid (i + 1) cs s1 = (fin, fs, s')"
          "fails = (c, err, st) # fs"
        using Cons.prems a SetupFailed by (auto simp: Let_def split: prod.splits)
      from Cons.IH [OF _ fs(1)] one show ?thesis by (auto simp: fs(2) SetupFailed)
    next
      case False
      then have "fin = LocalClosed" "fails = [(c, err, st)]" "s' = s1"
        using Cons.prems a SetupFailed by (auto simp: Let_def split: if_splits)
      then show ?thesis using one SetupFailed by auto
    qed
  qed (use Cons.prems a one in auto)
qed simp

end

text \<open>The sessions of the client provide it. A default session, if there is one, exists.\<close>

definition sessions_ok :: "upstreamSessions \<Rightarrow> bool" where
  "sessions_ok ss \<longleftrightarrow> ss_defaultID ss \<in> insert [] (dom (ss_sessions ss))"

text \<open>The environments of the attempts: dialling and opening do not panic.\<close>

definition client_env_total :: "client_env \<Rightarrow> bool" where
  "client_env_total E \<longleftrightarrow> (\<forall>a t. cv_dial E a t \<noteq> Panic) \<and> (\<forall>c. cv_open E c \<noteq> Panic)"

lemma ConnectToServer_total:
  "file_total F \<Longrightarrow> \<forall>a t. dial a t \<noteq> Panic \<Longrightarrow> ConnectToServer C F dial i server \<noteq> Panic"
  by (simp add: ConnectToServer_def ClientTLSConfig_total bindR_eq_Panic)

lemma upstreamConnection_total:
  assumes "file_total F" "client_env_total E"
  shows "fst (upstreamConnection C F E s) \<noteq> Panic"
proof (cases rule: upstreamConnection_cases [of s C F E])
  case (dial s1)
  have "ConnectToServer C F (cv_dial E) (us_identity s) (us_server s) \<noteq> Panic"
    using ConnectToServer_total [OF assms(1)] assms(2) by (simp add: client_env_total_def)
  then show ?thesis
    by (cases "ConnectToServer C F (cv_dial E) (us_identity s) (us_server s)") (simp_all add: dial(4))
qed simp_all

lemma OpenTCPStream_total:
  assumes "uuid_laws U" "opened \<noteq> Panic"
  shows "fst (OpenTCPStream U opened rid svc eg rt e2e) \<noteq> Panic"
proof (cases opened)
  case (Ok st)
  obtain r w where w: "onOut (\<lambda>w. WriteConnectRequest U w (tcpRequest rid svc eg rt e2e)) st = (r, w)" by fastforce
  obtain r' i where i: "onIn ReadConnectResponse w = (r', i)" by fastforce
  have "r \<noteq> Panic" using connectRequest.write_total [OF assms(1)] w by (metis fst_onOut fst_conv)
  moreover have "r' \<noteq> Panic" using connectResponse.read_total [OF TrueI] i by (metis fst_onIn fst_conv)
  ultimately show ?thesis
    using Ok w i by (cases r; cases r') (simp_all add: OpenTCPStream_def Let_def)
qed (use assms(2) in \<open>simp_all add: OpenTCPStream_def\<close>)

lemma sessionOpenTCPStream_total:
  assumes "file_total F" "uuid_laws U" "client_env_total E1" "client_env_total E2"
  shows "fst (sessionOpenTCPStream C F U E1 E2 ctxErr rid svc eg rt e2e s) \<noteq> Panic"
proof -
  have o: "fst (OpenTCPStream U (cv_open E c) rid svc eg rt e2e) \<noteq> Panic" if "client_env_total E" for E c
    using that assms(2) by (intro OpenTCPStream_total) (simp_all add: client_env_total_def)
  obtain r s1 where 1: "upstreamConnection C F E1 s = (r, s1)" by fastforce
  show ?thesis
  proof (cases r)
    case (Ok c)
    obtain r2 s2 where 2: "upstreamConnection C F E2 (dropConnection c s1) = (r2, s2)" by fastforce
    have "r2 \<noteq> Panic" using upstreamConnection_total [OF assms(1,4)] 2 by (metis fst_conv)
    then show ?thesis
      using o [OF assms(3), of c] o [OF assms(4)] 1 2 Ok
      by (cases "fst (OpenTCPStream U (cv_open E1 c) rid svc eg rt e2e)"; cases r2) (simp_all add: sessionOpenTCPStream_def)
  next
    case Panic
    then show ?thesis using upstreamConnection_total [OF assms(1,3)] 1 by (metis fst_conv)
  qed (simp add: sessionOpenTCPStream_def 1)
qed

text \<open>The opener \<open>handleLocalConnection\<close> is given: the sessions, and what each attempt meets.\<close>

definition sessionsOpener ::
    "crypto_lib \<Rightarrow> file_lib \<Rightarrow> uuid_lib \<Rightarrow> (nat \<Rightarrow> client_env) \<Rightarrow> (nat \<Rightarrow> client_env) \<Rightarrow> (nat \<Rightarrow> bool) \<Rightarrow>
     upstreamSessions stream_opener" where
  "sessionsOpener C F U E1 E2 ctxErr i rid svc eg rt e2e ss =
     sessionsOpenTCPStream C F U (E1 i) (E2 i) (ctxErr i) rid svc eg rt e2e ss"

text \<open>A client whose libraries, dials and streams return.\<close>

record client_world =
  cw_C :: crypto_lib
  cw_F :: file_lib
  cw_U :: uuid_lib
  cw_E1 :: "nat \<Rightarrow> client_env"
  cw_E2 :: "nat \<Rightarrow> client_env"

definition world_total :: "client_world \<Rightarrow> bool" where
  "world_total W \<longleftrightarrow> crypto_total (cw_C W) \<and> file_total (cw_F W) \<and> uuid_laws (cw_U W) \<and>
     (\<forall>i. client_env_total (cw_E1 W i)) \<and> (\<forall>i. client_env_total (cw_E2 W i))"

lemma sessionsOpenTCPStream_total:
  assumes "file_total F" "uuid_laws U" "client_env_total E1" "client_env_total E2" "sessions_ok ss"
  shows "fst (sessionsOpenTCPStream C F U E1 E2 ctxErr rid svc eg rt e2e ss) \<noteq> Panic \<and>
    sessions_ok (snd (sessionsOpenTCPStream C F U E1 E2 ctxErr rid svc eg rt e2e ss))"
  using assms(5) sessionOpenTCPStream_total [OF assms(1-4)]
  by (auto simp: sessionsOpenTCPStream_def selectSession_def sessions_ok_def Let_def case_prod_unfold
      split: option.splits)

interpretation client_upstream: upstream_session
  "sessionsOpener (cw_C W) (cw_F W) (cw_U W) (cw_E1 W) (cw_E2 W) ctxErr" "\<lambda>ss. sessions_ok ss \<and> world_total W" for W ctxErr
  by unfold_locales
    (simp_all add: sessionsOpener_def world_total_def sessionsOpenTCPStream_total)

lemma newUpstreamSessions_sessions_ok:
  assumes "newUpstreamSessions cfg dead = Ok ss"
  shows "sessions_ok ss"
proof -
  have "cfg_Servers cfg \<noteq> []"
    using assms by (auto simp: newUpstreamSessions_def configuredServers_def)
  then obtain ss' where "newUpstreamSessions cfg dead = Ok ss'" "sessions_for cfg ss'"
    using newUpstreamSessions_Ok by blast
  then show ?thesis using assms by (simp add: sessions_for_def sessions_ok_def)
qed

text \<open>
  Every local connection is settled. Whatever the servers and the network do, and whatever
  routes are tried, handling a local connection does not panic (in particular the session
  looked up is never nil), leaves the sessions usable for the next connection, and every
  stream of a candidate that failed after it was opened has been closed. The sessions a client
  starts with satisfy the invariant this needs.
\<close>

theorem local_connection_settled:
  assumes "world_total W" "sessions_ok ss" "newV7 \<noteq> Panic" "\<And>i. drawn i \<noteq> Panic"
    and "handleLocalConnection (cw_C W) (cw_U W) rto newV7 drawn
      (sessionsOpener (cw_C W) (cw_F W) (cw_U W) (cw_E1 W) (cw_E2 W) ctxErr) ctxErr cs ss = (fin, fails, ss')"
  shows "fin \<noteq> LocalPanic \<and> sessions_ok ss' \<and> (\<forall>c e st. (c, e, Some st) \<in> set fails \<longrightarrow> qs_closed st) \<and>
    (\<forall>cfg dead ss0. newUpstreamSessions cfg dead = Ok ss0 \<longrightarrow> sessions_ok ss0)"
proof -
  have total: "crypto_total (cw_C W)" "uuid_laws (cw_U W)" using assms(1) by (simp_all add: world_total_def)
  have "fin \<noteq> LocalPanic \<and> sessions_ok ss' \<and> (\<forall>c e st. (c, e, Some st) \<in> set fails \<longrightarrow> qs_closed st)"
  proof (cases "cs = []")
    case True
    then show ?thesis using assms(2,5) by (simp add: handleLocalConnection_def)
  next
    case False
    show ?thesis
    proof (cases newV7)
      case (Ok v7)
      then show ?thesis
        using client_upstream.tryCandidates_settles [OF total assms(4), where s = ss and W = W] False assms(1,2,5)
        by (simp add: handleLocalConnection_def requestid_New_def)
    qed (use assms(2,3,5) False in \<open>auto simp: handleLocalConnection_def requestid_New_def\<close>)
  qed
  then show ?thesis using newUpstreamSessions_sessions_ok by blast
qed

definition toy_world :: client_world where
  "toy_world = \<lparr>cw_C = toy_crypto, cw_F = toy_files, cw_U = raw_uuid,
     cw_E1 = (\<lambda>i. toy_client_env 5 7 (answered_stream denied)), cw_E2 = (\<lambda>i. toy_client_env 6 8 (answered_stream denied))\<rparr>"

lemma toy_world_total: "world_total toy_world"
  by (simp add: world_total_def toy_world_def toy_crypto_total toy_file_total raw_uuid_laws client_env_total_def
      toy_client_env_def)

theorem local_connection_settled_witness:
  "\<exists>ss. newUpstreamSessions toy_client_config {} = Ok ss \<and>
    (case handleLocalConnection toy_crypto raw_uuid None (Ok [1]) (\<lambda>i. Ok [1])
       (sessionsOpener toy_crypto toy_files raw_uuid (cw_E1 toy_world) (cw_E2 toy_world) (\<lambda>i. False)) (\<lambda>i. False)
       (resolveCandidates None always_forward) ss of (fin, fails, ss') \<Rightarrow> fin \<noteq> LocalPanic \<and> sessions_ok ss')"
proof -
  obtain ss where n: "newUpstreamSessions toy_client_config {} = Ok ss"
    using newUpstreamSessions_Ok [of toy_client_config "{}"] by (auto simp: toy_client_config_def)
  obtain fin fails ss' where r: "handleLocalConnection (cw_C toy_world) (cw_U toy_world) None (Ok [1]) (\<lambda>i. Ok [1])
     (sessionsOpener (cw_C toy_world) (cw_F toy_world) (cw_U toy_world) (cw_E1 toy_world) (cw_E2 toy_world) (\<lambda>i. False))
     (\<lambda>i. False) (resolveCandidates None always_forward) ss = (fin, fails, ss')" by (cases rule: prod_cases3)
  have "fin \<noteq> LocalPanic \<and> sessions_ok ss'"
    using local_connection_settled [OF toy_world_total newUpstreamSessions_sessions_ok [OF n] _ _ r] by simp
  then show ?thesis using n r by (simp add: toy_world_def)
qed

end
