(* ===== verification/Client_Main_Properties.thy ===== *)
theory Client_Main_Properties
  imports Client_Main Client_Session_Properties
begin

text \<open>
  What the client guarantees from start to stop: a client that starts can serve each of its
  forwards, and a client that has stopped opens no more streams.
\<close>

section \<open>Start-up\<close>

lemma listenForwards_Ok:
  "listenForwards listen fs ls = (Ok ls', closed) \<Longrightarrow>
   \<exists>new. ls' = ls @ new \<and> map fst new = fs \<and> (\<forall>(f, l)\<in>set new. listen (fc_Listen f) = Ok l) \<and> closed = []"
proof (induction fs arbitrary: ls)
  case (Cons f fs)
  then obtain l where l: "listen (fc_Listen f) = Ok l" "listenForwards listen fs (ls @ [(f, l)]) = (Ok ls', closed)"
    by (auto split: res.splits)
  from Cons.IH [OF l(2)] obtain new where "ls' = (ls @ [(f, l)]) @ new" "map fst new = fs"
      "\<forall>(f, l)\<in>set new. listen (fc_Listen f) = Ok l" "closed = []" by blast
  then show ?case using l(1) by (intro exI [of _ "(f, l) # new"]) auto
qed simp

text \<open>Connecting changes neither which sessions there are nor the servers they stand for.\<close>

definition same_servers :: "upstreamSessions \<Rightarrow> upstreamSessions \<Rightarrow> bool" where
  "same_servers ss ss' \<longleftrightarrow> ss_defaultID ss = ss_defaultID ss' \<and>
     (\<forall>sid. map_option us_server (ss_sessions ss sid) = map_option us_server (ss_sessions ss' sid))"

lemma upstreamConnection_server: "us_server (snd (upstreamConnection C F E s)) = us_server s"
proof (cases rule: upstreamConnection_cases [of s C F E])
  case (dial s1)
  then show ?thesis
    by (cases "dialBlocked s (cv_now E)"; cases "ConnectToServer C F (cv_dial E) (us_identity s) (us_server s)")
      (simp_all add: recordDialFailure_def resetDialBackoff_def Let_def)
qed simp_all

lemma upstreamConnection_live:
  assumes "upstreamConnection C F E s = (Ok c, s')" "\<forall>a t c. cv_dial E a t = Ok c \<longrightarrow> c \<notin> us_dead s"
  shows "us_conn s' = Some c \<and> c \<notin> us_dead s'"
proof (cases rule: upstreamConnection_cases [of s C F E])
  case (dial s1)
  show ?thesis
  proof (cases "dialBlocked s (cv_now E)")
    case False
    then obtain "ConnectToServer C F (cv_dial E) (us_identity s) (us_server s) = Ok c"
        "s' = resetDialBackoff (s\<lparr>us_conn := Some c\<rparr>)"
      using assms(1) dial(4) by (cases "ConnectToServer C F (cv_dial E) (us_identity s) (us_server s)") simp_all
    then show ?thesis
      using assms(2) by (auto simp: ConnectToServer_def bindR_eq_Ok resetDialBackoff_def)
  qed (use assms(1) dial(4) in simp)
qed (use assms in simp_all)

lemma selectable_same:
  assumes "selectable cfg ss c" "same_servers ss ss'"
  shows "selectable cfg ss' c"
proof -
  let ?k = "if sel_route c \<noteq> [] then hd (sel_route c) else sel_egress c"
  obtain sid eg s where s: "selectSession ss ?k = Ok (sid, eg)" "ss_sessions ss sid = Some s"
      "us_server s \<in> set (cfg_Servers cfg)" "sc_ID (us_server s) = sid"
    using assms(1) unfolding selectable_def by blast
  have eq: "map_option us_server (ss_sessions ss i) = map_option us_server (ss_sessions ss' i)" for i
    using assms(2) by (simp add: same_servers_def)
  have "selectSession ss' ?k = selectSession ss ?k"
    using assms(2) eq [of ?k] unfolding selectSession_def same_servers_def
    by (cases "ss_sessions ss ?k"; cases "ss_sessions ss' ?k") simp_all
  moreover obtain s' where "ss_sessions ss' sid = Some s'" "us_server s' = us_server s"
    using eq [of sid] s(2) by (cases "ss_sessions ss' sid") auto
  ultimately show ?thesis
    using assms(1) s unfolding selectable_def by (metis (no_types))
qed

lemma same_servers_Some: "same_servers ss ss' \<Longrightarrow> ss_sessions ss sid = Some s \<Longrightarrow> \<exists>s'. ss_sessions ss' sid = Some s'"
  unfolding same_servers_def by (metis map_option_is_None not_Some_eq)

lemma same_servers_update:
  "ss_sessions ss sid = Some s \<Longrightarrow> us_server s' = us_server s \<Longrightarrow>
   same_servers ss (ss\<lparr>ss_sessions := (ss_sessions ss)(sid \<mapsto> s')\<rparr>)"
  by (simp add: same_servers_def)

lemma same_servers_trans: "same_servers a b \<Longrightarrow> same_servers b c \<Longrightarrow> same_servers a c"
  by (simp add: same_servers_def)

lemma same_servers_refl: "same_servers a a"
  by (simp add: same_servers_def)

text \<open>After \<open>ConnectAll\<close>, the sessions visited have a live connection.\<close>

definition connected_to :: "upstreamSessions \<Rightarrow> string \<Rightarrow> bool" where
  "connected_to ss sid \<longleftrightarrow> (\<forall>s. ss_sessions ss sid = Some s \<longrightarrow> (\<exists>c. us_conn s = Some c \<and> c \<notin> us_dead s))"

definition fresh_dials :: "(string \<Rightarrow> client_env) \<Rightarrow> upstreamSessions \<Rightarrow> bool" where
  "fresh_dials E ss \<longleftrightarrow> (\<forall>sid s a t c. ss_sessions ss sid = Some s \<longrightarrow> cv_dial (E sid) a t = Ok c \<longrightarrow> c \<notin> us_dead s)"

lemma upstreamConnection_dead: "us_dead (snd (upstreamConnection C F E s)) = us_dead s"
proof (cases rule: upstreamConnection_cases [of s C F E])
  case (dial s1)
  then show ?thesis
    by (cases "dialBlocked s (cv_now E)"; cases "ConnectToServer C F (cv_dial E) (us_identity s) (us_server s)")
      (simp_all add: recordDialFailure_def resetDialBackoff_def Let_def)
qed simp_all

lemma upstreamConnection_again:
  assumes "us_conn s = Some c" "c \<notin> us_dead s" "upstreamConnection C F E s = (Ok c', s')"
  shows "us_conn s' = Some c \<and> c \<notin> us_dead s'"
  using assms by (cases "us_closed s") (simp_all add: upstreamConnection_def)

lemma sessionsConnectAll_Ok:
  "sessionsConnectAll C F E order ss = (Ok (), ss') \<Longrightarrow> fresh_dials E ss \<Longrightarrow>
   same_servers ss ss' \<and> (\<forall>sid. sid \<in> set order \<or> connected_to ss sid \<longrightarrow> connected_to ss' sid)"
proof (induction order arbitrary: ss)
  case Nil
  then show ?case by (simp add: same_servers_refl)
next
  case (Cons sid order)
  show ?case
  proof (cases "ss_sessions ss sid")
    case None
    then have "connected_to ss sid" by (simp add: connected_to_def)
    then show ?thesis using Cons None by auto
  next
    case (Some s)
    obtain r s1 where u: "upstreamConnection C F (E sid) s = (r, s1)" by fastforce
    let ?ss1 = "ss\<lparr>ss_sessions := (ss_sessions ss)(sid \<mapsto> s1)\<rparr>"
    obtain c where r: "r = Ok c" and run: "sessionsConnectAll C F E order ?ss1 = (Ok (), ss')"
      using Cons.prems(1) Some u by (cases r) (auto simp: Let_def)
    have live: "us_conn s1 = Some c \<and> c \<notin> us_dead s1"
      using upstreamConnection_live [OF u [unfolded r]] Cons.prems(2) Some by (auto simp: fresh_dials_def)
    have dead: "us_dead s1 = us_dead s" using upstreamConnection_dead [of C F "E sid" s] u by simp
    have "fresh_dials E ?ss1" using Cons.prems(2) Some dead by (auto simp: fresh_dials_def)
    moreover have "same_servers ss ?ss1"
      using same_servers_update [OF Some] upstreamConnection_server [of C F "E sid" s] u by simp
    moreover have "connected_to ?ss1 sid" using live by (simp add: connected_to_def)
    moreover have "connected_to ?ss1 i" if "connected_to ss i" for i
      using that live by (auto simp: connected_to_def)
    ultimately show ?thesis
      using Cons.IH [OF run] by (auto intro: same_servers_trans)
  qed
qed

lemma listenForwards_Err:
  "listenForwards listen fs ls = (Err e, closed) \<Longrightarrow>
   \<exists>k<length fs. listen (fc_Listen (fs ! k)) = Err e \<and> map fst closed = map fst ls @ take k fs"
proof (induction fs arbitrary: ls)
  case (Cons f fs)
  show ?case
  proof (cases "listen (fc_Listen f)")
    case (Ok l)
    then have "listenForwards listen fs (ls @ [(f, l)]) = (Err e, closed)" using Cons.prems by simp
    from Cons.IH [OF this] obtain k where "k < length fs" "listen (fc_Listen (fs ! k)) = Err e"
        "map fst closed = map fst (ls @ [(f, l)]) @ take k fs" by blast
    then show ?thesis by (intro exI [of _ "Suc k"]) simp
  next
    case (Err e')
    then show ?thesis using Cons.prems by (intro exI [of _ 0]) simp
  next
    case Panic
    then show ?thesis using Cons.prems by simp
  qed
qed simp

lemma clientStart_closed:
  assumes "clientStart W (Some cfg) = (Err e, closed, so)"
  shows "closed = [] \<or> listenForwards (cs_listen W) (cfg_Forwards cfg) [] = (Err e, closed)"
  using assms by (auto simp: clientStart_def split: res.splits prod.splits)

lemma newUpstreamSessions_dead:
  assumes "newUpstreamSessions cfg dead = Ok ss" "ss_sessions ss sid = Some s"
  shows "us_dead s = dead"
proof -
  let ?f = "\<lambda>server. newReconnectingUpstreamSession (cfg_NodeID cfg) (cfg_Identity cfg) server dead"
  have "ss_sessions ss = fst (foldl (\<lambda>(m, d) x. (m(sc_ID x \<mapsto> ?f x), sc_ID x)) (Map.empty, []) (cfg_Servers cfg))"
    using assms(1) by (auto simp: newUpstreamSessions_def configuredServers_def bindR_eq_Ok case_prod_unfold Let_def
        split: if_splits)
  then have "foldl (\<lambda>m x. m(sc_ID x \<mapsto> ?f x)) Map.empty (cfg_Servers cfg) sid = Some s"
    using assms(2) foldl_upd_pair [of sc_ID ?f Map.empty "[]" "cfg_Servers cfg"] by simp
  then show ?thesis
    using foldl_upd_Some [of sc_ID ?f Map.empty "cfg_Servers cfg" sid s] by (auto simp: newReconnectingUpstreamSession_def)
qed

lemma clientStart_Ok:
  assumes "clientStart W (Some cfg) = (Ok run, closed, so)"
  shows "\<exists>ss0 ls cl. ValidateClient (Some cfg) = Ok () \<and> newUpstreamSessions cfg (cs_dead W) = Ok ss0 \<and>
    sessionsConnectAll (cs_C W) (cs_F W) (cs_env W) (cs_order W) ss0 = (Ok (), cr_sessions run) \<and>
    newE2EClientRuntime (cs_F W) cfg = Ok (cr_e2e run) \<and> listenForwards (cs_listen W) (cfg_Forwards cfg) [] = (Ok ls, cl) \<and>
    closed = [] \<and> cr_routes run = newRouteResolver cfg \<and> cr_listeners run = ls"
proof -
  have valid: "ValidateClient (Some cfg) = Ok ()"
    using assms by (cases "ValidateClient (Some cfg)") (auto simp: clientStart_def)
  obtain ss0 where n: "newUpstreamSessions cfg (cs_dead W) = Ok ss0"
    using assms valid by (cases "newUpstreamSessions cfg (cs_dead W)") (auto simp: clientStart_def)
  obtain ss where ca: "sessionsConnectAll (cs_C W) (cs_F W) (cs_env W) (cs_order W) ss0 = (Ok (), ss)"
    using assms valid n
    by (cases "sessionsConnectAll (cs_C W) (cs_F W) (cs_env W) (cs_order W) ss0";
        cases "fst (sessionsConnectAll (cs_C W) (cs_F W) (cs_env W) (cs_order W) ss0)") (auto simp: clientStart_def)
  obtain e2e where e: "newE2EClientRuntime (cs_F W) cfg = Ok e2e"
    using assms valid n ca by (cases "newE2EClientRuntime (cs_F W) cfg") (auto simp: clientStart_def)
  obtain ls cl where ls: "listenForwards (cs_listen W) (cfg_Forwards cfg) [] = (Ok ls, cl)"
    using assms valid n ca e
    by (cases "listenForwards (cs_listen W) (cfg_Forwards cfg) []";
        cases "fst (listenForwards (cs_listen W) (cfg_Forwards cfg) [])") (auto simp: clientStart_def)
  have "run = \<lparr>cr_sessions = ss, cr_routes = newRouteResolver cfg, cr_e2e = e2e, cr_listeners = ls\<rparr>" "closed = []"
    using assms valid n ca e ls by (simp_all add: clientStart_def)
  then show ?thesis using valid n ca e ls by simp
qed

text \<open>A candidate that needs encryption finds the runtime that verifies services.\<close>

lemma encrypted_candidate_runtime:
  assumes "client_config cfg" "f \<in> set (cfg_Forwards cfg)" "newE2EClientRuntime F cfg = Ok e2e"
    and "c \<in> set (resolveCandidates (Some r) f)" "effectiveE2ERequired c"
  shows "e2e \<noteq> None"
proof -
  have "forward_ok cfg f" using assms(1,2) by (simp add: client_config_def)
  moreover have "fc_E2E f \<in> {ForwardE2EAlways, ForwardE2EAuto}"
    using resolveCandidates_mode [OF assms(4)] assms(5)
    by (auto simp: effectiveE2ERequired_def normalizedForwardE2E_def qoru_consts split: if_splits)
  ultimately have "si_CA (cfg_ServiceIdentity cfg) \<noteq> []" by (auto simp: forward_ok_def qoru_consts)
  then show ?thesis using assms(3) by (auto simp: newE2EClientRuntime_def bindR_eq_Ok)
qed

lemma started_sessions_connected:
  assumes "sessions_for cfg ss0" "same_servers ss0 ss" "\<forall>sid\<in>serverIDs cfg. connected_to ss sid" "sid \<in> serverIDs cfg"
  shows "\<exists>s c. ss_sessions ss sid = Some s \<and> us_conn s = Some c \<and> c \<notin> us_dead s"
proof -
  have "sid \<in> dom (ss_sessions ss0)" using assms(1,4) by (simp add: sessions_for_def)
  then obtain s0 where "ss_sessions ss0 sid = Some s0" by blast
  then obtain s where "ss_sessions ss sid = Some s" using same_servers_Some [OF assms(2)] by blast
  then show ?thesis using assms(3,4) by (auto simp: connected_to_def)
qed


definition toy_setup :: "nat client_setup" where
  "toy_setup = \<lparr>cs_C = toy_crypto, cs_F = toy_files, cs_env = (\<lambda>sid. toy_client_env 5 7 (stream_on [] EOF [])),
     cs_order = [''a''], cs_dead = {}, cs_listen = (\<lambda>a. Ok 1)\<rparr>"

lemma toy_client_starts:
  "\<exists>run so. clientStart toy_setup (Some toy_client_config) = (Ok run, [], so) \<and> sessions_ok (cr_sessions run)"
proof -
  have n: "newUpstreamSessions toy_client_config {} = Ok \<lparr>ss_sessions = [''a'' \<mapsto> toy_session], ss_defaultID = ''a''\<rparr>"
    by (simp add: newUpstreamSessions_def configuredServers_def toy_client_config_def toy_session_def)
  have u: "upstreamConnection toy_crypto toy_files (toy_client_env 5 7 (stream_on [] EOF [])) toy_session =
      (Ok 7, resetDialBackoff (toy_session\<lparr>us_conn := Some 7\<rparr>))"
    by (rule toy_connect) (simp_all add: toy_client_env_def)
  have e: "\<exists>e. newE2EClientRuntime toy_files toy_client_config = Ok e"
    by (simp add: newE2EClientRuntime_def toy_client_config_def toy_files_def LoadCertPool_def)
  then obtain e where e: "newE2EClientRuntime toy_files toy_client_config = Ok e" by blast
  have "cfg_Forwards toy_client_config = [always_forward]" by (simp add: toy_client_config_def)
  then show ?thesis
    using n u e by (simp add: clientStart_def toy_setup_def toy_client_config_valid Let_def sessions_ok_def)
qed


section \<open>Shutdown\<close>

lemma sessionsClose_opens_nothing:
  assumes "sessions_ok ss"
  shows "\<exists>e. sessionsOpenTCPStream C F U E1 E2 ctxErr rid svc eg rt e2e (sessionsClose ss) = (Err e, sessionsClose ss)"
proof -
  let ?sel = "if length rt > 0 then rt ! 0 else eg"
  let ?ss = "sessionsClose ss"
  show ?thesis
  proof (cases "selectSession ?ss ?sel")
    case (Ok p)
    obtain sid eg' where p: "p = (sid, eg')" by fastforce
    have "sessions_ok ?ss" using assms by (auto simp: sessions_ok_def sessionsClose_def dom_map_option_comp [symmetric])
    then obtain s where s: "ss_sessions ?ss sid = Some s"
      using Ok p by (auto simp: selectSession_def sessions_ok_def split: if_splits option.splits)
    then have closed: "us_closed s"
      by (auto simp: sessionsClose_def upstreamClose_def closeConnection_def Let_def split: option.splits)
    have "?ss\<lparr>ss_sessions := (ss_sessions ?ss)(sid \<mapsto> s)\<rparr> = ?ss" using s by (simp add: fun_upd_idem)
    then show ?thesis
      using Ok p s upstreamConnection_closed [OF closed]
      by (simp add: sessionsOpenTCPStream_def sessionOpenTCPStream_def Let_def)
  qed (auto simp: sessionsOpenTCPStream_def selectSession_def Let_def split: if_splits option.splits)
qed



end
