(* ===== verification/Proxyio.thy ===== *)
theory Proxyio
  imports E2E_Record
begin

text \<open>
  The byte proxy (\<^verbatim>\<open>internal/proxyio/proxy.go\<close>) and its uses (\<^verbatim>\<open>proxy.go\<close> of client and
  server). An endpoint is a record of functions on its own state, as in the code; a \<open>nil\<close>
  function is \<open>None\<close>. \<open>Proxy\<close> runs two goroutines: each is a program counter, and one step of
  either is one call on an endpoint, the deferred abort, or the send on the channel \<open>done\<close>. A
  blocked read is a goroutine that is not scheduled. \<open>io.Copy\<close> is its documented loop; the
  number of bytes a read may return is left to the schedule. A writer that would never return
  gives \<open>None\<close>.
\<close>

section \<open>Endpoints\<close>

record 's Endpoint =
  ep_Reader :: "nat \<Rightarrow> 's \<Rightarrow> (bytes \<times> unit res) \<times> 's"
  ep_Writer :: "bytes \<Rightarrow> 's \<Rightarrow> ((nat \<times> unit res) \<times> 's) option"
  ep_CloseWrite :: "('s \<Rightarrow> unit res \<times> 's) option"
  ep_Abort :: "('s \<Rightarrow> 's) option"
  ep_Close :: "('s \<Rightarrow> 's) option"

text \<open>
  The methods of \<open>net.Conn\<close>, with \<open>CloseWrite\<close> when it is a \<open>*net.TCPConn\<close>, and those of
  \<open>*quic.Stream\<close>; \<open>CancelRead\<close> and \<open>CancelWrite\<close> are called with code 0.
\<close>

record 's net_ops =
  no_Read :: "nat \<Rightarrow> 's \<Rightarrow> (bytes \<times> unit res) \<times> 's"
  no_Write :: "bytes \<Rightarrow> 's \<Rightarrow> ((nat \<times> unit res) \<times> 's) option"
  no_CloseWrite :: "('s \<Rightarrow> unit res \<times> 's) option"
  no_Close :: "'s \<Rightarrow> unit res \<times> 's"

record 's quic_ops =
  qo_Read :: "nat \<Rightarrow> 's \<Rightarrow> (bytes \<times> unit res) \<times> 's"
  qo_Write :: "bytes \<Rightarrow> 's \<Rightarrow> ((nat \<times> unit res) \<times> 's) option"
  qo_Close :: "'s \<Rightarrow> unit res \<times> 's"
  qo_CancelRead :: "'s \<Rightarrow> 's"
  qo_CancelWrite :: "'s \<Rightarrow> 's"

definition closeNetConnWrite :: "'s net_ops \<Rightarrow> 's \<Rightarrow> unit res \<times> 's" where
  "closeNetConnWrite conn = (case no_CloseWrite conn of Some closeWrite \<Rightarrow> closeWrite | None \<Rightarrow> no_Close conn)"

definition NetConnEndpoint :: "'s net_ops \<Rightarrow> 's Endpoint" where
  "NetConnEndpoint conn =
     \<lparr>ep_Reader = no_Read conn, ep_Writer = no_Write conn, ep_CloseWrite = Some (closeNetConnWrite conn),
      ep_Abort = Some (\<lambda>s. snd (no_Close conn s)), ep_Close = Some (\<lambda>s. snd (no_Close conn s))\<rparr>"

definition QUICStreamEndpoint :: "'s quic_ops \<Rightarrow> 's Endpoint" where
  "QUICStreamEndpoint stream =
     \<lparr>ep_Reader = qo_Read stream, ep_Writer = qo_Write stream, ep_CloseWrite = Some (qo_Close stream),
      ep_Abort = Some (\<lambda>s. snd (qo_Close stream (qo_CancelWrite stream (qo_CancelRead stream s)))),
      ep_Close = Some (\<lambda>s. snd (qo_Close stream s))\<rparr>"

text \<open>
  The encrypted end of \<open>proxyEncryptedTCP\<close>: reader and writer hold the two directions of the
  stream; \<open>stream\<close> gives the cancelling and closing of that stream on them.
\<close>

record enc_conn =
  en_reader :: EncryptedReader
  en_writer :: EncryptedWriter

record raw_ops =
  ra_CancelRead :: "istream \<Rightarrow> istream"
  ra_CancelWrite :: "ostream \<Rightarrow> ostream"
  ra_Close :: "ostream \<Rightarrow> ostream"

definition encReadOp :: "crypto_lib \<Rightarrow> nat \<Rightarrow> enc_conn \<Rightarrow> (bytes \<times> unit res) \<times> enc_conn" where
  "encReadOp C n s =
     (case encRead C (en_reader s) n of
        (Ok bs, r) \<Rightarrow> ((bs, Ok ()), s\<lparr>en_reader := r\<rparr>)
      | (Err e, r) \<Rightarrow> (([], Err e), s\<lparr>en_reader := r\<rparr>)
      | (Panic, r) \<Rightarrow> (([], Panic), s\<lparr>en_reader := r\<rparr>))"

definition encWriteOp :: "crypto_lib \<Rightarrow> bytes \<Rightarrow> enc_conn \<Rightarrow> ((nat \<times> unit res) \<times> enc_conn) option" where
  "encWriteOp C bs s = map_option (\<lambda>(m, w). (m, s\<lparr>en_writer := w\<rparr>)) (encWrite C (en_writer s) bs)"

definition encCloseWriteOp :: "enc_conn \<Rightarrow> unit res \<times> enc_conn" where
  "encCloseWriteOp s = (case encCloseWrite (en_writer s) of (m, w) \<Rightarrow> (m, s\<lparr>en_writer := w\<rparr>))"

definition closeRaw :: "raw_ops \<Rightarrow> enc_conn \<Rightarrow> enc_conn" where
  "closeRaw stream s = s\<lparr>en_writer := (en_writer s)\<lparr>ew_w := ra_Close stream (ew_w (en_writer s))\<rparr>\<rparr>"

definition cancelRaw :: "raw_ops \<Rightarrow> enc_conn \<Rightarrow> enc_conn" where
  "cancelRaw stream s =
     s\<lparr>en_reader := (en_reader s)\<lparr>er_r := ra_CancelRead stream (er_r (en_reader s))\<rparr>,
       en_writer := (en_writer s)\<lparr>ew_w := ra_CancelWrite stream (ew_w (en_writer s))\<rparr>\<rparr>"

definition encryptedEndpoint :: "crypto_lib \<Rightarrow> raw_ops \<Rightarrow> enc_conn Endpoint" where
  "encryptedEndpoint C stream =
     \<lparr>ep_Reader = encReadOp C, ep_Writer = encWriteOp C, ep_CloseWrite = Some encCloseWriteOp,
      ep_Abort = Some (\<lambda>s. closeRaw stream (cancelRaw stream s)), ep_Close = Some (closeRaw stream)\<rparr>"

section \<open>Copying one way\<close>

text \<open>The program counter of \<open>proxyOneWay\<close>; \<open>Writing\<close> holds what was read and the outcome of the read.\<close>

datatype oneWay_pc =
    Copying
  | Writing bytes "unit res"
  | HalfClosing "go_error option"
  | Deciding "go_error option" "go_error option"
  | Sending "go_error option"
  | Sent
  | Crashed

definition ErrShortWrite :: go_error where "ErrShortWrite = LibError ''short write''"

definition afterRead :: "unit res \<Rightarrow> oneWay_pc" where
  "afterRead r =
     (case r of
        Ok _ \<Rightarrow> Copying
      | Err e \<Rightarrow> HalfClosing (if e = EOF then None else Some e)
      | Panic \<Rightarrow> Crashed)"

text \<open>One call of the copy loop, or the half-close of the destination.\<close>

definition copyStep ::
    "'t Endpoint \<Rightarrow> 's Endpoint \<Rightarrow> nat \<Rightarrow> oneWay_pc \<Rightarrow> 't \<Rightarrow> 's \<Rightarrow> (oneWay_pc \<times> 't \<times> 's) option" where
  "copyStep dst src n pc t s =
     (case pc of
        Copying \<Rightarrow>
          (case ep_Reader src n s of ((bs, r), s) \<Rightarrow>
             Some (if length bs > 0 then Writing bs r else afterRead r, t, s))
      | Writing bs r \<Rightarrow>
          (case ep_Writer dst bs t of
             None \<Rightarrow> None
           | Some ((written, w), t) \<Rightarrow>
               Some (case w of
                   Err e \<Rightarrow> HalfClosing (Some e)
                 | Panic \<Rightarrow> Crashed
                 | Ok _ \<Rightarrow> if written \<noteq> length bs then HalfClosing (Some ErrShortWrite) else afterRead r, t, s))
      | HalfClosing copyErr \<Rightarrow>
          (case ep_CloseWrite dst of
             None \<Rightarrow> Some (Deciding copyErr None, t, s)
           | Some closeWrite \<Rightarrow>
               (case closeWrite t of
                  (Ok _, t) \<Rightarrow> Some (Deciding copyErr None, t, s)
                | (Err e, t) \<Rightarrow> Some (Deciding copyErr (Some e), t, s)
                | (Panic, t) \<Rightarrow> Some (Crashed, t, s)))
      | _ \<Rightarrow> None)"

section \<open>The two goroutines\<close>

record ('a, 'b) proxy =
  px_a :: 'a
  px_b :: 'b
  px_ab :: oneWay_pc
  px_ba :: oneWay_pc
  px_aborted :: bool
  px_done :: "go_error option list"

definition startProxy :: "'a \<Rightarrow> 'b \<Rightarrow> ('a, 'b) proxy" where
  "startProxy a b =
     \<lparr>px_a = a, px_b = b, px_ab = Copying, px_ba = Copying, px_aborted = False, px_done = []\<rparr>"

definition callOpt :: "('s \<Rightarrow> 's) option \<Rightarrow> 's \<Rightarrow> 's" where
  "callOpt f s = (case f of Some g \<Rightarrow> g s | None \<Rightarrow> s)"

text \<open>\<open>abort\<close>, with its \<open>sync.Once\<close>.\<close>

definition abort :: "'a Endpoint \<Rightarrow> 'b Endpoint \<Rightarrow> ('a, 'b) proxy \<Rightarrow> ('a, 'b) proxy" where
  "abort a b s =
     (if px_aborted s then s
      else s\<lparr>px_aborted := True, px_a := callOpt (ep_Abort a) (px_a s), px_b := callOpt (ep_Abort b) (px_b s)\<rparr>)"

text \<open>A step of the goroutine that copies from \<open>a\<close> to \<open>b\<close>, and of the one that copies back.\<close>

definition proxyOneWay :: "'b Endpoint \<Rightarrow> 'a Endpoint \<Rightarrow> nat \<Rightarrow> ('a, 'b) proxy \<Rightarrow> ('a, 'b) proxy option" where
  "proxyOneWay b a n s =
     (case px_ab s of
        Deciding copyErr closeErr \<Rightarrow>
          Some ((if copyErr \<noteq> None \<or> closeErr \<noteq> None then abort a b s else s)
                  \<lparr>px_ab := Sending (if copyErr \<noteq> None then copyErr else closeErr)\<rparr>)
      | Sending err \<Rightarrow> Some (s\<lparr>px_ab := Sent, px_done := px_done s @ [err]\<rparr>)
      | pc \<Rightarrow>
          (case copyStep b a n pc (px_b s) (px_a s) of
             None \<Rightarrow> None
           | Some (pc, t, u) \<Rightarrow> Some (s\<lparr>px_ab := pc, px_b := t, px_a := u\<rparr>)))"

definition mirror :: "('a, 'b) proxy \<Rightarrow> ('b, 'a) proxy" where
  "mirror s = \<lparr>px_a = px_b s, px_b = px_a s, px_ab = px_ba s, px_ba = px_ab s, px_aborted = px_aborted s,
     px_done = px_done s\<rparr>"

definition proxyOtherWay :: "'a Endpoint \<Rightarrow> 'b Endpoint \<Rightarrow> nat \<Rightarrow> ('a, 'b) proxy \<Rightarrow> ('a, 'b) proxy option" where
  "proxyOtherWay a b n s = map_option mirror (proxyOneWay a b n (mirror s))"

text \<open>The runs of both goroutines, with the number of steps. A panic ends the program.\<close>

inductive proxy_run ::
    "'a Endpoint \<Rightarrow> 'b Endpoint \<Rightarrow> ('a, 'b) proxy \<Rightarrow> nat \<Rightarrow> ('a, 'b) proxy \<Rightarrow> bool" for a b s0 where
  start: "proxy_run a b s0 0 s0"
| forward: "proxy_run a b s0 k s \<Longrightarrow> px_ab s \<noteq> Crashed \<Longrightarrow> px_ba s \<noteq> Crashed \<Longrightarrow> 0 < n \<Longrightarrow>
    proxyOneWay b a n s = Some s' \<Longrightarrow> proxy_run a b s0 (Suc k) s'"
| backward: "proxy_run a b s0 k s \<Longrightarrow> px_ab s \<noteq> Crashed \<Longrightarrow> px_ba s \<noteq> Crashed \<Longrightarrow> 0 < n \<Longrightarrow>
    proxyOtherWay a b n s = Some s' \<Longrightarrow> proxy_run a b s0 (Suc k) s'"

text \<open>What \<open>Proxy\<close> does once it has received from \<open>done\<close> twice: close both ends, return the first error.\<close>

definition proxyReturn ::
    "'a Endpoint \<Rightarrow> 'b Endpoint \<Rightarrow> ('a, 'b) proxy \<Rightarrow> (go_error option \<times> ('a, 'b) proxy) option" where
  "proxyReturn a b s =
     (case px_done s of
        [err1, err2] \<Rightarrow>
          Some (if err1 \<noteq> None then err1 else err2,
                s\<lparr>px_a := callOpt (ep_Close a) (px_a s), px_b := callOpt (ep_Close b) (px_b s)\<rparr>)
      | _ \<Rightarrow> None)"

section \<open>Uses\<close>

text \<open>
  The pairs of endpoints proxied: the client's \<open>proxyTCP\<close> and \<open>proxyEncryptedTCP\<close>, the server's
  \<open>proxyStreams\<close>, \<open>proxyTCP\<close> and \<open>proxyEncryptedTCP\<close>.
\<close>

definition clientProxyTCP :: "'n net_ops \<Rightarrow> 'q quic_ops \<Rightarrow> 'n Endpoint \<times> 'q Endpoint" where
  "clientProxyTCP localConn stream = (NetConnEndpoint localConn, QUICStreamEndpoint stream)"

definition clientProxyEncryptedTCP :: "crypto_lib \<Rightarrow> 'n net_ops \<Rightarrow> raw_ops \<Rightarrow> 'n Endpoint \<times> enc_conn Endpoint" where
  "clientProxyEncryptedTCP C localConn stream = (NetConnEndpoint localConn, encryptedEndpoint C stream)"

definition serverProxyStreams :: "'p quic_ops \<Rightarrow> 'q quic_ops \<Rightarrow> 'p Endpoint \<times> 'q Endpoint" where
  "serverProxyStreams a b = (QUICStreamEndpoint a, QUICStreamEndpoint b)"

definition serverProxyTCP :: "'q quic_ops \<Rightarrow> 'n net_ops \<Rightarrow> 'q Endpoint \<times> 'n Endpoint" where
  "serverProxyTCP stream targetConn = (QUICStreamEndpoint stream, NetConnEndpoint targetConn)"

definition serverProxyEncryptedTCP :: "crypto_lib \<Rightarrow> raw_ops \<Rightarrow> 'n net_ops \<Rightarrow> enc_conn Endpoint \<times> 'n Endpoint" where
  "serverProxyEncryptedTCP C stream targetConn = (encryptedEndpoint C stream, NetConnEndpoint targetConn)"

end
