(* ===== verification/Proxyio_Lemmas.thy ===== *)
theory Proxyio_Lemmas
  imports Proxyio "HOL-Library.Sublist"
begin

text \<open>
  The contract of an endpoint as the proxy uses it, the locale \<open>byte_endpoint\<close>, and the
  invariant of a proxy between two such endpoints. \<open>I s d w\<close> reads: in state \<open>s\<close> the reader
  has the bytes \<open>d\<close> still to deliver, and the writer has accepted the bytes \<open>w\<close> so far. Of a
  reader that has failed nothing more is asked: it is not read again.
\<close>

section \<open>Endpoints\<close>

locale byte_endpoint =
  fixes E :: "'s Endpoint"
    and I :: "'s \<Rightarrow> bytes \<Rightarrow> bytes \<Rightarrow> bool"
  assumes read: "I s d w \<Longrightarrow> 0 < n \<Longrightarrow> ep_Reader E n s = ((bs, r), s') \<Longrightarrow>
      r \<noteq> Panic \<and> (bs = [] \<longrightarrow> r \<noteq> Ok ()) \<and>
      (\<exists>d'. I s' d' w \<and> (d = bs @ d' \<and> (r = Err EOF \<longrightarrow> d' = []) \<or> bs = [] \<and> r \<noteq> Ok () \<and> (r = Err EOF \<longrightarrow> d = [])))"
    and write': "I s d w \<Longrightarrow> (\<exists>s'. ep_Writer E bs s = Some ((length bs, Ok ()), s') \<and> I s' d (w @ bs)) \<or>
      (\<exists>k e s' j. ep_Writer E bs s = Some ((k, Err e), s') \<and> I s' d (w @ take j bs))"
    and closeWrite: "ep_CloseWrite E = Some f \<Longrightarrow> I s d w \<Longrightarrow> f s = (r, s') \<Longrightarrow> r \<noteq> Panic \<and> I s' d w"
    and aborted: "ep_Abort E = Some g \<Longrightarrow> I s d w \<Longrightarrow> \<exists>d'. prefix d' d \<and> I (g s) d' w"
begin

lemma abort_opt: "I s d w \<Longrightarrow> \<exists>d'. prefix d' d \<and> I (callOpt (ep_Abort E) s) d' w"
  using aborted by (cases "ep_Abort E") (auto simp: callOpt_def)

end

section \<open>One direction\<close>

text \<open>
  What is known of one direction: \<open>d0\<close> is what the source had to deliver at the start, \<open>d\<close>
  what it still has, \<open>x\<close> what the destination has accepted of it. Unless the endpoints have been
  aborted, nothing is missing.
\<close>

fun chan :: "oneWay_pc \<Rightarrow> bool \<Rightarrow> bytes \<Rightarrow> bytes \<Rightarrow> bytes \<Rightarrow> bool" where
  "chan Copying ab d0 d x \<longleftrightarrow> (\<exists>z. d0 = x @ d @ z \<and> (\<not> ab \<longrightarrow> z = []))"
| "chan (Writing bs r) ab d0 d x \<longleftrightarrow>
     (\<exists>z. d0 = x @ bs @ d @ z \<and> (\<not> ab \<longrightarrow> z = [])) \<and> r \<noteq> Panic \<and> (r = Err EOF \<longrightarrow> d = [])"
| "chan (HalfClosing c) ab d0 d x \<longleftrightarrow> prefix x d0 \<and> (c = None \<longrightarrow> \<not> ab \<longrightarrow> x = d0)"
| "chan (Deciding c e) ab d0 d x \<longleftrightarrow> prefix x d0 \<and> (c = None \<longrightarrow> \<not> ab \<longrightarrow> x = d0)"
| "chan (Sending r) ab d0 d x \<longleftrightarrow> prefix x d0 \<and> (\<not> ab \<longrightarrow> x = d0)"
| "chan Sent ab d0 d x \<longleftrightarrow> prefix x d0 \<and> (\<not> ab \<longrightarrow> x = d0)"
| "chan Crashed ab d0 d x \<longleftrightarrow> False"

fun work :: "oneWay_pc \<Rightarrow> bytes \<Rightarrow> nat" where
  "work Copying d = 2 * length d + 4"
| "work (Writing bs r) d = 2 * length d + 5"
| "work (HalfClosing c) d = 3"
| "work (Deciding c e) d = 2"
| "work (Sending r) d = 1"
| "work Sent d = 0"
| "work Crashed d = 0"

lemma chan_prefix: "chan pc ab d0 d x \<Longrightarrow> prefix x d0"
  by (cases pc) auto

lemma chan_abort: "chan pc ab d0 d x \<Longrightarrow> prefix d' d \<Longrightarrow> chan pc True d0 d' x"
  by (cases pc) (auto simp: prefix_def)

lemma work_prefix: "prefix d' d \<Longrightarrow> work pc d' \<le> work pc d"
  by (cases pc) (auto simp: prefix_def)

lemma afterRead_chan:
  assumes "\<exists>z. d0 = x @ d @ z \<and> (\<not> ab \<longrightarrow> z = [])" "r \<noteq> Panic" "r = Err EOF \<longrightarrow> d = []"
  shows "chan (afterRead r) ab d0 d x"
  using assms by (cases r) (auto simp: afterRead_def prefix_def)

lemma afterRead_work: "r \<noteq> Panic \<Longrightarrow> work (afterRead r) d \<le> 2 * length d + 4"
  by (cases r) (auto simp: afterRead_def)

lemma copyStep_keeps:
  assumes ea: "byte_endpoint A IA" and eb: "byte_endpoint B IB"
    and "IA s da wa" "IB t db wb" "0 < n" "chan pc ab d0 da x" "wb = w0 @ x" "copyStep B A n pc t s = Some (pc', t', s')"
  shows "\<exists>da' x'. IA s' da' wa \<and> IB t' db (w0 @ x') \<and> chan pc' ab d0 da' x' \<and> work pc' da' < work pc da \<and>
    pc' \<noteq> Crashed \<and> pc' \<noteq> Sent \<and> (\<forall>r. pc' \<noteq> Sending r)"
proof (cases pc)
  case Copying
  obtain bs r where rd: "ep_Reader A n s = ((bs, r), s')" by (cases "ep_Reader A n s") (use assms(8) Copying in \<open>auto simp: copyStep_def\<close>)
  have st: "t' = t" "pc' = (if bs = [] then afterRead r else Writing bs r)"
    using assms(8) Copying rd by (auto simp: copyStep_def)
  obtain d' where d': "r \<noteq> Panic" "bs = [] \<longrightarrow> r \<noteq> Ok ()" "IA s' d' wa"
      "da = bs @ d' \<and> (r = Err EOF \<longrightarrow> d' = []) \<or> bs = [] \<and> r \<noteq> Ok () \<and> (r = Err EOF \<longrightarrow> da = [])"
    using byte_endpoint.read [OF ea assms(3,5) rd] by blast
  obtain z where z: "d0 = x @ da @ z" "\<not> ab \<longrightarrow> z = []" using assms(6) Copying by auto
  have "chan pc' ab d0 d' x \<and> work pc' d' < work pc da \<and> pc' \<noteq> Crashed \<and> pc' \<noteq> Sent \<and> (\<forall>r. pc' \<noteq> Sending r)"
  proof (cases "bs = []")
    case True
    then obtain e where e: "r = Err e" using d'(1,2) by (cases r) auto
    then have "pc' = HalfClosing (if e = EOF then None else Some e)" using st True by (simp add: afterRead_def)
    then show ?thesis using z e d'(4) True Copying by auto
  next
    case False
    then show ?thesis using z d' st Copying by (cases bs) auto
  qed
  then show ?thesis using d'(3) assms(4,7) st(1) by blast
next
  case (Writing bs r)
  obtain z where z: "d0 = x @ bs @ da @ z" "\<not> ab \<longrightarrow> z = []" "r \<noteq> Panic" "r = Err EOF \<longrightarrow> da = []"
    using assms(6) Writing by auto
  consider (all) t1 where "ep_Writer B bs t = Some ((length bs, Ok ()), t1)" "IB t1 db (wb @ bs)"
    | (some) k e t1 j where "ep_Writer B bs t = Some ((k, Err e), t1)" "IB t1 db (wb @ take j bs)"
    using byte_endpoint.write' [OF eb assms(4), of bs] by blast
  then show ?thesis
  proof cases
    case (all t1)
    then have st: "pc' = afterRead r" "t' = t1" "s' = s" using assms(8) Writing by (auto simp: copyStep_def)
    have "chan pc' ab d0 da (x @ bs)" unfolding st using z by (intro afterRead_chan) auto
    moreover have "work pc' da < work pc da" using afterRead_work [OF z(3), of da] Writing st by simp
    moreover have "pc' \<noteq> Crashed \<and> pc' \<noteq> Sent \<and> (\<forall>r. pc' \<noteq> Sending r)"
      using z(3) st by (cases r) (auto simp: afterRead_def)
    ultimately show ?thesis using assms(3,7) all(2) st
      by (intro exI [of _ da] exI [of _ "x @ bs"]) simp
  next
    case (some k e t1 j)
    then have st: "pc' = HalfClosing (Some e)" "t' = t1" "s' = s" using assms(8) Writing by (auto simp: copyStep_def)
    have "prefix (x @ take j bs) d0"
      unfolding z(1) by (simp add: prefix_def) (metis append.assoc append_take_drop_id)
    then show ?thesis using assms(3,7) some(2) st Writing
      by (intro exI [of _ da] exI [of _ "x @ take j bs"]) simp
  qed
next
  case (HalfClosing c)
  show ?thesis
  proof (cases "ep_CloseWrite B")
    case None
    then have "pc' = Deciding c None" "t' = t" "s' = s" using assms(8) HalfClosing by (auto simp: copyStep_def)
    then show ?thesis using assms(3,4,6,7) HalfClosing by (intro exI [of _ da] exI [of _ x]) simp
  next
    case (Some f)
    obtain m t1 where f: "f t = (m, t1)" by fastforce
    then have m: "m \<noteq> Panic" "IB t1 db wb" using byte_endpoint.closeWrite [OF eb Some assms(4)] by auto
    then obtain e where "pc' = Deciding c e" "t' = t1" "s' = s"
      using assms(8) HalfClosing Some f by (cases m) (auto simp: copyStep_def)
    then show ?thesis using assms(3,6,7) m HalfClosing by (intro exI [of _ da] exI [of _ x]) simp
  qed
qed (use assms in \<open>auto simp: copyStep_def\<close>)

section \<open>Both directions\<close>

definition failed :: "oneWay_pc \<Rightarrow> bool" where
  "failed pc \<longleftrightarrow> (\<exists>e. pc = Sending (Some e))"

definition finished :: "oneWay_pc \<Rightarrow> nat" where
  "finished pc = (if pc = Sent then 1 else 0)"

text \<open>
  The invariant: both directions, the abort flag that is set exactly when an error has been
  decided, the channel, and the number of steps still possible.
\<close>

definition proxy_inv ::
    "('a \<Rightarrow> bytes \<Rightarrow> bytes \<Rightarrow> bool) \<Rightarrow> ('b \<Rightarrow> bytes \<Rightarrow> bytes \<Rightarrow> bool) \<Rightarrow> bytes \<Rightarrow> bytes \<Rightarrow> bytes \<Rightarrow> bytes \<Rightarrow>
     nat \<Rightarrow> ('a, 'b) proxy \<Rightarrow> bool" where
  "proxy_inv IA IB da0 wa0 db0 wb0 budget s \<longleftrightarrow>
     (\<exists>da db x y. IA (px_a s) da (wa0 @ y) \<and> IB (px_b s) db (wb0 @ x) \<and>
        chan (px_ab s) (px_aborted s) da0 da x \<and> chan (px_ba s) (px_aborted s) db0 db y \<and>
        work (px_ab s) da + work (px_ba s) db \<le> budget) \<and>
     (px_aborted s \<longleftrightarrow> failed (px_ab s) \<or> failed (px_ba s) \<or> (\<exists>e. Some e \<in> set (px_done s))) \<and>
     length (px_done s) = finished (px_ab s) + finished (px_ba s)"

lemma proxy_invI:
  assumes "IA (px_a s) da (wa0 @ y)" "IB (px_b s) db (wb0 @ x)"
    and "chan (px_ab s) (px_aborted s) da0 da x" "chan (px_ba s) (px_aborted s) db0 db y"
    and "work (px_ab s) da + work (px_ba s) db \<le> m"
    and "px_aborted s \<longleftrightarrow> failed (px_ab s) \<or> failed (px_ba s) \<or> (\<exists>e. Some e \<in> set (px_done s))"
    and "length (px_done s) = finished (px_ab s) + finished (px_ba s)"
  shows "proxy_inv IA IB da0 wa0 db0 wb0 m s"
  unfolding proxy_inv_def using assms by blast

lemma proxy_inv_mirror: "proxy_inv IB IA db0 wb0 da0 wa0 m (mirror s) = proxy_inv IA IB da0 wa0 db0 wb0 m s"
  unfolding proxy_inv_def mirror_def by (auto simp: add.commute)

lemma mirror_simps [simp]:
  "px_a (mirror s) = px_b s" "px_b (mirror s) = px_a s" "px_ab (mirror s) = px_ba s" "px_ba (mirror s) = px_ab s"
  "px_aborted (mirror s) = px_aborted s" "px_done (mirror s) = px_done s" "mirror (mirror s) = s"
  by (simp_all add: mirror_def)

lemma proxy_inv_start:
  assumes "IA a da wa" "IB b db wb"
  shows "proxy_inv IA IB da wa db wb (2 * length da + 2 * length db + 8) (startProxy a b)"
  by (rule proxy_invI [where da = da and db = db and x = "[]" and y = "[]"])
    (use assms in \<open>simp_all add: startProxy_def failed_def finished_def\<close>)

lemma proxy_inv_not_crashed: "proxy_inv IA IB da0 wa0 db0 wb0 m s \<Longrightarrow> px_ab s \<noteq> Crashed \<and> px_ba s \<noteq> Crashed"
  by (auto simp: proxy_inv_def)

lemma proxyOneWay_keeps:
  assumes ea: "byte_endpoint A IA" and eb: "byte_endpoint B IB"
    and inv: "proxy_inv IA IB da0 wa0 db0 wb0 m s" and "0 < n" and step: "proxyOneWay B A n s = Some s'"
  shows "\<exists>m'. m = Suc m' \<and> proxy_inv IA IB da0 wa0 db0 wb0 m' s'"
proof -
  obtain da db x y where i: "IA (px_a s) da (wa0 @ y)" "IB (px_b s) db (wb0 @ x)"
      "chan (px_ab s) (px_aborted s) da0 da x" "chan (px_ba s) (px_aborted s) db0 db y"
      "work (px_ab s) da + work (px_ba s) db \<le> m"
    and ab: "px_aborted s \<longleftrightarrow> failed (px_ab s) \<or> failed (px_ba s) \<or> (\<exists>e. Some e \<in> set (px_done s))"
    and len: "length (px_done s) = finished (px_ab s) + finished (px_ba s)"
    using inv unfolding proxy_inv_def by blast
  show ?thesis
  proof (cases "\<exists>c e. px_ab s = Deciding c e")
    case True
    then obtain c e where pc: "px_ab s = Deciding c e" by blast
    let ?r = "if c \<noteq> None then c else e"
    obtain m' where m': "m = Suc m'" "1 + work (px_ba s) db \<le> m'" using i(5) pc by (cases m) auto
    show ?thesis
    proof (cases "?r = None \<or> px_aborted s")
      case True
      then have s': "s' = s\<lparr>px_ab := Sending ?r\<rparr>" using step pc by (auto simp: proxyOneWay_def abort_def split: if_splits)
      have "chan (Sending ?r) (px_aborted s) da0 da x"
        using i(3) True pc by (auto split: if_splits)
      moreover have "px_aborted s \<longleftrightarrow> failed (Sending ?r) \<or> failed (px_ba s) \<or> (\<exists>e. Some e \<in> set (px_done s))"
        using ab True pc by (cases ?r) (auto simp: failed_def)
      ultimately have "proxy_inv IA IB da0 wa0 db0 wb0 m' s'"
        using i(1,2,4) m' len pc unfolding s'
        by (intro proxy_invI [where da = da and db = db and x = x and y = y]) (simp_all add: finished_def)
      then show ?thesis using m'(1) by blast
    next
      case False
      then have s': "s' = s\<lparr>px_aborted := True, px_a := callOpt (ep_Abort A) (px_a s),
          px_b := callOpt (ep_Abort B) (px_b s), px_ab := Sending ?r\<rparr>"
        using step pc by (auto simp: proxyOneWay_def abort_def split: if_splits)
      obtain da' where da': "prefix da' da" "IA (callOpt (ep_Abort A) (px_a s)) da' (wa0 @ y)"
        using byte_endpoint.abort_opt [OF ea i(1)] by blast
      obtain db' where db': "prefix db' db" "IB (callOpt (ep_Abort B) (px_b s)) db' (wb0 @ x)"
        using byte_endpoint.abort_opt [OF eb i(2)] by blast
      have "chan (Sending ?r) True da0 da' x" using chan_prefix [OF i(3)] by simp
      moreover have "chan (px_ba s) True db0 db' y" using chan_abort [OF i(4) db'(1)] .
      moreover have "1 + work (px_ba s) db' \<le> m'" using work_prefix [OF db'(1), of "px_ba s"] m'(2) by simp
      moreover have "failed (Sending ?r)" using False by (auto simp: failed_def)
      ultimately have "proxy_inv IA IB da0 wa0 db0 wb0 m' s'"
        using da'(2) db'(2) len pc unfolding s'
        by (intro proxy_invI [where da = da' and db = db' and x = x and y = y]) (simp_all add: finished_def)
      then show ?thesis using m'(1) by blast
    qed
  next
    case False
    show ?thesis
    proof (cases "\<exists>r. px_ab s = Sending r")
      case True
      then obtain r where pc: "px_ab s = Sending r" by blast
      then have s': "s' = s\<lparr>px_ab := Sent, px_done := px_done s @ [r]\<rparr>" using step by (auto simp: proxyOneWay_def)
      obtain m' where m': "m = Suc m'" "work (px_ba s) db \<le> m'" using i(5) pc by (cases m) auto
      have "px_aborted s \<longleftrightarrow> failed Sent \<or> failed (px_ba s) \<or> (\<exists>e. Some e \<in> set (px_done s @ [r]))"
        using ab pc by (cases r) (auto simp: failed_def)
      then have "proxy_inv IA IB da0 wa0 db0 wb0 m' s'"
        using i m'(2) len pc unfolding s'
        by (intro proxy_invI [where da = da and db = db and x = x and y = y]) (simp_all add: finished_def)
      then show ?thesis using m'(1) by blast
    next
      case other: False
      then obtain pc t u where c: "copyStep B A n (px_ab s) (px_b s) (px_a s) = Some (pc, t, u)"
          "s' = s\<lparr>px_ab := pc, px_b := t, px_a := u\<rparr>"
        using step False by (cases "px_ab s") (auto simp: proxyOneWay_def split: option.splits prod.splits)
      obtain da' x' where k: "IA u da' (wa0 @ y)" "IB t db (wb0 @ x')" "chan pc (px_aborted s) da0 da' x'"
          "work pc da' < work (px_ab s) da" "pc \<noteq> Crashed" "pc \<noteq> Sent" "\<forall>r. pc \<noteq> Sending r"
        using copyStep_keeps [OF ea eb i(1,2) assms(4) i(3) refl c(1)] by blast
      have "px_ab s \<noteq> Sent" using c(1) by (auto simp: copyStep_def)
      then have f: "finished (px_ab s) = finished pc" "failed (px_ab s) = failed pc"
        using k(6,7) other by (auto simp: finished_def failed_def)
      obtain m' where m': "m = Suc m'" "work pc da' + work (px_ba s) db \<le> m'" using i(5) k(4) by (cases m) auto
      have "proxy_inv IA IB da0 wa0 db0 wb0 m' s'"
        using i(4) m'(2) k(1-3) ab len f unfolding c(2)
        by (intro proxy_invI [where da = da' and db = db and x = x' and y = y]) simp_all
      then show ?thesis using m'(1) by blast
    qed
  qed
qed

end
