(* ===== verification/Proxyio_Properties.thy ===== *)
theory Proxyio_Properties
  imports Proxyio_Lemmas E2E_Record_Lemmas
begin

text \<open>
  What the byte proxy guarantees, for any two endpoints that keep the contract
  \<open>byte_endpoint\<close>, and that network connections and QUIC streams keep it when the libraries
  behave as documented.
\<close>

section \<open>The endpoints of the program\<close>

text \<open>
  The documented behaviour of the calls on a connection, in terms of what it has still to
  deliver and what it has accepted: a read returns at least one byte or an error, and the end
  of the stream only when all has been delivered; a write without error accepts everything;
  nothing panics; closing or cancelling loses no byte already accepted.
\<close>

definition read_law :: "(nat \<Rightarrow> 's \<Rightarrow> (bytes \<times> unit res) \<times> 's) \<Rightarrow> ('s \<Rightarrow> bytes \<Rightarrow> bytes \<Rightarrow> bool) \<Rightarrow> bool" where
  "read_law rd J \<longleftrightarrow> (\<forall>s d w n bs r s'. J s d w \<longrightarrow> 0 < n \<longrightarrow> rd n s = ((bs, r), s') \<longrightarrow>
     r \<noteq> Panic \<and> (bs = [] \<longrightarrow> r \<noteq> Ok ()) \<and> (\<exists>d'. d = bs @ d' \<and> (r = Err EOF \<longrightarrow> d' = []) \<and> J s' d' w))"

definition write_law :: "(bytes \<Rightarrow> 's \<Rightarrow> ((nat \<times> unit res) \<times> 's) option) \<Rightarrow> ('s \<Rightarrow> bytes \<Rightarrow> bytes \<Rightarrow> bool) \<Rightarrow> bool" where
  "write_law wr J \<longleftrightarrow> (\<forall>s d w bs. J s d w \<longrightarrow>
     (\<exists>s'. wr bs s = Some ((length bs, Ok ()), s') \<and> J s' d (w @ bs)) \<or>
     (\<exists>k e s' j. wr bs s = Some ((k, Err e), s') \<and> J s' d (w @ take j bs)))"

definition close_law :: "('s \<Rightarrow> unit res \<times> 's) \<Rightarrow> ('s \<Rightarrow> bytes \<Rightarrow> bytes \<Rightarrow> bool) \<Rightarrow> bool" where
  "close_law f J \<longleftrightarrow> (\<forall>s d w. J s d w \<longrightarrow> fst (f s) \<noteq> Panic \<and> J (snd (f s)) d w)"

definition cancel_law :: "('s \<Rightarrow> 's) \<Rightarrow> ('s \<Rightarrow> bytes \<Rightarrow> bytes \<Rightarrow> bool) \<Rightarrow> bool" where
  "cancel_law f J \<longleftrightarrow> (\<forall>s d w. J s d w \<longrightarrow> (\<exists>d'. prefix d' d \<and> J (f s) d' w))"

definition net_laws :: "'s net_ops \<Rightarrow> ('s \<Rightarrow> bytes \<Rightarrow> bytes \<Rightarrow> bool) \<Rightarrow> bool" where
  "net_laws conn J \<longleftrightarrow> read_law (no_Read conn) J \<and> write_law (no_Write conn) J \<and> close_law (no_Close conn) J \<and>
     (\<forall>f. no_CloseWrite conn = Some f \<longrightarrow> close_law f J)"

definition quic_laws :: "'s quic_ops \<Rightarrow> ('s \<Rightarrow> bytes \<Rightarrow> bytes \<Rightarrow> bool) \<Rightarrow> bool" where
  "quic_laws stream J \<longleftrightarrow> read_law (qo_Read stream) J \<and> write_law (qo_Write stream) J \<and> close_law (qo_Close stream) J \<and>
     cancel_law (qo_CancelRead stream) J \<and> cancel_law (qo_CancelWrite stream) J"

lemma read_lawD:
  assumes "read_law rd J" "J s d w" "0 < n" "rd n s = ((bs, r), s')"
  shows "r \<noteq> Panic \<and> (bs = [] \<longrightarrow> r \<noteq> Ok ()) \<and> (\<exists>d'. d = bs @ d' \<and> (r = Err EOF \<longrightarrow> d' = []) \<and> J s' d' w)"
  using assms(1) [unfolded read_law_def, rule_format, OF assms(2-4)] .

lemma write_lawD:
  assumes "write_law wr J" "J s d w"
  shows "(\<exists>s'. wr bs s = Some ((length bs, Ok ()), s') \<and> J s' d (w @ bs)) \<or>
    (\<exists>k e s' j. wr bs s = Some ((k, Err e), s') \<and> J s' d (w @ take j bs))"
  using assms unfolding write_law_def by blast

lemma close_lawD:
  assumes "close_law f J" "J s d w" "f s = (r, s')"
  shows "r \<noteq> Panic \<and> J s' d w"
  using assms(1) [unfolded close_law_def, rule_format, OF assms(2)] assms(3) by simp

lemma cancel_then:
  assumes "cancel_law f J" "cancel_law g J" "J s d w"
  shows "\<exists>d'. prefix d' d \<and> J (g (f s)) d' w"
  using assms unfolding cancel_law_def by (meson prefix_order.trans)

lemma close_cancel: "close_law f J \<Longrightarrow> cancel_law (\<lambda>s. snd (f s)) J"
  unfolding close_law_def cancel_law_def by blast

interpretation net_endpoint: byte_endpoint "NetConnEndpoint conn" "\<lambda>s d w. net_laws conn J \<and> J s d w" for conn J
proof
  fix s d w n bs r s'
  assume "net_laws conn J \<and> J s d w" "0 < n" "ep_Reader (NetConnEndpoint conn) n s = ((bs, r), s')"
  then show "r \<noteq> Panic \<and> (bs = [] \<longrightarrow> r \<noteq> Ok ()) \<and>
      (\<exists>d'. (net_laws conn J \<and> J s' d' w) \<and>
        (d = bs @ d' \<and> (r = Err EOF \<longrightarrow> d' = []) \<or> bs = [] \<and> r \<noteq> Ok () \<and> (r = Err EOF \<longrightarrow> d = [])))"
    using read_lawD [of "no_Read conn" J s d w n bs r s'] by (auto simp: net_laws_def NetConnEndpoint_def)
next
  fix s d w bs
  assume a: "net_laws conn J \<and> J s d w"
  then have "write_law (no_Write conn) J" by (simp add: net_laws_def)
  from write_lawD [OF this, of s d w bs] a
  show "(\<exists>s'. ep_Writer (NetConnEndpoint conn) bs s = Some ((length bs, Ok ()), s') \<and> net_laws conn J \<and> J s' d (w @ bs)) \<or>
      (\<exists>k e s' j. ep_Writer (NetConnEndpoint conn) bs s = Some ((k, Err e), s') \<and> net_laws conn J \<and> J s' d (w @ take j bs))"
    by (simp add: NetConnEndpoint_def)
next
  fix f s d w r s'
  assume a: "ep_CloseWrite (NetConnEndpoint conn) = Some f" "net_laws conn J \<and> J s d w" "f s = (r, s')"
  have "close_law (closeNetConnWrite conn) J"
    using a(2) by (cases "no_CloseWrite conn") (auto simp: net_laws_def closeNetConnWrite_def close_law_def)
  then show "r \<noteq> Panic \<and> net_laws conn J \<and> J s' d w"
    using a close_lawD [of f J s d w r s'] by (simp add: NetConnEndpoint_def)
next
  fix g s d w
  assume a: "ep_Abort (NetConnEndpoint conn) = Some g" "net_laws conn J \<and> J s d w"
  then have "cancel_law g J" by (auto simp: NetConnEndpoint_def net_laws_def intro: close_cancel)
  then show "\<exists>d'. prefix d' d \<and> net_laws conn J \<and> J (g s) d' w"
    using a(2) unfolding cancel_law_def by blast
qed

interpretation quic_endpoint: byte_endpoint "QUICStreamEndpoint stream" "\<lambda>s d w. quic_laws stream J \<and> J s d w" for stream J
proof
  fix s d w n bs r s'
  assume "quic_laws stream J \<and> J s d w" "0 < n" "ep_Reader (QUICStreamEndpoint stream) n s = ((bs, r), s')"
  then show "r \<noteq> Panic \<and> (bs = [] \<longrightarrow> r \<noteq> Ok ()) \<and>
      (\<exists>d'. (quic_laws stream J \<and> J s' d' w) \<and>
        (d = bs @ d' \<and> (r = Err EOF \<longrightarrow> d' = []) \<or> bs = [] \<and> r \<noteq> Ok () \<and> (r = Err EOF \<longrightarrow> d = [])))"
    using read_lawD [of "qo_Read stream" J s d w n bs r s'] by (auto simp: quic_laws_def QUICStreamEndpoint_def)
next
  fix s d w bs
  assume a: "quic_laws stream J \<and> J s d w"
  then have "write_law (qo_Write stream) J" by (simp add: quic_laws_def)
  from write_lawD [OF this, of s d w bs] a
  show "(\<exists>s'. ep_Writer (QUICStreamEndpoint stream) bs s = Some ((length bs, Ok ()), s') \<and> quic_laws stream J \<and> J s' d (w @ bs)) \<or>
      (\<exists>k e s' j. ep_Writer (QUICStreamEndpoint stream) bs s = Some ((k, Err e), s') \<and> quic_laws stream J \<and> J s' d (w @ take j bs))"
    by (simp add: QUICStreamEndpoint_def)
next
  fix f s d w r s'
  assume "ep_CloseWrite (QUICStreamEndpoint stream) = Some f" "quic_laws stream J \<and> J s d w" "f s = (r, s')"
  then show "r \<noteq> Panic \<and> quic_laws stream J \<and> J s' d w"
    using close_lawD [of f J s d w r s'] by (auto simp: QUICStreamEndpoint_def quic_laws_def)
next
  fix g s d w
  assume a: "ep_Abort (QUICStreamEndpoint stream) = Some g" "quic_laws stream J \<and> J s d w"
  then have c: "close_law (qo_Close stream) J" "cancel_law (qo_CancelRead stream) J" "cancel_law (qo_CancelWrite stream) J"
    by (simp_all add: quic_laws_def)
  obtain d' where d': "prefix d' d" "J (qo_CancelWrite stream (qo_CancelRead stream s)) d' w"
    using cancel_then [OF c(2,3)] a(2) by blast
  then have "J (g s) d' w"
    using a(1) c(1) by (auto simp: QUICStreamEndpoint_def close_law_def)
  then show "\<exists>d'. prefix d' d \<and> quic_laws stream J \<and> J (g s) d' w"
    using a(2) d'(1) by blast
qed

section \<open>Runs\<close>

lemma copyStep_possible:
  assumes "byte_endpoint B IB" "IB t db w"
    and "pc \<noteq> Sent" "pc \<noteq> Crashed" "\<forall>c e. pc \<noteq> Deciding c e" "\<forall>r. pc \<noteq> Sending r"
  shows "\<exists>pc' t' s'. copyStep B A n pc t s = Some (pc', t', s')"
proof (cases pc)
  case Copying
  then show ?thesis by (cases "ep_Reader A n s"; cases "fst (ep_Reader A n s)") (simp add: copyStep_def)
next
  case (Writing bs r)
  obtain k m t' where "ep_Writer B bs t = Some ((k, m), t')"
    using byte_endpoint.write' [OF assms(1,2), of bs] by metis
  then show ?thesis using Writing by (simp add: copyStep_def)
next
  case (HalfClosing c)
  show ?thesis
  proof (cases "ep_CloseWrite B")
    case (Some f)
    then show ?thesis
      using HalfClosing by (cases "f t"; cases "fst (f t)") (simp_all add: copyStep_def)
  qed (simp add: copyStep_def HalfClosing)
qed (use assms(3-6) in simp_all)

lemma proxyOneWay_possible:
  assumes "byte_endpoint B IB" "proxy_inv IA IB da0 wa0 db0 wb0 m s" "px_ab s \<noteq> Sent"
  shows "\<exists>s'. proxyOneWay B A n s = Some s'"
proof -
  obtain db w where b: "IB (px_b s) db w" using assms(2) unfolding proxy_inv_def by blast
  have nc: "px_ab s \<noteq> Crashed" using proxy_inv_not_crashed [OF assms(2)] by blast
  show ?thesis
  proof (cases "(\<exists>c e. px_ab s = Deciding c e) \<or> (\<exists>r. px_ab s = Sending r)")
    case True
    then show ?thesis by (auto simp: proxyOneWay_def)
  next
    case False
    then obtain pc t u where "copyStep B A n (px_ab s) (px_b s) (px_a s) = Some (pc, t, u)"
      using copyStep_possible [OF assms(1) b assms(3) nc, where A = A and n = n and s = "px_a s"] by blast
    then show ?thesis using False assms(3) nc by (cases "px_ab s") (simp_all add: proxyOneWay_def)
  qed
qed

lemma proxyOtherWay_keeps:
  assumes "byte_endpoint A IA" "byte_endpoint B IB"
    and "proxy_inv IA IB da0 wa0 db0 wb0 m s" "0 < n" "proxyOtherWay A B n s = Some s'"
  shows "\<exists>m'. m = Suc m' \<and> proxy_inv IA IB da0 wa0 db0 wb0 m' s'"
proof -
  obtain t where t: "proxyOneWay A B n (mirror s) = Some t" "s' = mirror t"
    using assms(5) by (auto simp: proxyOtherWay_def)
  have "proxy_inv IB IA db0 wb0 da0 wa0 m (mirror s)" using assms(3) by (simp add: proxy_inv_mirror)
  from proxyOneWay_keeps [OF assms(2,1) this assms(4) t(1)] show ?thesis
    by (metis proxy_inv_mirror mirror_simps(7) t(2))
qed

lemma proxy_run_inv:
  assumes "byte_endpoint A IA" "byte_endpoint B IB" "IA a da wa" "IB b db wb"
  shows "proxy_run A B (startProxy a b) k s \<Longrightarrow>
    \<exists>m. k + m = 2 * length da + 2 * length db + 8 \<and> proxy_inv IA IB da wa db wb m s"
proof (induction rule: proxy_run.induct)
  case start
  show ?case using proxy_inv_start [of IA a da wa IB b db wb] assms(3,4) by simp
next
  case (forward k s n s')
  then obtain m where m: "k + m = 2 * length da + 2 * length db + 8" "proxy_inv IA IB da wa db wb m s" by blast
  from proxyOneWay_keeps [OF assms(1,2) m(2) forward.hyps(4,5)] m(1) show ?case by force
next
  case (backward k s n s')
  then obtain m where m: "k + m = 2 * length da + 2 * length db + 8" "proxy_inv IA IB da wa db wb m s" by blast
  from proxyOtherWay_keeps [OF assms(1,2) m(2) backward.hyps(4,5)] m(1) show ?case by force
qed

lemma proxyReturn_Some:
  "proxyReturn A B s = Some (r, s') \<Longrightarrow> \<exists>e1 e2. px_done s = [e1, e2] \<and> (r = None \<longleftrightarrow> e1 = None \<and> e2 = None)"
  by (auto simp: proxyReturn_def split: list.splits if_splits)

section \<open>Properties\<close>

lemma proxy_pipe:
  assumes "byte_endpoint A IA" "byte_endpoint B IB" "IA a da wa" "IB b db wb"
    and "proxy_run A B (startProxy a b) k s"
  shows "\<exists>ra rb x y. IA (px_a s) ra (wa @ y) \<and> IB (px_b s) rb (wb @ x) \<and> prefix x da \<and> prefix y db \<and>
    px_ab s \<noteq> Crashed \<and> px_ba s \<noteq> Crashed \<and>
    (\<not> px_aborted s \<and> px_ab s \<in> {HalfClosing None, Deciding None None, Sending None, Sent} \<longrightarrow> x = da) \<and>
    (\<not> px_aborted s \<and> px_ba s \<in> {HalfClosing None, Deciding None None, Sending None, Sent} \<longrightarrow> y = db) \<and>
    (\<forall>r s'. proxyReturn A B s = Some (r, s') \<longrightarrow> (if r = None then x = da \<and> y = db else px_aborted s))"
proof -
  obtain m where inv: "proxy_inv IA IB da wa db wb m s"
    using proxy_run_inv [OF assms(1-4,5)] by blast
  then obtain ra rb x y where i: "IA (px_a s) ra (wa @ y)" "IB (px_b s) rb (wb @ x)"
      "chan (px_ab s) (px_aborted s) da ra x" "chan (px_ba s) (px_aborted s) db rb y"
    and ab: "px_aborted s \<longleftrightarrow> failed (px_ab s) \<or> failed (px_ba s) \<or> (\<exists>e. Some e \<in> set (px_done s))"
    and len: "length (px_done s) = finished (px_ab s) + finished (px_ba s)"
    unfolding proxy_inv_def by blast
  have ended: "z = d0" if "chan pc (px_aborted s) d0 d z" "\<not> px_aborted s"
    "pc \<in> {HalfClosing None, Deciding None None, Sending None, Sent}" for pc d0 d z
    using that by auto
  have ret: "if r = None then x = da \<and> y = db else px_aborted s" if r: "proxyReturn A B s = Some (r, s')" for r s'
  proof -
    obtain e1 e2 where e: "px_done s = [e1, e2]" "r = None \<longleftrightarrow> e1 = None \<and> e2 = None"
      using proxyReturn_Some [OF r] by blast
    then have sent: "px_ab s = Sent" "px_ba s = Sent" using len by (auto simp: finished_def split: if_splits)
    have "px_aborted s \<longleftrightarrow> r \<noteq> None"
      using ab e sent by (cases e1; cases e2) (auto simp: failed_def)
    then show ?thesis using ended [OF i(3)] ended [OF i(4)] sent by auto
  qed
  show ?thesis
    using i(1,2) chan_prefix [OF i(3)] chan_prefix [OF i(4)] proxy_inv_not_crashed [OF inv]
      ended [OF i(3)] ended [OF i(4)] ret by blast
qed

text \<open>
  C12: the proxy is a faithful pipe. In every interleaving of the two copying goroutines, each
  end has accepted a prefix of what the other end had to deliver: nothing is altered,
  reordered, duplicated or invented, and neither goroutine panics. When one direction has seen
  the end of its source and no error occurred, everything of that direction has arrived, whether
  or not the other direction is still running. If \<open>Proxy\<close> returns without error, both directions
  are complete and nothing was aborted; if it returns an error, both endpoints were aborted.
\<close>

theorem proxy_delivers:
  assumes "byte_endpoint A IA" "byte_endpoint B IB" "IA a da wa" "IB b db wb"
    and "proxy_run A B (startProxy a b) k s"
  shows "\<exists>ra rb x y. IA (px_a s) ra (wa @ y) \<and> IB (px_b s) rb (wb @ x) \<and> prefix x da \<and> prefix y db \<and>
    px_ab s \<noteq> Crashed \<and> px_ba s \<noteq> Crashed \<and>
    (\<not> px_aborted s \<and> px_ab s \<in> {HalfClosing None, Deciding None None, Sending None, Sent} \<longrightarrow> x = da) \<and>
    (\<not> px_aborted s \<and> px_ba s \<in> {HalfClosing None, Deciding None None, Sending None, Sent} \<longrightarrow> y = db) \<and>
    (\<forall>r s'. proxyReturn A B s = Some (r, s') \<longrightarrow> (if r = None then x = da \<and> y = db else px_aborted s))"
  using proxy_pipe [OF assms] .

text \<open>A run given by its schedule: \<open>True\<close> steps the goroutine from \<open>a\<close> to \<open>b\<close>.\<close>

fun scheduled :: "'a Endpoint \<Rightarrow> 'b Endpoint \<Rightarrow> nat \<Rightarrow> bool list \<Rightarrow> ('a, 'b) proxy \<Rightarrow> ('a, 'b) proxy option" where
  "scheduled A B n [] s = Some s"
| "scheduled A B n (fwd # later) s =
     (if px_ab s = Crashed \<or> px_ba s = Crashed then None
      else case (if fwd then proxyOneWay B A n s else proxyOtherWay A B n s) of
        None \<Rightarrow> None
      | Some s \<Rightarrow> scheduled A B n later s)"

lemma scheduled_run:
  assumes "0 < n"
  shows "proxy_run A B s0 k s \<Longrightarrow> scheduled A B n sched s = Some s' \<Longrightarrow> proxy_run A B s0 (k + length sched) s'"
proof (induction sched arbitrary: k s)
  case (Cons fwd later)
  then obtain t where t: "(if fwd then proxyOneWay B A n s else proxyOtherWay A B n s) = Some t"
      "scheduled A B n later t = Some s'" "px_ab s \<noteq> Crashed" "px_ba s \<noteq> Crashed"
    by (auto split: if_splits option.splits)
  then have "proxy_run A B s0 (Suc k) t"
    using proxy_run.forward [OF Cons.prems(1) t(3,4) assms, of t] proxy_run.backward [OF Cons.prems(1) t(3,4) assms, of t]
    by (cases fwd) simp_all
  from Cons.IH [OF this t(2)] show ?case by simp
qed simp

text \<open>A connection in memory: what it delivers and what it has accepted.\<close>

definition toy_read :: "nat \<Rightarrow> bytes \<times> bytes \<Rightarrow> (bytes \<times> unit res) \<times> bytes \<times> bytes" where
  "toy_read n s = (if fst s = [] then (([], Err EOF), s) else ((take n (fst s), Ok ()), (drop n (fst s), snd s)))"

definition toy_write :: "bytes \<Rightarrow> bytes \<times> bytes \<Rightarrow> ((nat \<times> unit res) \<times> bytes \<times> bytes) option" where
  "toy_write bs s = Some ((length bs, Ok ()), (fst s, snd s @ bs))"

definition toy_net :: "(bytes \<times> bytes) net_ops" where
  "toy_net = \<lparr>no_Read = toy_read, no_Write = toy_write, no_CloseWrite = Some (\<lambda>s. (Ok (), s)), no_Close = (\<lambda>s. (Ok (), s))\<rparr>"

definition toy_quic :: "(bytes \<times> bytes) quic_ops" where
  "toy_quic = \<lparr>qo_Read = toy_read, qo_Write = toy_write, qo_Close = (\<lambda>s. (Ok (), s)),
     qo_CancelRead = (\<lambda>s. s), qo_CancelWrite = (\<lambda>s. s)\<rparr>"

lemma toy_endpoint_laws:
  "net_laws toy_net (\<lambda>s d w. s = (d, w))" "quic_laws toy_quic (\<lambda>s d w. s = (d, w))"
proof -
  have "read_law toy_read (\<lambda>s d w. s = (d, w))" "write_law toy_write (\<lambda>s d w. s = (d, w))"
    by (auto simp: read_law_def write_law_def toy_read_def toy_write_def split: if_splits)
  then show "net_laws toy_net (\<lambda>s d w. s = (d, w))" "quic_laws toy_quic (\<lambda>s d w. s = (d, w))"
    by (simp_all add: net_laws_def quic_laws_def toy_net_def toy_quic_def close_law_def cancel_law_def)
qed

lemma toy_proxy:
  "scheduled (NetConnEndpoint toy_net) (QUICStreamEndpoint toy_quic) 8
     [True, False, True, False, True, True, False, False, True, True]
     (startProxy ([1, 2], []) ([], [])) =
   Some \<lparr>px_a = ([], []), px_b = ([], [1, 2]), px_ab = Sent, px_ba = Sent, px_aborted = False, px_done = [None, None]\<rparr>"
  by (simp add: startProxy_def NetConnEndpoint_def QUICStreamEndpoint_def toy_net_def toy_quic_def toy_read_def
      toy_write_def proxyOneWay_def proxyOtherWay_def copyStep_def afterRead_def closeNetConnWrite_def mirror_def)

theorem proxy_delivers_witness:
  "\<exists>s. proxy_run (NetConnEndpoint toy_net) (QUICStreamEndpoint toy_quic) (startProxy ([1, 2], []) ([], [])) 10 s \<and>
     proxyReturn (NetConnEndpoint toy_net) (QUICStreamEndpoint toy_quic) s = Some (None, s) \<and> snd (px_b s) = [1, 2]"
proof -
  let ?A = "NetConnEndpoint toy_net" and ?B = "QUICStreamEndpoint toy_quic" and ?start = "startProxy ([1, 2], []) ([], [])"
  let ?s = "\<lparr>px_a = ([], []), px_b = ([], [1, 2]), px_ab = Sent, px_ba = Sent, px_aborted = False, px_done = [None, None]\<rparr>"
  have run: "proxy_run ?A ?B ?start 10 ?s"
    using scheduled_run [OF _ proxy_run.start toy_proxy] by (simp add: eval_nat_numeral)
  have ret: "proxyReturn ?A ?B ?s = Some (None, ?s)"
    by (simp add: proxyReturn_def callOpt_def NetConnEndpoint_def QUICStreamEndpoint_def toy_net_def toy_quic_def)
  have "snd (px_b ?s) = [1, 2]"
    using proxy_delivers [OF net_endpoint.byte_endpoint_axioms quic_endpoint.byte_endpoint_axioms _ _ run,
        where da = "[1, 2]" and wa = "[]" and db = "[]" and wb = "[]"] toy_endpoint_laws ret
    by (auto simp: startProxy_def)
  then show ?thesis using run ret by blast
qed



section \<open>Encrypted streams\<close>

text \<open>
  A broken source ends an encrypted stream like a finished one. When reading the local
  side of an encrypted proxy fails with an error that is not the end of the stream, the next
  step still half-closes the destination: the encrypted writer sends the close frame with code
  OK, so that the far end's \<open>Read\<close> reports a regular end of file at this point; only after that
  are the endpoints aborted and the error returned.
\<close>

theorem copy_error_closes_cleanly:
  assumes "ep_Reader src n s = (([], Err e), s1)" "e \<noteq> EOF"
    and "reliable (ew_w (en_writer t))" "\<not> ew_closed (en_writer t)"
  shows "\<exists>t'. copyStep (encryptedEndpoint C stream) src n Copying t s = Some (HalfClosing (Some e), t, s1) \<and>
    copyStep (encryptedEndpoint C stream) src n (HalfClosing (Some e)) t s1 = Some (Deciding (Some e) None, t', s1) \<and>
    os_data (ew_w (en_writer t')) = os_data (ew_w (en_writer t)) @ frameBytes TypeE2EClose (closeBytes closeOK) \<and>
    (\<forall>r rest. er_buf r = [] \<longrightarrow> \<not> er_closed r \<longrightarrow> is_data (er_r r) = frameBytes TypeE2EClose (closeBytes closeOK) @ rest \<longrightarrow>
      fst (encRead C r n) = Err EOF)"
proof -
  let ?w = "(en_writer t)\<lparr>ew_closed := True, ew_w := (ew_w (en_writer t))\<lparr>os_data := os_data (ew_w (en_writer t)) @
     frameBytes TypeE2EClose (closeBytes closeOK)\<rparr>\<rparr>"
  have "fst (encRead C r n) = Err EOF"
    if "er_buf r = []" "\<not> er_closed r" "is_data (er_r r) = frameBytes TypeE2EClose (closeBytes closeOK) @ rest" for r rest
    using readStep_close [OF that(3) valid_closeOK, of C] that(1,2)
    by (simp add: encRead_def readLoop.simps [of C r] closeOK_def)
  then show ?thesis
    using encCloseWrite_reliable [OF assms(3,4)] assms(1,2)
    by (intro exI [of _ "t\<lparr>en_writer := ?w\<rparr>"])
      (simp add: copyStep_def encryptedEndpoint_def afterRead_def encCloseWriteOp_def)
qed

definition broken_net :: "unit net_ops" where
  "broken_net = \<lparr>no_Read = (\<lambda>n s. (([], Err (LibError ''connection reset'')), s)),
     no_Write = (\<lambda>bs s. Some ((length bs, Ok ()), s)), no_CloseWrite = None, no_Close = (\<lambda>s. (Ok (), s))\<rparr>"

definition toy_enc_conn :: enc_conn where
  "toy_enc_conn =
     \<lparr>en_reader = \<lparr>er_r = \<lparr>is_data = [], is_end = EOF\<rparr>, er_key = [], er_transcriptHash = [1], er_seq = 0, er_buf = [], er_closed = False\<rparr>,
      en_writer = \<lparr>ew_w = \<lparr>os_data = [], os_script = []\<rparr>, ew_key = [], ew_transcriptHash = [1], ew_maxPlaintext = 8, ew_seq = 0,
        ew_closed = False\<rparr>\<rparr>"

definition toy_raw :: raw_ops where
  "toy_raw = \<lparr>ra_CancelRead = (\<lambda>i. i\<lparr>is_data := [], is_end := LibError ''stream canceled''\<rparr>), ra_CancelWrite = (\<lambda>w. w), ra_Close = (\<lambda>w. w)\<rparr>"

theorem copy_error_closes_cleanly_witness:
  "\<exists>t'. copyStep (encryptedEndpoint toy_crypto toy_raw) (NetConnEndpoint broken_net) 8
      (HalfClosing (Some (LibError ''connection reset''))) toy_enc_conn () =
    Some (Deciding (Some (LibError ''connection reset'')) None, t', ()) \<and>
    os_data (ew_w (en_writer t')) = frameBytes TypeE2EClose (closeBytes closeOK)"
proof -
  have r: "ep_Reader (NetConnEndpoint broken_net) 8 () = (([], Err (LibError ''connection reset'')), ())"
    by (simp add: NetConnEndpoint_def broken_net_def)
  have w: "reliable (ew_w (en_writer toy_enc_conn))" "\<not> ew_closed (en_writer toy_enc_conn)"
    "os_data (ew_w (en_writer toy_enc_conn)) = []"
    by (simp_all add: toy_enc_conn_def)
  show ?thesis using copy_error_closes_cleanly [OF r _ w(1,2), of toy_crypto toy_raw] w(3) by auto
qed

end
