(* ===== verification/Proxyio_Encrypted.thy ===== *)
theory Proxyio_Encrypted
  imports Proxyio_Properties E2E_Session
begin

text \<open>
  The encrypted end of \<open>proxyEncryptedTCP\<close> keeps the contract of an endpoint: what its reader
  has still to deliver is the plaintext of the records at the front of its stream, what its
  writer has accepted is the plaintext of the records it put on its stream. Two such endpoints
  make a tunnel between the proxy of the client and the proxy of the egress server.
\<close>

section \<open>What a reader has still to deliver\<close>

lemma readStep_keeps_closed:
  assumes "readStep C r = (Ok u, r')"
  shows "er_closed r' = er_closed r"
  using assms
  by (auto simp: readStep_def openDataFrame_def pureThen_def seqR_def Let_def split: prod.splits res.splits if_splits)

function unread :: "crypto_lib \<Rightarrow> EncryptedReader \<Rightarrow> bytes" where
  "unread C r =
     (if er_closed r then []
      else case readStep C (r\<lparr>er_buf := []\<rparr>) of
        (Ok _, r') \<Rightarrow> er_buf r' @ unread C r'
      | (Err _, _) \<Rightarrow> []
      | (Panic, _) \<Rightarrow> [])"
  by pat_completeness auto
termination
  by (relation "measure (\<lambda>(C, r). length (is_data (er_r r)))") (auto dest: readStep_shorter [OF sym])

declare unread.simps [simp del]

definition plaintextOf :: "crypto_lib \<Rightarrow> EncryptedReader \<Rightarrow> bytes" where
  "plaintextOf C r = er_buf r @ unread C r"

lemma unread_buf [simp]: "unread C (r\<lparr>er_buf := b\<rparr>) = unread C r"
  by (simp add: unread.simps [of C r] unread.simps [of C "r\<lparr>er_buf := b\<rparr>"])

lemma readStep_cut:
  assumes "is_data (er_r r) = []" "readStep C r = (m, r')"
  shows "\<exists>e. m = Err e"
  using assms by (auto simp: readStep_def ReadFrame_def ReadFull_def pureThen_def seqR_def)

lemma unread_cut: "is_data (er_r r) = [] \<Longrightarrow> unread C r = []"
  using readStep_cut [of "r\<lparr>er_buf := []\<rparr>" C]
  by (cases "readStep C (r\<lparr>er_buf := []\<rparr>)") (auto simp: unread.simps [of C r])

lemma openDataFrame_ne_Panic: "gcm_laws C \<Longrightarrow> fst (openDataFrame C r p) \<noteq> Panic"
  by (auto simp: openDataFrame_def fst_pureThen_Panic wrapErr_eq_Panic DecodeE2EDataPayload_ne_Panic gcm_Open_ne_Panic
      Let_def split: if_splits)

lemma readStep_ne_Panic: "gcm_laws C \<Longrightarrow> fst (readStep C r) \<noteq> Panic"
  by (auto simp: readStep_def fst_pureThen_Panic fst_seqR_Panic openDataFrame_ne_Panic DecodeE2EClosePayload_ne_Panic
      Let_def split: prod.split if_splits) (metis ReadFrame_ne_Panic fst_conv)

lemma readLoop_ne_Panic: "gcm_laws C \<Longrightarrow> fst (readLoop C r n) \<noteq> Panic"
proof (induction C r n rule: readLoop.induct)
  case (1 C r n)
  then show ?case
    using readStep_ne_Panic [OF 1(2), of r]
    by (subst readLoop.simps) (auto simp: bufRead_def split: prod.split res.split)
qed

lemma encRead_ne_Panic: "gcm_laws C \<Longrightarrow> fst (encRead C r n) \<noteq> Panic"
  by (simp add: encRead_def readLoop_ne_Panic bufRead_def)

lemma bufRead_plaintext:
  assumes "bufRead r n = (m, r')" "er_buf r \<noteq> []" "0 < n"
  shows "\<exists>bs. m = Ok bs \<and> bs \<noteq> [] \<and> plaintextOf C r = bs @ plaintextOf C r'"
  using assms by (auto simp: bufRead_def plaintextOf_def)

lemma readLoop_plaintext:
  "readLoop C r n = (m, r') \<Longrightarrow> 0 < n \<Longrightarrow> \<not> er_closed r \<Longrightarrow> m \<noteq> Panic \<Longrightarrow>
   (\<exists>bs. m = Ok bs \<and> bs \<noteq> [] \<and> plaintextOf C r = bs @ plaintextOf C r') \<or>
   (\<exists>e. m = Err e \<and> plaintextOf C r = [])"
proof (induction C r n rule: readLoop.induct)
  case (1 C r n)
  show ?case
  proof (cases "er_buf r = []")
    case False
    then have "bufRead r n = (m, r')" using 1(2) by (subst (asm) readLoop.simps) simp
    from bufRead_plaintext [OF this False 1(3)] show ?thesis by blast
  next
    case True
    obtain m1 r1 where s: "readStep C r = (m1, r1)" by fastforce
    have s0: "readStep C (r\<lparr>er_buf := []\<rparr>) = (m1, r1)" using s True by (cases r) simp
    show ?thesis
    proof (cases m1)
      case (Ok u)
      then have l: "readLoop C r1 n = (m, r')"
        using 1(2) True s by (subst (asm) readLoop.simps) simp
      have "plaintextOf C r = plaintextOf C r1"
        using True s0 Ok 1(4) by (simp add: plaintextOf_def unread.simps [of C r])
      moreover have "\<not> er_closed r1" using readStep_keeps_closed s Ok 1(4) by blast
      ultimately show ?thesis
        using 1(1) [OF True s [symmetric] Ok l 1(3) _ 1(5)] by simp
    next
      case (Err e)
      then show ?thesis
        using True s s0 Err 1(2,4) by (auto simp add: plaintextOf_def unread.simps [of C r] readLoop.simps [of C r])
    next
      case Panic
      then show ?thesis using True s 1(2,5) by (simp add: readLoop.simps [of C r])
    qed
  qed
qed

lemma encRead_plaintext:
  assumes "encRead C r n = (m, r')" "0 < n" "m \<noteq> Panic"
  shows "(\<exists>bs. m = Ok bs \<and> bs \<noteq> [] \<and> plaintextOf C r = bs @ plaintextOf C r') \<or>
    (\<exists>e. m = Err e \<and> plaintextOf C r = [])"
proof (cases "er_buf r = []")
  case False
  then have "bufRead r n = (m, r')" using assms(1) by (simp add: encRead_def)
  from bufRead_plaintext [OF this False assms(2)] show ?thesis by blast
next
  case True
  show ?thesis
  proof (cases "er_closed r")
    case True
    then show ?thesis
      using assms(1) \<open>er_buf r = []\<close> unread.simps [of C r] by (auto simp: encRead_def plaintextOf_def)
  next
    case False
    then show ?thesis using readLoop_plaintext [of C r n m r'] assms True by (simp add: encRead_def)
  qed
qed

text \<open>The plaintext is that of the records at the front of the stream, and the other way round.\<close>

definition fits :: "bytes \<Rightarrow> bool" where
  "fits p \<longleftrightarrow> length p + gcm_Overhead \<le> MaxE2ECiphertextLength"

lemma valid_fits: "gcm_laws C \<Longrightarrow> valid_data (recordOf C k th s p) \<Longrightarrow> fits p"
  using length_gcm_Seal [of C k "recordNonce s" p "recordAAD th (nonceSuffix s)"]
  by (simp add: valid_data_def ok_field_def recordOf_def fits_def)

lemma accepted_buf [simp]: "accepted C (r\<lparr>er_buf := b\<rparr>) qs rest = accepted C r qs rest"
  by (simp add: accepted_def)

lemma unread_records:
  "gcm_laws C \<Longrightarrow> gcm_exact C \<Longrightarrow>
   \<exists>qs rest. accepted C r qs rest \<and> unread C r = concat qs \<and> (\<forall>q\<in>set qs. fits q)"
proof (induction C r rule: unread.induct)
  case (1 C r)
  let ?r = "r\<lparr>er_buf := []\<rparr>"
  obtain m r1 where s: "readStep C ?r = (m, r1)" by fastforce
  have none: ?case if "unread C r = []"
    using that accepted_Nil [of C r] by (intro exI [of _ "[]"] exI [of _ "is_data (er_r r)"]) simp
  show ?case
  proof (cases "er_closed r \<or> \<not> is_Ok m")
    case True
    then have "unread C r = []" using s by (cases m) (auto simp: unread.simps [of C r])
    then show ?thesis by (rule none)
  next
    case False
    then obtain u where m: "m = Ok u" and open': "\<not> er_closed r" by (cases m) auto
    obtain p where p: "advanced C ?r [p] r1" "er_buf r1 = p"
      using readStep_advanced [OF 1(3)] s m by fastforce
    obtain p' where "er_buf r1 = er_buf ?r @ p'" "valid_data (recordOf C (er_key ?r) (er_transcriptHash ?r) (er_seq ?r) p')"
      using readStep_Ok [OF 1(3)] s m by metis
    then have f: "fits p" using valid_fits [OF 1(2)] p(2) by simp
    obtain qs rest where q: "accepted C r1 qs rest" "unread C r1 = concat qs" "\<forall>q\<in>set qs. fits q"
      using 1(1) [OF open' s [symmetric] m 1(2,3)] by blast
    have "unread C r = concat (p # qs)"
      using open' s m p(2) q(2) by (simp add: unread.simps [of C r])
    moreover have "accepted C r (p # qs) rest"
      using advanced_accepted [OF p(1) q(1)] by simp
    ultimately show ?thesis using f q(3) by (intro exI [of _ "p # qs"] exI [of _ rest]) simp
  qed
qed

lemma unread_pending:
  assumes "gcm_laws C" "rest = [] \<or> rest = frameBytes TypeE2EClose (closeBytes closeOK)"
  shows "pending C r ps rest \<Longrightarrow> unread C r = concat ps"
proof (induction ps arbitrary: r)
  case Nil
  then have d: "is_data (er_r (r\<lparr>er_buf := []\<rparr>)) = rest" "\<not> er_closed r" by (simp_all add: pending_def)
  show ?case
  proof (cases "rest = []")
    case True
    then show ?thesis using unread_cut [of r C] d(1) by simp
  next
    case False
    then show ?thesis
      using readStep_close [of "r\<lparr>er_buf := []\<rparr>" closeOK "[]" C] valid_closeOK assms(2) d
      by (simp add: unread.simps [of C r])
  qed
next
  case (Cons p ps)
  have p: "pending C (r\<lparr>er_buf := []\<rparr>) (p # ps) rest" using Cons.prems by simp
  obtain r1 where r1: "readStep C (r\<lparr>er_buf := []\<rparr>) = (Ok (), r1)" "pending C r1 ps rest" "er_buf r1 = p"
    using readStep_pending [OF assms(1) p] by auto
  then show ?case
    using Cons.IH [OF r1(2)] Cons.prems by (simp add: unread.simps [of C r] pending_def)
qed

section \<open>Records determine what was sealed\<close>

lemma sealed_inject:
  assumes "gcm_laws C" "fits p" "fits q" "s \<noteq> - 1" "sealed C k th s p @ x = sealed C k th s q @ y"
  shows "p = q \<and> x = y"
proof -
  let ?r = "\<lparr>er_r = \<lparr>is_data = sealed C k th s p @ x, is_end = EOF\<rparr>, er_key = k, er_transcriptHash = th, er_seq = s,
    er_buf = [], er_closed = False\<rparr>"
  have "readStep C ?r = (Ok (), ?r\<lparr>er_r := (er_r ?r)\<lparr>is_data := x\<rparr>, er_seq := s + 1, er_buf := er_buf ?r @ p\<rparr>)"
    using readStep_sealed [of C ?r p x] assms(1,2,4) by (simp add: fits_def)
  moreover have "readStep C ?r = (Ok (), ?r\<lparr>er_r := (er_r ?r)\<lparr>is_data := y\<rparr>, er_seq := s + 1, er_buf := er_buf ?r @ q\<rparr>)"
    using readStep_sealed [of C ?r q y] assms(1,3-5) by (simp add: fits_def)
  ultimately show ?thesis by simp
qed

lemma sealed_not_close: "sealed C k th s p @ x \<noteq> frameBytes TypeE2EClose c @ y"
  by (simp add: sealed_def frameBytes_def qoru_consts)

lemma sealed_ne_Nil [simp]: "sealed C k th s p \<noteq> []"
  by (simp add: sealed_def frameBytes_def)

lemma records_prefix:
  assumes "gcm_laws C" "tail = [] \<or> (\<exists>c. tail = frameBytes TypeE2EClose c)"
  shows "prefix (recordsBytes C k th s qs) (recordsBytes C k th s ps @ tail) \<Longrightarrow> \<forall>q\<in>set qs. fits q \<Longrightarrow>
    \<forall>p\<in>set ps. fits p \<Longrightarrow> unat s + length qs < 2 ^ 64 \<Longrightarrow> prefix qs ps"
proof (induction qs arbitrary: ps s)
  case (Cons q qs)
  have room: "s \<noteq> - 1" "unat (s + 1) = unat s + 1" using Cons.prems(4) seq_room [of s 0] by simp_all
  obtain x where x: "sealed C k th s q @ recordsBytes C k th (s + 1) qs @ x = recordsBytes C k th s ps @ tail"
    using Cons.prems(1) by (auto simp: prefix_def)
  show ?case
  proof (cases ps)
    case Nil
    have "sealed C k th s q @ recordsBytes C k th (s + 1) qs @ x \<noteq> tail"
      using assms(2) sealed_not_close [of C k th s q _ _ "[]"] by auto
    then show ?thesis using x Nil by simp
  next
    case (Cons p ps')
    then have "sealed C k th s q @ recordsBytes C k th (s + 1) qs @ x =
        sealed C k th s p @ recordsBytes C k th (s + 1) ps' @ tail"
      using x by simp
    from sealed_inject [OF assms(1) _ _ room(1) this] have "q = p"
        "recordsBytes C k th (s + 1) qs @ x = recordsBytes C k th (s + 1) ps' @ tail"
      using Cons.prems(2,3) Cons by auto
    moreover from this(2) have "prefix (recordsBytes C k th (s + 1) qs) (recordsBytes C k th (s + 1) ps' @ tail)"
      by (metis prefixI)
    then have "prefix qs ps'"
      using Cons.IH [of "s + 1" ps'] Cons.prems(2-4) room(2) Cons by simp
    ultimately show ?thesis using Cons by simp
  qed
qed simp

section \<open>What a writer has put on its stream\<close>

text \<open>
  A writer that started at \<open>o0\<close> and has accepted \<open>acc\<close> has put there the records of \<open>acc\<close>, and
  perhaps the close frame once it is closed; after a write on the stream that failed in the
  middle of a frame, anything may follow the records of a prefix of \<open>acc\<close>. A stream is \<open>atomic\<close>
  when a write that fails has taken nothing, as on a stream that was cancelled or closed before.
\<close>

definition atomic :: "ostream \<Rightarrow> bool" where
  "atomic w \<longleftrightarrow> (\<forall>x\<in>set (os_script w). \<exists>e. x = WrFail 0 e)"

definition clean :: "crypto_lib \<Rightarrow> bytes \<Rightarrow> EncryptedWriter \<Rightarrow> bytes \<Rightarrow> bool" where
  "clean C o0 w acc \<longleftrightarrow> (\<exists>ps tail. concat ps = acc \<and> (\<forall>p\<in>set ps. fits p) \<and> length ps < 2 ^ 64 \<and>
     os_data (ew_w w) = o0 @ recordsBytes C (ew_key w) (ew_transcriptHash w) 0 ps @ tail \<and>
     (tail = [] \<or> ew_closed w \<and> tail = frameBytes TypeE2EClose (closeBytes closeOK)) \<and>
     (\<not> ew_closed w \<longrightarrow> ew_seq w = of_nat (length ps)))"

definition broken :: "crypto_lib \<Rightarrow> bytes \<Rightarrow> EncryptedWriter \<Rightarrow> bytes \<Rightarrow> bool" where
  "broken C o0 w acc \<longleftrightarrow> (\<exists>ps tail. prefix (concat ps) acc \<and> (\<forall>p\<in>set ps. fits p) \<and>
     os_data (ew_w w) = o0 @ recordsBytes C (ew_key w) (ew_transcriptHash w) 0 ps @ tail)"

definition writes_on :: "crypto_lib \<Rightarrow> bytes \<Rightarrow> bytes \<Rightarrow> bytes \<Rightarrow> bool \<Rightarrow> EncryptedWriter \<Rightarrow> bytes \<Rightarrow> bool" where
  "writes_on C o0 k th ok w acc \<longleftrightarrow> writer_ok w \<and> ew_key w = k \<and> ew_transcriptHash w = th \<and>
     (ok \<longrightarrow> atomic (ew_w w)) \<and> (clean C o0 w acc \<or> \<not> ok \<and> broken C o0 w acc)"

lemma clean_broken: "clean C o0 w acc \<Longrightarrow> broken C o0 w (acc @ new)"
  unfolding clean_def broken_def by (metis prefixI)

lemma broken_grows:
  "broken C o0 w acc \<Longrightarrow> ew_key w' = ew_key w \<Longrightarrow> ew_transcriptHash w' = ew_transcriptHash w \<Longrightarrow>
   os_data (ew_w w') = os_data (ew_w w) @ t \<Longrightarrow> broken C o0 w' (acc @ new)"
  unfolding broken_def by (elim exE conjE, intro exI conjI) (auto intro: prefix_order.trans)

subsection \<open>Frames on a stream that may fail\<close>

lemma streamWrite_cases:
  "streamWrite w p = (m, w') \<Longrightarrow> (m = Ok () \<and> os_data w' = os_data w @ p) \<or> (\<exists>e t. m = Err e \<and> os_data w' = os_data w @ t)"
  by (auto simp: streamWrite_def split: list.splits wr_outcome.splits)

lemma WriteFrame_cases:
  assumes "WriteFrame w typ p = (m, w')"
  shows "(m = Ok () \<and> os_data w' = os_data w @ frameBytes typ p) \<or> (\<exists>e t. m = Err e \<and> os_data w' = os_data w @ t)"
proof (cases "length p > MaxPayloadSize")
  case False
  obtain m1 w1 where 1: "streamWrite w ([Version, typ] @ be16 (length p)) = (m1, w1)" by fastforce
  obtain m2 w2 where 2: "streamWrite w1 p = (m2, w2)" by fastforce
  show ?thesis
    using assms False 1 2 streamWrite_cases [OF 1] streamWrite_cases [OF 2]
    by (cases m1) (auto simp: WriteFrame_def frameBytes_def)
qed (use assms in \<open>auto simp: WriteFrame_def\<close>)

lemma WriteFrame_atomic:
  "atomic w \<Longrightarrow> WriteFrame w typ p = (m, w') \<Longrightarrow> atomic w' \<and> (m = Ok () \<or> os_data w' = os_data w)"
  by (cases "os_script w") (auto simp: WriteFrame_def streamWrite_def atomic_def split: if_splits)

lemma writeRecordLocked_cases:
  assumes "gcm_laws C" "fits p" "writeRecordLocked C w p = (m, w')"
  shows "(m = Ok () \<and> ew_seq w \<noteq> - 1 \<and> ew_seq w' = ew_seq w + 1 \<and>
      os_data (ew_w w') = os_data (ew_w w) @ sealed C (ew_key w) (ew_transcriptHash w) (ew_seq w) p) \<or>
    (\<exists>e t. m = Err e \<and> ew_seq w' = ew_seq w \<and> os_data (ew_w w') = os_data (ew_w w) @ t)"
proof (cases "ew_seq w = - 1")
  case False
  let ?d = "recordOf C (ew_key w) (ew_transcriptHash w) (ew_seq w) p"
  have v: "valid_data ?d" using assms(1,2) by (simp add: valid_recordOf fits_def)
  obtain r s where f: "WriteFrame (ew_w w) TypeE2EData (dataBytes ?d) = (r, s)" by fastforce
  then have "WriteE2EData (ew_w w) ?d = (r, s)"
    using v dataPayload_Ok [of ?d "dataBytes ?d"] by (simp add: WriteE2EData_def)
  then show ?thesis
    using assms(3) False WriteFrame_cases [OF f]
    by (cases r) (auto simp: writeRecordLocked_def recordOf_def sealed_def Let_def)
qed (use assms(3) in \<open>auto simp: writeRecordLocked_def\<close>)

lemma writeRecordLocked_atomic:
  assumes "gcm_laws C" "fits p" "atomic (ew_w w)" "writeRecordLocked C w p = (m, w')"
  shows "atomic (ew_w w') \<and> (m = Ok () \<or> os_data (ew_w w') = os_data (ew_w w) \<and> ew_seq w' = ew_seq w)"
proof (cases "ew_seq w = - 1")
  case False
  let ?d = "recordOf C (ew_key w) (ew_transcriptHash w) (ew_seq w) p"
  have v: "valid_data ?d" using assms(1,2) by (simp add: valid_recordOf fits_def)
  obtain r s where f: "WriteFrame (ew_w w) TypeE2EData (dataBytes ?d) = (r, s)" by fastforce
  then have "WriteE2EData (ew_w w) ?d = (r, s)"
    using v dataPayload_Ok [of ?d "dataBytes ?d"] by (simp add: WriteE2EData_def)
  then show ?thesis
    using assms(4) False WriteFrame_atomic [OF assms(3) f]
    by (cases r) (auto simp: writeRecordLocked_def recordOf_def Let_def)
qed (use assms(3,4) in \<open>auto simp: writeRecordLocked_def\<close>)

lemma clean_same:
  assumes "clean C o0 w acc" "os_data (ew_w w') = os_data (ew_w w)" "ew_seq w' = ew_seq w" "ew_key w' = ew_key w"
    "ew_transcriptHash w' = ew_transcriptHash w" "ew_closed w \<longrightarrow> ew_closed w'"
  shows "clean C o0 w' acc"
  using assms unfolding clean_def by auto

lemma writeRecordLocked_clean:
  assumes "gcm_laws C" "fits p" "clean C o0 w acc" "\<not> ew_closed w" "writeRecordLocked C w p = (m, w')"
  shows "(m = Ok () \<and> clean C o0 w' (acc @ p)) \<or>
    (\<exists>e. m = Err e \<and> (clean C o0 w' acc \<or> \<not> atomic (ew_w w) \<and> broken C o0 w' acc))"
proof -
  obtain ps where ps: "concat ps = acc" "\<forall>p\<in>set ps. fits p" "length ps < 2 ^ 64" "ew_seq w = of_nat (length ps)"
      "os_data (ew_w w) = o0 @ recordsBytes C (ew_key w) (ew_transcriptHash w) 0 ps"
    using assms(3,4) by (auto simp: clean_def)
  note keep = writeRecordLocked_keeps [OF assms(5)]
  from writeRecordLocked_cases [OF assms(1,2,5)] consider
      (ok) "m = Ok ()" "ew_seq w \<noteq> - 1" "ew_seq w' = ew_seq w + 1"
        "os_data (ew_w w') = os_data (ew_w w) @ sealed C (ew_key w) (ew_transcriptHash w) (ew_seq w) p"
    | (err) e t where "m = Err e" "os_data (ew_w w') = os_data (ew_w w) @ t"
    by blast
  then show ?thesis
  proof cases
    case ok
    have "unat (ew_seq w) = length ps" using ps(3,4) by (simp add: unat_of_nat take_bit_nat_eq_self)
    moreover have "unat (- 1 :: 64 word) = 2 ^ 64 - 1"
      by (simp add: unsigned_minus_1_eq_mask mask_eq_exp_minus_1)
    ultimately have "length ps \<noteq> 2 ^ 64 - 1" using ok(2) unsigned_word_eqI by metis
    then have "clean C o0 w' (acc @ p)"
      using ps ok keep assms(2,4) by (auto simp: clean_def recordsBytes_append intro!: exI [of _ "ps @ [p]"])
    then show ?thesis using ok(1) by blast
  next
    case err
    have "broken C o0 w acc" using clean_broken [OF assms(3), of "[]"] by simp
    then have "broken C o0 w' (acc @ [])"
      using broken_grows [of C o0 w acc w' t] keep err(2) by blast
    moreover have "clean C o0 w' acc" if "atomic (ew_w w)"
      using writeRecordLocked_atomic [OF assms(1,2) that assms(5)] err(1) keep clean_same [OF assms(3), of w'] by simp
    ultimately show ?thesis using err(1) by auto
  qed
qed

lemma encWriteLoop_clean:
  assumes "gcm_laws C"
  shows "writer_ok w \<Longrightarrow> clean C o0 w acc \<Longrightarrow> \<not> ew_closed w \<Longrightarrow> n \<le> length p \<Longrightarrow>
    encWriteLoop C w p n = Some ((k, m), w') \<Longrightarrow>
    (m = Ok () \<and> clean C o0 w' (acc @ drop n p)) \<or>
    (\<exists>e j. m = Err e \<and> (clean C o0 w' (acc @ take j (drop n p)) \<or>
       \<not> atomic (ew_w w) \<and> broken C o0 w' (acc @ take j (drop n p))))"
proof (induction "length p - n" arbitrary: w n acc rule: less_induct)
  case less
  show ?case
  proof (cases "n < length p")
    case False
    then show ?thesis using less.prems(2,4,5) by (simp add: encWriteLoop.simps [of C w])
  next
    case True
    let ?stop = "min (n + ew_maxPlaintext w) (length p)"
    let ?c = "take (?stop - n) (drop n p)"
    obtain r w1 where w1: "writeRecordLocked C w ?c = (r, w1)" by fastforce
    have f: "fits ?c" using less.prems(1) by (auto simp: fits_def writer_ok_def)
    note keep = writeRecordLocked_keeps [OF w1]
    from writeRecordLocked_clean [OF assms f less.prems(2,3) w1] show ?thesis
    proof (elim disjE exE conjE)
      assume r: "r = Ok ()" and c1: "clean C o0 w1 (acc @ ?c)"
      have "encWriteLoop C w1 p ?stop = Some ((k, m), w')"
        using less.prems(5) True w1 r by (subst (asm) encWriteLoop.simps) (simp add: Let_def)
      moreover have "length p - ?stop < length p - n" "writer_ok w1" "\<not> ew_closed w1" "?stop \<le> length p"
        using less.prems(1,3) True keep by (auto simp: writer_ok_def)
      ultimately have "(m = Ok () \<and> clean C o0 w' ((acc @ ?c) @ drop ?stop p)) \<or>
          (\<exists>e j. m = Err e \<and> (clean C o0 w' ((acc @ ?c) @ take j (drop ?stop p)) \<or>
             \<not> atomic (ew_w w1) \<and> broken C o0 w' ((acc @ ?c) @ take j (drop ?stop p))))"
        using less.hyps c1 by blast
      moreover have "\<not> atomic (ew_w w1) \<longrightarrow> \<not> atomic (ew_w w)"
        using writeRecordLocked_atomic [OF assms f _ w1] by blast
      moreover have "drop ?stop p = drop (?stop - n) (drop n p)" using True by simp
      then have cut: "?c @ drop ?stop p = drop n p" by (simp only: append_take_drop_id)
      moreover have "take (length ?c + j) (?c @ drop ?stop p) = ?c @ take j (drop ?stop p)" for j by simp
      then have "?c @ take j (drop ?stop p) = take (length ?c + j) (drop n p)" for j by (metis cut)
      ultimately show ?thesis by (metis append.assoc)
    next
      fix e assume r: "r = Err e"
      then have st: "m = Err e" "w' = w1"
        using less.prems(5) True w1 by (auto simp: encWriteLoop.simps [of C w] Let_def)
      have "acc @ take 0 (drop n p) = acc" by simp
      moreover assume "clean C o0 w1 acc"
      ultimately show ?thesis using st by metis
    next
      fix e assume r: "r = Err e"
      then have st: "m = Err e" "w' = w1"
        using less.prems(5) True w1 by (auto simp: encWriteLoop.simps [of C w] Let_def)
      have "acc @ take 0 (drop n p) = acc" by simp
      moreover assume "\<not> atomic (ew_w w)" "broken C o0 w1 acc"
      ultimately show ?thesis using st by metis
    qed
  qed
qed

lemma encWriteLoop_grows:
  assumes "gcm_laws C"
  shows "writer_ok w \<Longrightarrow> n \<le> length p \<Longrightarrow> encWriteLoop C w p n = Some ((k, m), w') \<Longrightarrow>
    (\<exists>t. os_data (ew_w w') = os_data (ew_w w) @ t) \<and> (atomic (ew_w w) \<longrightarrow> atomic (ew_w w')) \<and>
    ew_key w' = ew_key w \<and> ew_transcriptHash w' = ew_transcriptHash w \<and> ew_closed w' = ew_closed w \<and> writer_ok w'"
proof (induction "length p - n" arbitrary: w n rule: less_induct)
  case less
  show ?case
  proof (cases "n < length p")
    case False
    then show ?thesis using less.prems by (auto simp: encWriteLoop.simps [of C w])
  next
    case True
    let ?stop = "min (n + ew_maxPlaintext w) (length p)"
    let ?c = "take (?stop - n) (drop n p)"
    obtain r w1 where w1: "writeRecordLocked C w ?c = (r, w1)" by fastforce
    have f: "fits ?c" using less.prems(1) by (auto simp: fits_def writer_ok_def)
    have 1: "\<exists>t. os_data (ew_w w1) = os_data (ew_w w) @ t" "atomic (ew_w w) \<longrightarrow> atomic (ew_w w1)"
        "ew_key w1 = ew_key w" "ew_transcriptHash w1 = ew_transcriptHash w" "ew_closed w1 = ew_closed w" "writer_ok w1"
      using writeRecordLocked_cases [OF assms f w1] writeRecordLocked_atomic [OF assms f _ w1]
        writeRecordLocked_keeps [OF w1] less.prems(1) by (auto simp: writer_ok_def)
    show ?thesis
    proof (cases r)
      case (Ok u)
      then have "encWriteLoop C w1 p ?stop = Some ((k, m), w')"
        using less.prems(3) True w1 by (subst (asm) encWriteLoop.simps) (simp add: Let_def)
      moreover have "length p - ?stop < length p - n" "?stop \<le> length p"
        using less.prems(1) True by (auto simp: writer_ok_def)
      ultimately show ?thesis
        using less.hyps [of ?stop w1] 1 by (metis append.assoc)
    next
      case (Err e)
      then have "w' = w1" using less.prems(3) True w1 by (simp add: encWriteLoop.simps [of C w] Let_def)
      then show ?thesis using 1 by blast
    next
      case Panic
      then show ?thesis using writeRecordLocked_ne_Panic [of C w ?c] w1 by simp
    qed
  qed
qed

subsection \<open>The operations of the writer\<close>

lemma encWrite_writes_on:
  assumes "gcm_laws C" "writes_on C o0 k th ok w acc"
  shows "(\<exists>w'. encWrite C w bs = Some ((length bs, Ok ()), w') \<and> writes_on C o0 k th ok w' (acc @ bs)) \<or>
    (\<exists>n e w' j. encWrite C w bs = Some ((n, Err e), w') \<and> writes_on C o0 k th ok w' (acc @ take j bs))"
proof (cases "bs = [] \<or> ew_closed w")
  case True
  have w: "writes_on C o0 k th ok w (acc @ take 0 bs)" using assms(2) by simp
  show ?thesis
  proof (cases "bs = []")
    case True
    then show ?thesis using assms(2) by (simp add: encWrite_def)
  next
    case False
    then show ?thesis using True w encWrite_closed by blast
  qed
next
  case False
  have ok: "writer_ok w" "ew_key w = k" "ew_transcriptHash w = th" "ok \<longrightarrow> atomic (ew_w w)"
      "clean C o0 w acc \<or> \<not> ok \<and> broken C o0 w acc"
    using assms(2) by (simp_all add: writes_on_def)
  obtain n m w' where e: "encWriteLoop C w bs 0 = Some ((n, m), w')"
    using encWriteLoop_returns [of w C bs 0] ok(1) by (auto simp: writer_ok_def)
  then have w: "encWrite C w bs = Some ((n, m), w')" using False by (simp add: encWrite_def)
  note g = encWriteLoop_grows [OF assms(1) ok(1) _ e, simplified]
  have b: "m \<noteq> Panic" "m = Ok () \<longrightarrow> n = length bs"
    using encWriteLoop_bounds [OF _ _ e] ok(1) by (auto simp: writer_ok_def)
  have on: "writes_on C o0 k th ok w' a" if "clean C o0 w' a \<or> \<not> ok \<and> broken C o0 w' a" for a
    using g ok that by (simp add: writes_on_def)
  have "(m = Ok () \<and> writes_on C o0 k th ok w' (acc @ bs)) \<or>
      (\<exists>e j. m = Err e \<and> writes_on C o0 k th ok w' (acc @ take j bs))"
  proof (cases "clean C o0 w acc")
    case True
    from encWriteLoop_clean [OF assms(1) ok(1) True _ _ e] False ok(4) on show ?thesis by fastforce
  next
    case notclean: False
    then have br: "broken C o0 w acc" "\<not> ok" using ok(5) by blast+
    obtain t where "os_data (ew_w w') = os_data (ew_w w) @ t" using g by blast
    then have "broken C o0 w' (acc @ new)" for new
      using broken_grows [OF br(1)] g by blast
    then have "writes_on C o0 k th ok w' (acc @ take j bs)" "writes_on C o0 k th ok w' (acc @ bs)" for j
      using on br(2) by blast+
    then show ?thesis using b(1) by (cases m) auto
  qed
  then show ?thesis using w b(2) by blast
qed

lemma encCloseWrite_writes_on:
  assumes "writes_on C o0 k th ok w acc" "encCloseWrite w = (m, w')"
  shows "m \<noteq> Panic \<and> writes_on C o0 k th ok w' acc"
proof (cases "ew_closed w")
  case True
  then have "m = Ok ()" "w' = w" using assms(2) by (simp_all add: encCloseWrite_def)
  then show ?thesis using assms(1) by simp
next
  case False
  obtain r s where f: "WriteFrame (ew_w w) TypeE2EClose (closeBytes closeOK) = (r, s)" by fastforce
  then have "WriteE2EClose (ew_w w) closeOK = (r, s)"
    using closePayload_Ok [of closeOK "closeBytes closeOK"] valid_closeOK by (simp add: WriteE2EClose_def)
  then have w: "m = r" "w' = w\<lparr>ew_closed := True, ew_w := s\<rparr>"
    using assms(2) False by (simp_all add: encCloseWrite_def closeOK_def Let_def)
  have ok: "writer_ok w" "ew_key w = k" "ew_transcriptHash w = th" "ok \<longrightarrow> atomic (ew_w w)"
      "clean C o0 w acc \<or> \<not> ok \<and> broken C o0 w acc"
    using assms(1) by (simp_all add: writes_on_def)
  have rel: "atomic s \<and> (m = Ok () \<or> os_data s = os_data (ew_w w))" if "atomic (ew_w w)"
    using WriteFrame_atomic [OF that f] w(1) by simp
  have br: "broken C o0 w acc" using ok(5) clean_broken [of C o0 w acc "[]"] by auto
  from WriteFrame_cases [OF f] have "m \<noteq> Panic \<and> (clean C o0 w' acc \<or> \<not> ok \<and> broken C o0 w' acc)"
  proof (elim disjE exE conjE)
    assume r: "r = Ok ()" and d: "os_data s = os_data (ew_w w) @ frameBytes TypeE2EClose (closeBytes closeOK)"
    have "clean C o0 w' acc" if "clean C o0 w acc"
      using that False d w(2) by (auto simp: clean_def)
    moreover have "broken C o0 w' (acc @ [])"
      by (rule broken_grows [OF br]) (use d w(2) in simp_all)
    ultimately show ?thesis using ok(5) r w(1) by auto
  next
    fix e t assume r: "r = Err e" and d: "os_data s = os_data (ew_w w) @ t"
    have "broken C o0 w' (acc @ [])" by (rule broken_grows [OF br]) (use d w(2) in simp_all)
    moreover have "clean C o0 w' acc" if "ok"
    proof -
      have "os_data s = os_data (ew_w w)" using rel ok(4) that r w(1) by auto
      then show ?thesis using ok(5) that w(2) by (intro clean_same [of C o0 w acc w']) simp_all
    qed
    ultimately show ?thesis using r w(1) by auto
  qed
  then show ?thesis using ok rel w(2) by (simp add: writes_on_def writer_ok_def)
qed

section \<open>The encrypted endpoint\<close>

text \<open>
  The documented effect of cancelling and closing the stream below: a cancelled reader gets
  nothing more, and no byte already accepted is lost.
\<close>

definition raw_laws :: "raw_ops \<Rightarrow> bool" where
  "raw_laws stream \<longleftrightarrow> (\<forall>i. is_data (ra_CancelRead stream i) = []) \<and>
     (\<forall>w. os_data (ra_CancelWrite stream w) = os_data w \<and> (atomic w \<longrightarrow> atomic (ra_CancelWrite stream w))) \<and>
     (\<forall>w. os_data (ra_Close stream w) = os_data w \<and> (atomic w \<longrightarrow> atomic (ra_Close stream w)))"

lemma writes_on_raw:
  assumes "writes_on C o0 k th ok w acc" "os_data s = os_data (ew_w w)" "atomic (ew_w w) \<longrightarrow> atomic s"
  shows "writes_on C o0 k th ok (w\<lparr>ew_w := s\<rparr>) acc"
proof -
  have "clean C o0 (w\<lparr>ew_w := s\<rparr>) acc = clean C o0 w acc" "broken C o0 (w\<lparr>ew_w := s\<rparr>) acc = broken C o0 w acc"
    by (simp_all add: clean_def broken_def assms(2))
  then show ?thesis using assms(1,3) by (auto simp: writes_on_def writer_ok_def)
qed

interpretation enc_endpoint: byte_endpoint "encryptedEndpoint C stream"
  "\<lambda>s d w. (gcm_laws C \<and> raw_laws stream) \<and> d = plaintextOf C (en_reader s) \<and> writes_on C o0 k th ok (en_writer s) w"
  for C stream o0 k th ok
proof
  fix s d w n bs r s'
  assume a: "(gcm_laws C \<and> raw_laws stream) \<and> d = plaintextOf C (en_reader s) \<and> writes_on C o0 k th ok (en_writer s) w"
    "0 < n" "ep_Reader (encryptedEndpoint C stream) n s = ((bs, r), s')"
  obtain m rd where rd: "encRead C (en_reader s) n = (m, rd)" by fastforce
  have np: "m \<noteq> Panic" using encRead_ne_Panic [of C "en_reader s" n] a(1) rd by simp
  have s': "s' = s\<lparr>en_reader := rd\<rparr>" "r = bindR m (\<lambda>_. Ok ())" "bs = okBytes m"
    using a(3) rd by (cases m; simp add: encryptedEndpoint_def encReadOp_def)+
  from encRead_plaintext [OF rd a(2) np] a(1) s'
  show "r \<noteq> Panic \<and> (bs = [] \<longrightarrow> r \<noteq> Ok ()) \<and>
      (\<exists>d'. ((gcm_laws C \<and> raw_laws stream) \<and> d' = plaintextOf C (en_reader s') \<and> writes_on C o0 k th ok (en_writer s') w) \<and>
         (d = bs @ d' \<and> (r = Err EOF \<longrightarrow> d' = []) \<or> bs = [] \<and> r \<noteq> Ok () \<and> (r = Err EOF \<longrightarrow> d = [])))"
    by auto
next
  fix s :: enc_conn and d w bs
  assume a: "(gcm_laws C \<and> raw_laws stream) \<and> d = plaintextOf C (en_reader s) \<and> writes_on C o0 k th ok (en_writer s) w"
  show "(\<exists>s'. ep_Writer (encryptedEndpoint C stream) bs s = Some ((length bs, Ok ()), s') \<and>
        (gcm_laws C \<and> raw_laws stream) \<and> d = plaintextOf C (en_reader s') \<and> writes_on C o0 k th ok (en_writer s') (w @ bs)) \<or>
      (\<exists>n e s' j. ep_Writer (encryptedEndpoint C stream) bs s = Some ((n, Err e), s') \<and>
        (gcm_laws C \<and> raw_laws stream) \<and> d = plaintextOf C (en_reader s') \<and> writes_on C o0 k th ok (en_writer s') (w @ take j bs))"
    using encWrite_writes_on [of C o0 k th ok "en_writer s" w bs] a
    by (fastforce simp: encryptedEndpoint_def encWriteOp_def)
next
  fix f s d w r s'
  assume a: "ep_CloseWrite (encryptedEndpoint C stream) = Some f"
    "(gcm_laws C \<and> raw_laws stream) \<and> d = plaintextOf C (en_reader s) \<and> writes_on C o0 k th ok (en_writer s) w" "f s = (r, s')"
  obtain m wr where w: "encCloseWrite (en_writer s) = (m, wr)" by fastforce
  from encCloseWrite_writes_on [OF _ this] a w
  show "r \<noteq> Panic \<and> (gcm_laws C \<and> raw_laws stream) \<and> d = plaintextOf C (en_reader s') \<and> writes_on C o0 k th ok (en_writer s') w"
    by (auto simp: encryptedEndpoint_def encCloseWriteOp_def)
next
  fix g and s :: enc_conn and d w
  assume a: "ep_Abort (encryptedEndpoint C stream) = Some g"
    "(gcm_laws C \<and> raw_laws stream) \<and> d = plaintextOf C (en_reader s) \<and> writes_on C o0 k th ok (en_writer s) w"
  then have raw: "raw_laws stream" by simp
  have "plaintextOf C (en_reader (g s)) = er_buf (en_reader s)"
    using a(1) raw unread_cut [of "(en_reader s)\<lparr>er_r := ra_CancelRead stream (er_r (en_reader s))\<rparr>" C]
    by (auto simp: encryptedEndpoint_def closeRaw_def cancelRaw_def plaintextOf_def raw_laws_def)
  moreover have "writes_on C o0 k th ok (en_writer (g s)) w"
    using a raw by (auto simp: encryptedEndpoint_def closeRaw_def cancelRaw_def raw_laws_def intro!: writes_on_raw)
  ultimately show "\<exists>d'. prefix d' d \<and> (gcm_laws C \<and> raw_laws stream) \<and> d' = plaintextOf C (en_reader (g s)) \<and>
      writes_on C o0 k th ok (en_writer (g s)) w"
    using a(2) by (simp add: plaintextOf_def)
qed

section \<open>Two proxies and the stream between them\<close>

text \<open>
  The assumption on the authenticated encryption, for one direction and one run: records under
  this key and transcript that stand at the front of what is received also stand at the front
  of what was sent. What is received is otherwise arbitrary. A network that delivers a prefix of
  what was sent satisfies it.
\<close>

definition unforged :: "crypto_lib \<Rightarrow> bytes \<Rightarrow> bytes \<Rightarrow> bytes \<Rightarrow> bytes \<Rightarrow> bool" where
  "unforged C k th received out \<longleftrightarrow>
     (\<forall>qs. prefix (recordsBytes C k th 0 qs) received \<longrightarrow> prefix (recordsBytes C k th 0 qs) out)"

lemma unforged_prefix: "prefix received out \<Longrightarrow> unforged C k th received out"
  by (auto simp: unforged_def intro: prefix_order.trans)

lemma fresh_plaintext: "plaintextOf C (fresh_reader i k th) = unread C (fresh_reader i k th)"
  by (simp add: plaintextOf_def fresh_reader_def)

lemma fresh_writes_on: "atomic s \<Longrightarrow> writes_on C (os_data s) k th True (fresh_writer s k th) []"
  by (auto simp: writes_on_def writer_ok_def clean_def fresh_writer_def qoru_consts intro!: exI [of _ "[]"])

text \<open>What a reader delivers is a prefix of what the writer at the far end has accepted.\<close>

lemma carried:
  assumes "gcm_laws C" "gcm_exact C" "writes_on C o0 k th True w acc" "os_data (ew_w w) = o0 @ out"
    and "unforged C k th (is_data i) out"
  shows "prefix (plaintextOf C (fresh_reader i k th)) acc \<and> (is_data i = out \<longrightarrow> plaintextOf C (fresh_reader i k th) = acc)"
proof -
  obtain ps tail where ps: "concat ps = acc" "\<forall>p\<in>set ps. fits p" "length ps < 2 ^ 64"
      "out = recordsBytes C k th 0 ps @ tail" "tail = [] \<or> tail = frameBytes TypeE2EClose (closeBytes closeOK)"
    using assms(3,4) by (auto simp: writes_on_def clean_def)
  obtain qs rest where qs: "accepted C (fresh_reader i k th) qs rest" "unread C (fresh_reader i k th) = concat qs"
      "\<forall>q\<in>set qs. fits q"
    using unread_records [OF assms(1,2)] by blast
  then have "prefix (recordsBytes C k th 0 qs) (is_data i)" "length qs < 2 ^ 64"
    by (auto simp: accepted_def fresh_reader_def)
  then have "prefix (recordsBytes C k th 0 qs) (recordsBytes C k th 0 ps @ tail)"
    using assms(5) ps(4) by (simp add: unforged_def)
  then have "prefix qs ps"
    using records_prefix [OF assms(1), of tail k th 0 qs ps] ps(2,5) qs(3) \<open>length qs < 2 ^ 64\<close> by auto
  then have "prefix (concat qs) acc" using ps(1) by (auto simp: prefix_def)
  moreover have "plaintextOf C (fresh_reader i k th) = acc" if "is_data i = out"
  proof -
    have "pending C (fresh_reader i k th) ps tail"
      using that ps by (simp add: pending_def fresh_reader_def fits_def)
    from unread_pending [OF assms(1) ps(5) this] show ?thesis using ps(1) by (simp add: fresh_plaintext)
  qed
  ultimately show ?thesis using qs(2) by (simp add: fresh_plaintext)
qed


text \<open>A concrete tunnel: the application sends two bytes, the target only closes.\<close>

definition toy_F :: bytes where "toy_F = frameBytes TypeE2EClose (closeBytes closeOK)"

definition toy_sent :: bytes where "toy_sent = sealed toy_crypto [3] [1] 0 [1, 2] @ toy_F"

definition toy_conn :: "EncryptedReader \<Rightarrow> EncryptedWriter \<Rightarrow> enc_conn" where
  "toy_conn r w = \<lparr>en_reader = r, en_writer = w\<rparr>"

definition toy_eof :: "bytes \<Rightarrow> EncryptedReader" where
  "toy_eof k = (fresh_reader \<lparr>is_data = [], is_end = EOF\<rparr> k [1])\<lparr>er_closed := True\<rparr>"

definition toy_half :: EncryptedReader where
  "toy_half = (fresh_reader \<lparr>is_data = toy_F, is_end = EOF\<rparr> [3] [1])\<lparr>er_seq := 1\<rparr>"

definition toy_w :: "bytes \<Rightarrow> bytes list \<Rightarrow> bool \<Rightarrow> EncryptedWriter" where
  "toy_w k ps closed = (fresh_writer \<lparr>os_data = recordsBytes toy_crypto k [1] 0 ps @ (if closed then toy_F else []), os_script = []\<rparr> k [1])
     \<lparr>ew_seq := of_nat (length ps), ew_closed := closed\<rparr>"

lemma encRead_next:
  assumes "er_buf r = []" "\<not> er_closed r"
  shows "readStep C r = (Err e, r') \<Longrightarrow> encRead C r n = (Err e, r')"
    and "readStep C r = (Ok u, r') \<Longrightarrow> er_buf r' \<noteq> [] \<Longrightarrow> encRead C r n = bufRead r' n"
  using assms by (simp_all add: encRead_def readLoop.simps [of C r] readLoop.simps [of C r'])

lemma toy_read_close:
  "encReadOp toy_crypto 8 (toy_conn (fresh_reader \<lparr>is_data = toy_F, is_end = EOF\<rparr> k [1]) w) = (([], Err EOF), toy_conn (toy_eof k) w)"
proof -
  let ?r = "fresh_reader \<lparr>is_data = toy_F, is_end = EOF\<rparr> k [1]"
  have "readStep toy_crypto ?r = (Err EOF, toy_eof k)"
    using readStep_close [of ?r closeOK "[]" toy_crypto] valid_closeOK
    by (simp add: toy_F_def toy_eof_def closeOK_def) (simp add: fresh_reader_def)
  then have "encRead toy_crypto ?r 8 = (Err EOF, toy_eof k)"
    by (intro encRead_next(1)) (simp_all add: fresh_reader_def)
  then show ?thesis by (simp add: encReadOp_def toy_conn_def)
qed

lemma toy_read_data:
  "encReadOp toy_crypto 8 (toy_conn (fresh_reader \<lparr>is_data = toy_sent, is_end = EOF\<rparr> [3] [1]) w) = (([1, 2], Ok ()), toy_conn toy_half w)"
  "encReadOp toy_crypto 8 (toy_conn toy_half w) = (([], Err EOF), toy_conn ((toy_eof [3])\<lparr>er_seq := 1\<rparr>) w)"
proof -
  let ?r = "fresh_reader \<lparr>is_data = toy_sent, is_end = EOF\<rparr> [3] [1]"
  have "readStep toy_crypto ?r = (Ok (), toy_half\<lparr>er_buf := [1, 2]\<rparr>)"
    using readStep_sealed [OF toy_gcm_laws, of ?r "[1, 2]" toy_F]
    by (simp add: fresh_reader_def toy_half_def toy_sent_def qoru_consts)
  then have "encRead toy_crypto ?r 8 = bufRead (toy_half\<lparr>er_buf := [1, 2]\<rparr>) 8"
    by (intro encRead_next(2)) (simp_all add: fresh_reader_def)
  then show "encReadOp toy_crypto 8 (toy_conn ?r w) = (([1, 2], Ok ()), toy_conn toy_half w)"
    by (simp add: encReadOp_def toy_conn_def bufRead_def) (simp add: fresh_reader_def toy_half_def)
  have "readStep toy_crypto toy_half = (Err EOF, (toy_eof [3])\<lparr>er_seq := 1\<rparr>)"
    using readStep_close [of toy_half closeOK "[]" toy_crypto] valid_closeOK
    by (simp add: toy_F_def toy_eof_def closeOK_def toy_half_def) (simp add: fresh_reader_def)
  then have "encRead toy_crypto toy_half 8 = (Err EOF, (toy_eof [3])\<lparr>er_seq := 1\<rparr>)"
    by (intro encRead_next(1)) (simp_all add: toy_half_def fresh_reader_def)
  then show "encReadOp toy_crypto 8 (toy_conn toy_half w) = (([], Err EOF), toy_conn ((toy_eof [3])\<lparr>er_seq := 1\<rparr>) w)"
    by (simp add: encReadOp_def toy_conn_def)
qed

lemma toy_write_data:
  "encWriteOp toy_crypto [1, 2] (toy_conn r (toy_w k [] False)) = Some ((2, Ok ()), toy_conn r (toy_w k [[1, 2]] False))"
proof -
  have "chunksOf (MaxE2ECiphertextLength - gcm_Overhead) [1, 2] = [[1, 2]]"
    by (simp add: chunksOf.simps qoru_consts)
  then show ?thesis
    using encWrite_reliable [OF toy_gcm_laws, of "toy_w k [] False" "[1, 2]"]
    by (simp add: encWriteOp_def toy_conn_def toy_w_def fresh_writer_def writer_ok_def wrote_def qoru_consts)
qed

lemma toy_close: "encCloseWriteOp (toy_conn r (toy_w k ps False)) = (Ok (), toy_conn r (toy_w k ps True))"
  using encCloseWrite_reliable [of "toy_w k ps False"]
  by (simp add: encCloseWriteOp_def toy_conn_def toy_w_def fresh_writer_def toy_F_def)

lemma toy_client_run:
  "scheduled (NetConnEndpoint toy_net) (encryptedEndpoint toy_crypto toy_raw) 8
     [False, False, False, False, True, True, True, True, True, True]
     (startProxy ([1, 2], []) (toy_conn (fresh_reader \<lparr>is_data = toy_F, is_end = EOF\<rparr> [4] [1]) (toy_w [3] [] False))) =
   Some \<lparr>px_a = ([], []), px_b = toy_conn (toy_eof [4]) (toy_w [3] [[1, 2]] True), px_ab = Sent, px_ba = Sent,
     px_aborted = False, px_done = [None, None]\<rparr>"
  by (simp add: startProxy_def NetConnEndpoint_def encryptedEndpoint_def toy_net_def toy_read_def toy_read_close
      toy_write_data toy_close proxyOneWay_def proxyOtherWay_def copyStep_def afterRead_def closeNetConnWrite_def
      mirror_def)

lemma toy_server_run:
  "scheduled (encryptedEndpoint toy_crypto toy_raw) (NetConnEndpoint toy_net) 8
     [False, False, False, False, True, True, True, True, True, True]
     (startProxy (toy_conn (fresh_reader \<lparr>is_data = toy_sent, is_end = EOF\<rparr> [3] [1]) (toy_w [4] [] False)) ([], [])) =
   Some \<lparr>px_a = toy_conn ((toy_eof [3])\<lparr>er_seq := 1\<rparr>) (toy_w [4] [] True), px_b = ([], [1, 2]), px_ab = Sent, px_ba = Sent,
     px_aborted = False, px_done = [None, None]\<rparr>"
  by (simp add: startProxy_def NetConnEndpoint_def encryptedEndpoint_def toy_net_def toy_read_def toy_write_def toy_read_data
      toy_close proxyOneWay_def proxyOtherWay_def copyStep_def afterRead_def closeNetConnWrite_def
      mirror_def)

lemma toy_raw_laws: "raw_laws toy_raw"
  by (simp add: raw_laws_def toy_raw_def)


end
