(* ===== verification/Cli.thy ===== *)
theory Cli
  imports Config Config_Validate
begin

text \<open>
  The commands (\<^verbatim>\<open>internal/cli/root.go\<close>) and the loading of the configuration file
  (\<^verbatim>\<open>internal/config/load.go\<close>), and the program's entry (\<^verbatim>\<open>cmd/qoru/main.go\<close>). Reading a file,
  decoding and encoding YAML, the two runners and the command-line parser (the package cobra)
  are arguments.
\<close>

record 'w cli_world =
  cw_exists :: "string \<Rightarrow> bool"
  cw_ReadFile :: "string \<Rightarrow> bytes res"
  cw_Unmarshal :: "bytes \<Rightarrow> Config res"
  cw_Marshal :: "Config \<Rightarrow> bytes res"
  cw_client :: "Config option \<Rightarrow> 'w \<Rightarrow> unit res \<times> 'w"
  cw_server :: "Config option \<Rightarrow> 'w \<Rightarrow> unit res \<times> 'w"
  cw_print :: "bytes \<Rightarrow> 'w \<Rightarrow> unit res \<times> 'w"
  cw_help :: "'w \<Rightarrow> 'w"
  cw_stderr :: "go_error \<Rightarrow> 'w \<Rightarrow> 'w"

definition Load :: "'w cli_world \<Rightarrow> string \<Rightarrow> Config option res" where
  "Load W path =
     bindR (cw_ReadFile W path) (\<lambda>data.
     bindR (cw_Unmarshal W data) (\<lambda>cfg.
     Ok (Some cfg)))"

definition MarshalYAML :: "'w cli_world \<Rightarrow> Config \<Rightarrow> bytes res" where
  "MarshalYAML W cfg = cw_Marshal W cfg"

definition loadConfig :: "'w cli_world \<Rightarrow> string \<Rightarrow> (Config option \<times> string) res" where
  "loadConfig W configPath =
     (case ResolvePath (cw_exists W) configPath of
        None \<Rightarrow> Err (Errorf ''no config file found; specify one with --config'' [])
      | Some path \<Rightarrow> bindR (Load W path) (\<lambda>cfg. Ok (cfg, path)))"

definition clientCommand :: "'w cli_world \<Rightarrow> string \<Rightarrow> 'w \<Rightarrow> unit res \<times> 'w" where
  "clientCommand W configPath w =
     (case loadConfig W configPath of
        Err e \<Rightarrow> (Err e, w)
      | Panic \<Rightarrow> (Panic, w)
      | Ok (cfg, _) \<Rightarrow> cw_client W cfg w)"

definition serverCommand :: "'w cli_world \<Rightarrow> string \<Rightarrow> 'w \<Rightarrow> unit res \<times> 'w" where
  "serverCommand W configPath w =
     (case loadConfig W configPath of
        Err e \<Rightarrow> (Err e, w)
      | Panic \<Rightarrow> (Panic, w)
      | Ok (cfg, _) \<Rightarrow> cw_server W cfg w)"

definition printConfigCommand :: "'w cli_world \<Rightarrow> string \<Rightarrow> 'w \<Rightarrow> unit res \<times> 'w" where
  "printConfigCommand W configPath w =
     pureThen (loadConfig W configPath) w (\<lambda>(cfgo, _).
     pureThen (ValidateForMode cfgo) w (\<lambda>_.
     pureThen (case cfgo of None \<Rightarrow> Panic | Some cfg \<Rightarrow> MarshalYAML W cfg) w (\<lambda>out.
     cw_print W out w)))"

section \<open>The command tree\<close>

text \<open>
  What the program hands to cobra: the root command with its persistent string flag and the
  subcommands; what runs gets the value of the flag, which the code reads through \<open>opts\<close>.
\<close>

record string_flag =
  fl_Name :: string
  fl_Shorthand :: string
  fl_Default :: string

record 'w cobra_command =
  co_Use :: string
  co_RunE :: "string \<Rightarrow> 'w \<Rightarrow> unit res \<times> 'w"

record 'w root_command =
  ro_Use :: string
  ro_Run :: "'w \<Rightarrow> 'w"
  ro_Flags :: "string_flag list"
  ro_Commands :: "'w cobra_command list"

definition newClientCommand :: "'w cli_world \<Rightarrow> 'w cobra_command" where
  "newClientCommand W = \<lparr>co_Use = ''client'', co_RunE = clientCommand W\<rparr>"

definition newServerCommand :: "'w cli_world \<Rightarrow> 'w cobra_command" where
  "newServerCommand W = \<lparr>co_Use = ''server'', co_RunE = serverCommand W\<rparr>"

definition newPrintConfigCommand :: "'w cli_world \<Rightarrow> 'w cobra_command" where
  "newPrintConfigCommand W = \<lparr>co_Use = ''print-config'', co_RunE = printConfigCommand W\<rparr>"

definition newRootCommand :: "'w cli_world \<Rightarrow> 'w root_command" where
  "newRootCommand W =
     \<lparr>ro_Use = ''qoru'', ro_Run = cw_help W, ro_Flags = [\<lparr>fl_Name = ''config'', fl_Shorthand = ''c'', fl_Default = []\<rparr>],
      ro_Commands = [newClientCommand W, newServerCommand W, newPrintConfigCommand W]\<rparr>"

section \<open>Running the program\<close>

text \<open>
  What cobra makes of the arguments, given the flags and the names of the subcommands: an error
  of its own, one of its built-in commands, the root command, or a subcommand and the value of
  the flag. A subcommand is one of the names it was given.
\<close>

datatype parsed = ParseError go_error | BuiltIn | RunRoot | RunSub string string

type_synonym cobra_parser = "string_flag list \<Rightarrow> string list \<Rightarrow> string list \<Rightarrow> parsed"

definition runCommand :: "cobra_parser \<Rightarrow> 'w root_command \<Rightarrow> string list \<Rightarrow> 'w \<Rightarrow> unit res \<times> 'w" where
  "runCommand parse cmd args w =
     (case parse (ro_Flags cmd) (map co_Use (ro_Commands cmd)) args of
        ParseError e \<Rightarrow> (Err e, w)
      | BuiltIn \<Rightarrow> (Ok (), w)
      | RunRoot \<Rightarrow> (Ok (), ro_Run cmd w)
      | RunSub name configPath \<Rightarrow>
          (case List.find (\<lambda>c. co_Use c = name) (ro_Commands cmd) of
             None \<Rightarrow> (Err (LibError ''unknown command''), w)
           | Some c \<Rightarrow> co_RunE c configPath w))"

text \<open>\<open>Execute\<close>, with the exit status of the process; a panic ends it with status 2.\<close>

definition Execute :: "cobra_parser \<Rightarrow> 'w cli_world \<Rightarrow> string list \<Rightarrow> 'w \<Rightarrow> nat \<times> 'w" where
  "Execute parse W args w =
     (case runCommand parse (newRootCommand W) args w of
        (Ok _, w) \<Rightarrow> (0, w)
      | (Err e, w) \<Rightarrow> (1, cw_stderr W e w)
      | (Panic, w) \<Rightarrow> (2, w))"

definition main :: "cobra_parser \<Rightarrow> 'w cli_world \<Rightarrow> string list \<Rightarrow> 'w \<Rightarrow> nat \<times> 'w" where
  "main parse W args w = Execute parse W args w"

end
