(* ===== verification/Cli_Properties.thy ===== *)
theory Cli_Properties
  imports Cli Client_Properties
begin

text \<open>
  What the commands do with the configuration: which file is read, and what must hold of it before
  a command acts on it.
\<close>

text \<open>The file a command line names: the one given, or the first default path that exists.\<close>

definition chosen_path :: "(string \<Rightarrow> bool) \<Rightarrow> string \<Rightarrow> string option" where
  "chosen_path exists explicit = (if explicit = [] then List.find exists DefaultPaths else Some explicit)"

lemma ResolvePath_chosen: "ResolvePath exists explicit = chosen_path exists explicit"
  by (simp add: ResolvePath_def ResolvePathWithDefaults_def chosen_path_def firstExisting_eq)

text \<open>The configuration a file holds.\<close>

definition holds_config :: "'w cli_world \<Rightarrow> string \<Rightarrow> Config \<Rightarrow> bool" where
  "holds_config W path cfg \<longleftrightarrow> (\<exists>data. cw_ReadFile W path = Ok data \<and> cw_Unmarshal W data = Ok cfg)"

lemma loadConfig_Ok:
  "loadConfig W explicit = Ok (cfgo, path) \<longleftrightarrow>
   chosen_path (cw_exists W) explicit = Some path \<and> (\<exists>cfg. cfgo = Some cfg \<and> holds_config W path cfg)"
  by (auto simp: loadConfig_def ResolvePath_chosen Load_def holds_config_def bindR_eq_Ok split: option.splits)

lemma loadConfig_cases:
  obtains (loaded) path cfg where "loadConfig W explicit = Ok (Some cfg, path)"
      "chosen_path (cw_exists W) explicit = Some path" "holds_config W path cfg"
    | (failed) e where "loadConfig W explicit = Err e"
      "\<nexists>path cfg. chosen_path (cw_exists W) explicit = Some path \<and> holds_config W path cfg"
    | (panic) "loadConfig W explicit = Panic"
proof (cases "loadConfig W explicit")
  case (Ok p)
  obtain cfgo path where p: "p = (cfgo, path)" by fastforce
  with Ok show ?thesis using loaded loadConfig_Ok [of W explicit cfgo path] by auto
next
  case (Err e)
  moreover have "loadConfig W explicit \<noteq> Ok (Some cfg, path)" for cfg path using Err by simp
  then have "\<nexists>path cfg. chosen_path (cw_exists W) explicit = Some path \<and> holds_config W path cfg"
    using loadConfig_Ok [of W explicit] by blast
  ultimately show ?thesis using failed by blast
qed (use panic in blast)

text \<open>What the process makes of the result of a command.\<close>

definition exit_with :: "'w cli_world \<Rightarrow> unit res \<times> 'w \<Rightarrow> nat \<times> 'w" where
  "exit_with W p = (case p of (Ok _, w) \<Rightarrow> (0, w) | (Err e, w) \<Rightarrow> (1, cw_stderr W e w) | (Panic, w) \<Rightarrow> (2, w))"

lemma commands_follow_config:
  assumes "\<forall>p. cw_ReadFile W p \<noteq> Panic" "\<forall>d. cw_Unmarshal W d \<noteq> Panic" "\<forall>c. \<exists>out. cw_Marshal W c = Ok out"
  shows "(\<forall>path cfg. chosen_path (cw_exists W) explicit = Some path \<and> holds_config W path cfg \<longrightarrow>
      clientCommand W explicit w = cw_client W (Some cfg) w \<and>
      serverCommand W explicit w = cw_server W (Some cfg) w \<and>
      (if client_config cfg \<or> server_config cfg
       then \<exists>out. cw_Marshal W cfg = Ok out \<and> printConfigCommand W explicit w = cw_print W out w
       else \<exists>e. printConfigCommand W explicit w = (Err e, w))) \<and>
    ((\<nexists>path cfg. chosen_path (cw_exists W) explicit = Some path \<and> holds_config W path cfg) \<longrightarrow>
      (\<exists>e. clientCommand W explicit w = (Err e, w) \<and> serverCommand W explicit w = (Err e, w) \<and>
        printConfigCommand W explicit w = (Err e, w)))"
proof (cases rule: loadConfig_cases [of W explicit])
  case (loaded path cfg)
  obtain out where out: "cw_Marshal W cfg = Ok out" using assms(3) by blast
  have "printConfigCommand W explicit w =
      (case ValidateForMode (Some cfg) of Ok _ \<Rightarrow> cw_print W out w | Err e \<Rightarrow> (Err e, w) | Panic \<Rightarrow> (Panic, w))"
    using loaded out
    by (cases "ValidateForMode (Some cfg)") (simp_all add: printConfigCommand_def MarshalYAML_def)
  then have "if client_config cfg \<or> server_config cfg
      then \<exists>out. cw_Marshal W cfg = Ok out \<and> printConfigCommand W explicit w = cw_print W out w
      else \<exists>e. printConfigCommand W explicit w = (Err e, w)"
    using ValidateForMode_iff [of cfg] out ValidateForMode_total [of "Some cfg"]
    by (cases "ValidateForMode (Some cfg)") auto
  moreover have "clientCommand W explicit w = cw_client W (Some cfg) w" "serverCommand W explicit w = cw_server W (Some cfg) w"
    using loaded by (simp_all add: clientCommand_def serverCommand_def)
  moreover have "path' = path \<and> cfg' = cfg"
    if "chosen_path (cw_exists W) explicit = Some path'" "holds_config W path' cfg'" for path' cfg'
    using that loaded by (auto simp: holds_config_def)
  ultimately show ?thesis using loaded(2,3) by blast
next
  case (failed e)
  then have "clientCommand W explicit w = (Err e, w) \<and> serverCommand W explicit w = (Err e, w) \<and>
      printConfigCommand W explicit w = (Err e, w)"
    by (simp add: clientCommand_def serverCommand_def printConfigCommand_def)
  with failed(2) show ?thesis by blast
next
  case panic
  then show ?thesis
    using assms(1,2) by (auto simp: loadConfig_def Load_def bindR_eq_Panic split: option.splits)
qed

text \<open>
  C39: the program acts on the configuration file and on nothing else. A subcommand reads the file
  given with \<open>--config\<close>, or else the first default path that exists; if there is none, or it cannot
  be read or decoded, no runner is started, nothing is printed, and the process reports an
  error and exits with status 1. Otherwise \<open>client\<close> and \<open>server\<close> hand exactly that
  configuration to their runner, whose result decides the exit status, and \<open>print-config\<close>
  writes its YAML if it is a well-formed client or server configuration, and otherwise exits
  with status 1 without output.
\<close>

theorem execute_follows_config:
  assumes "\<forall>p. cw_ReadFile W p \<noteq> Panic" "\<forall>d. cw_Unmarshal W d \<noteq> Panic" "\<forall>c. \<exists>out. cw_Marshal W c = Ok out"
    and "parse (ro_Flags (newRootCommand W)) [''client'', ''server'', ''print-config''] args = RunSub name explicit"
    and "name \<in> {''client'', ''server'', ''print-config''}"
  shows "(\<forall>path cfg. chosen_path (cw_exists W) explicit = Some path \<and> holds_config W path cfg \<longrightarrow>
      (name = ''client'' \<longrightarrow> main parse W args w = exit_with W (cw_client W (Some cfg) w)) \<and>
      (name = ''server'' \<longrightarrow> main parse W args w = exit_with W (cw_server W (Some cfg) w)) \<and>
      (name = ''print-config'' \<longrightarrow>
         (if client_config cfg \<or> server_config cfg
          then \<exists>out. cw_Marshal W cfg = Ok out \<and> main parse W args w = exit_with W (cw_print W out w)
          else \<exists>e. main parse W args w = (1, cw_stderr W e w)))) \<and>
    ((\<nexists>path cfg. chosen_path (cw_exists W) explicit = Some path \<and> holds_config W path cfg) \<longrightarrow>
      (\<exists>e. main parse W args w = (1, cw_stderr W e w)))"
proof -
  have m: "main parse W args w = exit_with W (if name = ''client'' then clientCommand W explicit w
      else if name = ''server'' then serverCommand W explicit w else printConfigCommand W explicit w)"
    using assms(4,5)
    by (auto simp: main_def Execute_def exit_with_def runCommand_def newRootCommand_def newClientCommand_def
        newServerCommand_def newPrintConfigCommand_def)
  note r = commands_follow_config [OF assms(1-3), of explicit w]
  have err: "exit_with W (Err e, v) = (1, cw_stderr W e v)" for e v by (simp add: exit_with_def)
  show ?thesis
  proof (cases "\<exists>path cfg. chosen_path (cw_exists W) explicit = Some path \<and> holds_config W path cfg")
    case False
    then obtain e where "clientCommand W explicit w = (Err e, w)" "serverCommand W explicit w = (Err e, w)"
        "printConfigCommand W explicit w = (Err e, w)"
      using r by blast
    then have "main parse W args w = (1, cw_stderr W e w)" using m err by simp
    then show ?thesis using False by blast
  next
    case True
    have "(name = ''client'' \<longrightarrow> main parse W args w = exit_with W (cw_client W (Some cfg) w)) \<and>
      (name = ''server'' \<longrightarrow> main parse W args w = exit_with W (cw_server W (Some cfg) w)) \<and>
      (name = ''print-config'' \<longrightarrow>
         (if client_config cfg \<or> server_config cfg
          then \<exists>out. cw_Marshal W cfg = Ok out \<and> main parse W args w = exit_with W (cw_print W out w)
          else \<exists>e. main parse W args w = (1, cw_stderr W e w)))"
      if "chosen_path (cw_exists W) explicit = Some path" "holds_config W path cfg" for path cfg
    proof -
      have c: "clientCommand W explicit w = cw_client W (Some cfg) w" "serverCommand W explicit w = cw_server W (Some cfg) w"
        "if client_config cfg \<or> server_config cfg
         then \<exists>out. cw_Marshal W cfg = Ok out \<and> printConfigCommand W explicit w = cw_print W out w
         else \<exists>e. printConfigCommand W explicit w = (Err e, w)"
        using r that by blast+
      show ?thesis
        using c m err by (cases "client_config cfg \<or> server_config cfg") (simp_all, (elim exE conjE, auto)+)
    qed
    then show ?thesis using True by blast
  qed
qed

definition toy_cli :: "bytes list cli_world" where
  "toy_cli = \<lparr>cw_exists = (\<lambda>p. p = ''./qoru.yml''),
     cw_ReadFile = (\<lambda>p. if p = ''./qoru.yml'' then Ok [1] else Err (ErrorsNew ''no such file'')),
     cw_Unmarshal = (\<lambda>d. if d = [1] then Ok toy_client_config else Err (ErrorsNew ''yaml'')),
     cw_Marshal = (\<lambda>c. Ok [2]), cw_client = (\<lambda>c w. (Ok (), [3] # w)), cw_server = (\<lambda>c w. (Ok (), [4] # w)),
     cw_print = (\<lambda>out w. (Ok (), out # w)), cw_help = (\<lambda>w. [5] # w), cw_stderr = (\<lambda>e w. [6] # w)\<rparr>"

definition toy_parse :: cobra_parser where
  "toy_parse flags cmds args =
     (case args of [] \<Rightarrow> RunRoot | [name] \<Rightarrow> RunSub name [] | name # value # rest \<Rightarrow> RunSub name value)"

theorem execute_follows_config_witness:
  "main toy_parse toy_cli [''client''] [] = (0, [[3]]) \<and> main toy_parse toy_cli [''print-config''] [] = (0, [[2]]) \<and>
   main toy_parse toy_cli [''print-config'', ''other.yml''] [] = (1, [[6]])"
proof -
  have w: "\<forall>p. cw_ReadFile toy_cli p \<noteq> Panic" "\<forall>d. cw_Unmarshal toy_cli d \<noteq> Panic" "\<forall>c. \<exists>out. cw_Marshal toy_cli c = Ok out"
    by (simp_all add: toy_cli_def)
  have cfg: "chosen_path (cw_exists toy_cli) [] = Some ''./qoru.yml''" "holds_config toy_cli ''./qoru.yml'' toy_client_config"
    by (simp_all add: chosen_path_def toy_cli_def DefaultPaths_def holds_config_def)
  have valid: "client_config toy_client_config" using toy_client_config_valid by (simp add: ValidateClient_iff)
  have none: "\<nexists>path cfg. chosen_path (cw_exists toy_cli) ''other.yml'' = Some path \<and> holds_config toy_cli path cfg"
    by (simp add: chosen_path_def toy_cli_def holds_config_def)
  note ex = execute_follows_config [OF w, of toy_parse _ _ _ "[]"]
  have "main toy_parse toy_cli [''client''] [] = (0, [[3]])"
    using ex [of "[''client'']" "''client''" "[]"] cfg by (auto simp: toy_parse_def exit_with_def toy_cli_def)
  moreover have "main toy_parse toy_cli [''print-config''] [] = (0, [[2]])"
    using ex [of "[''print-config'']" "''print-config''" "[]"] cfg valid by (auto simp: toy_parse_def exit_with_def toy_cli_def)
  moreover have "main toy_parse toy_cli [''print-config'', ''other.yml''] [] = (1, [[6]])"
    using ex [of "[''print-config'', ''other.yml'']" "''print-config''" "''other.yml''"] none
    by (simp add: toy_parse_def) (simp add: toy_cli_def)
  ultimately show ?thesis by blast
qed

end
