(* ===== verification/Testcert.thy ===== *)
theory Testcert
  imports Identity
begin

text \<open>
  The certificates of the test suite (\<^verbatim>\<open>testcert/testcert.go\<close>): two certificate authorities made
  once per process, and leaf certificates for nodes and services, written to files of one
  directory and cached by name. Randomness, the clock, certificate creation, PEM and the file
  system are the parameter \<open>T\<close> over an opaque world \<open>'w\<close>; path handling is modelled. The mutex of
  the bundle makes each call atomic, so concurrent tests are sequences of calls.
\<close>

section \<open>Paths\<close>

text \<open>\<open>filepath.Clean\<close> and \<open>filepath.Join\<close> on Unix.\<close>

fun pathElements :: "string \<Rightarrow> string list" where
  "pathElements [] = [[]]"
| "pathElements (c # s) =
     (if c = CHR ''/'' then [] # pathElements s
      else case pathElements s of [] \<Rightarrow> [[c]] | e # es \<Rightarrow> (c # e) # es)"

fun joinSlash :: "string list \<Rightarrow> string" where
  "joinSlash [] = []"
| "joinSlash [e] = e"
| "joinSlash (e # es) = e @ ''/'' @ joinSlash es"

definition cleanElement :: "bool \<Rightarrow> string \<Rightarrow> string list \<Rightarrow> string list" where
  "cleanElement rooted e stack =
     (if e = [] \<or> e = ''.'' then stack
      else if e = ''..''
      then (case stack of
              [] \<Rightarrow> if rooted then [] else [e]
            | parent # rest \<Rightarrow> if parent = ''..'' then e # stack else rest)
      else e # stack)"

definition filepath_Clean :: "string \<Rightarrow> string" where
  "filepath_Clean path =
     (let rooted = hasPrefix path ''/'';
          body = joinSlash (rev (fold (cleanElement rooted) (pathElements path) []))
      in if rooted then ''/'' @ body else if body = [] then ''.'' else body)"

definition filepath_Join :: "string list \<Rightarrow> string" where
  "filepath_Join elems =
     (case dropWhile (\<lambda>e. e = []) elems of [] \<Rightarrow> [] | es \<Rightarrow> filepath_Clean (joinSlash es))"

section \<open>What the package calls\<close>

datatype key_usage = KeyUsageDigitalSignature | KeyUsageKeyEncipherment | KeyUsageCertSign | KeyUsageCRLSign

text \<open>The template of \<open>x509.CreateCertificate\<close>; the times are in nanoseconds, usages are sets of bits.\<close>

record cert_template =
  ct_SerialNumber :: int
  ct_CommonName :: string
  ct_NotBefore :: int
  ct_NotAfter :: int
  ct_KeyUsage :: "key_usage list"
  ct_ExtKeyUsage :: "ext_key_usage list"
  ct_BasicConstraintsValid :: bool
  ct_IsCA :: bool
  ct_URIs :: "string list"

record ecdsa_key =
  ek_PublicKey :: bytes
  ek_D :: bytes

text \<open>The parent of a new certificate: its own template, or a certificate parsed before.\<close>

datatype cert_parent = SelfSigned cert_template | IssuedBy x509_cert

record 'w test_lib =
  te_MkdirTemp :: "string \<Rightarrow> 'w \<Rightarrow> string res \<times> 'w"
  te_WriteFile :: "string \<Rightarrow> bytes \<Rightarrow> 'w \<Rightarrow> unit res \<times> 'w"
  te_GenerateKey :: "'w \<Rightarrow> ecdsa_key res \<times> 'w"
  te_randInt :: "int \<Rightarrow> 'w \<Rightarrow> int res \<times> 'w"
  te_Now :: "'w \<Rightarrow> int \<times> 'w"
  te_CreateCertificate :: "cert_template \<Rightarrow> cert_parent \<Rightarrow> bytes \<Rightarrow> ecdsa_key \<Rightarrow> 'w \<Rightarrow> bytes res \<times> 'w"
  te_MarshalECPrivateKey :: "ecdsa_key \<Rightarrow> bytes res"
  te_EncodeToMemory :: "string \<Rightarrow> bytes \<Rightarrow> bytes"
  te_ParseURL :: "string \<Rightarrow> string res"
  te_file :: "'w \<Rightarrow> string \<Rightarrow> bytes option"

definition timeHour :: int where "timeHour = 3600 * 1000000000"

section \<open>Certificates\<close>

definition serialNumber :: "'w test_lib \<Rightarrow> 'w \<Rightarrow> int \<times> 'w" where
  "serialNumber T w =
     (case te_randInt T (2 ^ 128) w of
        (Ok serial, w) \<Rightarrow> (serial, w)
      | (_, w) \<Rightarrow> te_Now T w)"

text \<open>The two templates; \<open>before\<close> and \<open>after\<close> are the readings of the clock for their validity.\<close>

definition caTemplate :: "int \<Rightarrow> string \<Rightarrow> int \<Rightarrow> int \<Rightarrow> cert_template" where
  "caTemplate serial commonName before after =
     \<lparr>ct_SerialNumber = serial, ct_CommonName = commonName,
      ct_NotBefore = before - timeHour, ct_NotAfter = after + 365 * 24 * timeHour,
      ct_KeyUsage = [KeyUsageCertSign, KeyUsageCRLSign], ct_ExtKeyUsage = [],
      ct_BasicConstraintsValid = True, ct_IsCA = True, ct_URIs = []\<rparr>"

definition leafTemplate :: "int \<Rightarrow> string \<Rightarrow> int \<Rightarrow> int \<Rightarrow> ext_key_usage list \<Rightarrow> string \<Rightarrow> cert_template" where
  "leafTemplate serial commonName before after usages uri =
     \<lparr>ct_SerialNumber = serial, ct_CommonName = commonName,
      ct_NotBefore = before - timeHour, ct_NotAfter = after + 365 * 24 * timeHour,
      ct_KeyUsage = [KeyUsageDigitalSignature, KeyUsageKeyEncipherment], ct_ExtKeyUsage = usages,
      ct_BasicConstraintsValid = True, ct_IsCA = False, ct_URIs = [uri]\<rparr>"

definition newCA :: "'w test_lib \<Rightarrow> crypto_lib \<Rightarrow> string \<Rightarrow> 'w \<Rightarrow> (x509_cert \<times> ecdsa_key \<times> bytes) res \<times> 'w" where
  "newCA T C commonName w =
     seqR (te_GenerateKey T w) (\<lambda>key w.
     let (serial, w) = serialNumber T w; (before, w) = te_Now T w; (after, w) = te_Now T w;
         tmpl = caTemplate serial commonName before after
     in seqR (te_CreateCertificate T tmpl (SelfSigned tmpl) (ek_PublicKey key) key w) (\<lambda>der w.
        (bindR (x509_Parse C der) (\<lambda>cert. Ok (cert, key, te_EncodeToMemory T ''CERTIFICATE'' der)), w)))"

definition writeLeaf :: "'w test_lib \<Rightarrow> string \<Rightarrow> string \<Rightarrow> x509_cert \<Rightarrow> ecdsa_key \<Rightarrow> string \<Rightarrow> string \<Rightarrow>
    ext_key_usage list \<Rightarrow> 'w \<Rightarrow> unit res \<times> 'w" where
  "writeLeaf T certPath keyPath caCert caKey commonName uriValue usages w =
     seqR (te_GenerateKey T w) (\<lambda>key w.
     pureThen (te_ParseURL T uriValue) w (\<lambda>uri.
     let (serial, w) = serialNumber T w; (before, w) = te_Now T w; (after, w) = te_Now T w;
         tmpl = leafTemplate serial commonName before after usages uri
     in seqR (te_CreateCertificate T tmpl (IssuedBy caCert) (ek_PublicKey key) caKey w) (\<lambda>der w.
        pureThen (te_MarshalECPrivateKey T key) w (\<lambda>keyDER.
        seqR (te_WriteFile T certPath (te_EncodeToMemory T ''CERTIFICATE'' der) w) (\<lambda>_ w.
        te_WriteFile T keyPath (te_EncodeToMemory T ''EC PRIVATE KEY'' keyDER) w)))))"

section \<open>The bundle\<close>

record cert_bundle =
  bd_dir :: string
  bd_caCert :: x509_cert
  bd_caKey :: ecdsa_key
  bd_caCertPath :: string
  bd_serviceCACert :: x509_cert
  bd_serviceCAKey :: ecdsa_key
  bd_serviceCACertPath :: string
  bd_nodes :: "string \<rightharpoonup> IdentityConfig"
  bd_service :: "string \<rightharpoonup> ServiceE2EConfig"

definition newBundle :: "'w test_lib \<Rightarrow> crypto_lib \<Rightarrow> 'w \<Rightarrow> cert_bundle res \<times> 'w" where
  "newBundle T C w =
     seqR (te_MkdirTemp T ''qoru-test-certs-*'' w) (\<lambda>dir w.
     seqR (newCA T C ''qoru-test-ca'' w) (\<lambda>(caCert, caKey, caPEM) w.
     let caCertPath = filepath_Join [dir, ''ca.crt''] in
     seqR (te_WriteFile T caCertPath caPEM w) (\<lambda>_ w.
     seqR (newCA T C ''qoru-test-service-ca'' w) (\<lambda>(serviceCACert, serviceCAKey, serviceCAPEM) w.
     let serviceCACertPath = filepath_Join [dir, ''service-ca.crt''] in
     seqR (te_WriteFile T serviceCACertPath serviceCAPEM w) (\<lambda>_ w.
     (Ok \<lparr>bd_dir = dir, bd_caCert = caCert, bd_caKey = caKey, bd_caCertPath = caCertPath,
          bd_serviceCACert = serviceCACert, bd_serviceCAKey = serviceCAKey,
          bd_serviceCACertPath = serviceCACertPath, bd_nodes = Map.empty, bd_service = Map.empty\<rparr>, w))))))"

text \<open>The lookup of the caches comes first; a failure leaves them as they are.\<close>

definition nodeIdentity :: "'w test_lib \<Rightarrow> string \<Rightarrow> cert_bundle \<times> 'w \<Rightarrow> IdentityConfig res \<times> cert_bundle \<times> 'w" where
  "nodeIdentity T nodeID = (\<lambda>(b, w).
     (case bd_nodes b nodeID of
        Some identity \<Rightarrow> (Ok identity, b, w)
      | None \<Rightarrow>
     let certPath = filepath_Join [bd_dir b, nodeID @ ''.crt''];
         keyPath = filepath_Join [bd_dir b, nodeID @ ''.key''];
         identity = \<lparr>ic_Cert = certPath, ic_Key = keyPath, ic_CA = bd_caCertPath b\<rparr>
     in (case writeLeaf T certPath keyPath (bd_caCert b) (bd_caKey b) nodeID (''spiffe://qoru/node/'' @ nodeID)
               [ExtKeyUsageServerAuth, ExtKeyUsageClientAuth] w of
          (Ok _, w) \<Rightarrow> (Ok identity, b\<lparr>bd_nodes := (bd_nodes b)(nodeID \<mapsto> identity)\<rparr>, w)
        | (Err err, w) \<Rightarrow> (Err err, b, w)
        | (Panic, w) \<Rightarrow> (Panic, b, w))))"

definition serviceE2E :: "'w test_lib \<Rightarrow> string \<Rightarrow> string \<Rightarrow> cert_bundle \<times> 'w \<Rightarrow> ServiceE2EConfig res \<times> cert_bundle \<times> 'w" where
  "serviceE2E T certName serviceName = (\<lambda>(b, w).
     let key = certName @ [CHR 0x00] @ serviceName in
     (case bd_service b key of
        Some e2e \<Rightarrow> (Ok e2e, b, w)
      | None \<Rightarrow>
     let certPath = filepath_Join [bd_dir b, certName @ ''.crt''];
         keyPath = filepath_Join [bd_dir b, certName @ ''.key''];
         e2e = \<lparr>se_Cert = certPath, se_Key = keyPath\<rparr>
     in (case writeLeaf T certPath keyPath (bd_serviceCACert b) (bd_serviceCAKey b) certName
               (''spiffe://qoru/service/'' @ serviceName) [ExtKeyUsageServerAuth, ExtKeyUsageClientAuth] w of
          (Ok _, w) \<Rightarrow> (Ok e2e, b\<lparr>bd_service := (bd_service b)(key \<mapsto> e2e)\<rparr>, w)
        | (Err err, w) \<Rightarrow> (Err err, b, w)
        | (Panic, w) \<Rightarrow> (Panic, b, w))))"

section \<open>The package\<close>

text \<open>The package variables \<open>once\<close>, \<open>shared\<close> and \<open>onceErr\<close>.\<close>

record testcert_vars =
  tv_once :: bool
  tv_shared :: "cert_bundle option"
  tv_onceErr :: "go_error option"

definition testcert_init :: testcert_vars where
  "testcert_init = \<lparr>tv_once = False, tv_shared = None, tv_onceErr = None\<rparr>"

text \<open>
  The generation runs in the first call only, also when it fails or panics; later calls return
  what it left in the variables.
\<close>

definition bundleOnce :: "'w test_lib \<Rightarrow> crypto_lib \<Rightarrow> testcert_vars \<times> 'w \<Rightarrow> cert_bundle option res \<times> testcert_vars \<times> 'w" where
  "bundleOnce T C = (\<lambda>(v, w).
     let result = (\<lambda>v. case tv_onceErr v of Some err \<Rightarrow> Err err | None \<Rightarrow> Ok (tv_shared v))
     in if tv_once v then (result v, v, w)
        else case newBundle T C w of
          (Ok b, w) \<Rightarrow> let v = \<lparr>tv_once = True, tv_shared = Some b, tv_onceErr = None\<rparr> in (result v, v, w)
        | (Err err, w) \<Rightarrow> let v = \<lparr>tv_once = True, tv_shared = None, tv_onceErr = Some err\<rparr> in (result v, v, w)
        | (Panic, w) \<Rightarrow> (Panic, v\<lparr>tv_once := True\<rparr>, w))"

text \<open>How a call from a test ends: \<open>tb.Fatalf\<close> ends the test, \<open>panic\<close> the process.\<close>

datatype 'a test_run = Returns 'a | Fatalf string "string list" go_error | Panics "go_error option"

definition mustBundle :: "'w test_lib \<Rightarrow> crypto_lib \<Rightarrow> testcert_vars \<times> 'w \<Rightarrow> cert_bundle option test_run \<times> testcert_vars \<times> 'w" where
  "mustBundle T C s =
     (case bundleOnce T C s of
        (Ok b, s) \<Rightarrow> (Returns b, s)
      | (Err err, s) \<Rightarrow> (Fatalf ''generate test certificates: %v'' [] err, s)
      | (Panic, s) \<Rightarrow> (Panics None, s))"

definition mustBundlePanic :: "'w test_lib \<Rightarrow> crypto_lib \<Rightarrow> testcert_vars \<times> 'w \<Rightarrow> cert_bundle option test_run \<times> testcert_vars \<times> 'w" where
  "mustBundlePanic T C s =
     (case bundleOnce T C s of
        (Ok b, s) \<Rightarrow> (Returns b, s)
      | (Err err, s) \<Rightarrow> (Panics (Some err), s)
      | (Panic, s) \<Rightarrow> (Panics None, s))"

text \<open>
  A method call on the shared bundle, after one of the functions above: a \<open>nil\<close> bundle panics,
  \<open>failed\<close> is what the caller does with an error.
\<close>

definition onBundle :: "cert_bundle option test_run \<times> testcert_vars \<times> 'w \<Rightarrow> (cert_bundle \<times> 'w \<Rightarrow> 'a res \<times> cert_bundle \<times> 'w) \<Rightarrow>
    (go_error \<Rightarrow> 'a test_run) \<Rightarrow> 'a test_run \<times> testcert_vars \<times> 'w" where
  "onBundle r method failed =
     (case r of
        (Returns (Some b), v, w) \<Rightarrow>
          (case method (b, w) of
             (Ok x, b, w) \<Rightarrow> (Returns x, v\<lparr>tv_shared := Some b\<rparr>, w)
           | (Err err, b, w) \<Rightarrow> (failed err, v\<lparr>tv_shared := Some b\<rparr>, w)
           | (Panic, b, w) \<Rightarrow> (Panics None, v\<lparr>tv_shared := Some b\<rparr>, w))
      | (Returns None, s) \<Rightarrow> (Panics None, s)
      | (Fatalf f args err, s) \<Rightarrow> (Fatalf f args err, s)
      | (Panics p, s) \<Rightarrow> (Panics p, s))"

definition NodeIdentity :: "'w test_lib \<Rightarrow> crypto_lib \<Rightarrow> string \<Rightarrow> testcert_vars \<times> 'w \<Rightarrow>
    IdentityConfig test_run \<times> testcert_vars \<times> 'w" where
  "NodeIdentity T C nodeID s =
     onBundle (mustBundle T C s) (nodeIdentity T nodeID) (Fatalf ''generate node test certificate %q: %v'' [nodeID])"

definition MustNodeIdentity :: "'w test_lib \<Rightarrow> crypto_lib \<Rightarrow> string \<Rightarrow> testcert_vars \<times> 'w \<Rightarrow>
    IdentityConfig test_run \<times> testcert_vars \<times> 'w" where
  "MustNodeIdentity T C nodeID s =
     onBundle (mustBundlePanic T C s) (nodeIdentity T nodeID) (\<lambda>err. Panics (Some err))"

definition CAPath :: "'w test_lib \<Rightarrow> crypto_lib \<Rightarrow> testcert_vars \<times> 'w \<Rightarrow> string test_run \<times> testcert_vars \<times> 'w" where
  "CAPath T C s = onBundle (mustBundle T C s) (\<lambda>(b, w). (Ok (bd_caCertPath b), b, w)) (\<lambda>err. Panics (Some err))"

definition ServiceCAPath :: "'w test_lib \<Rightarrow> crypto_lib \<Rightarrow> testcert_vars \<times> 'w \<Rightarrow> string test_run \<times> testcert_vars \<times> 'w" where
  "ServiceCAPath T C s = onBundle (mustBundle T C s) (\<lambda>(b, w). (Ok (bd_serviceCACertPath b), b, w)) (\<lambda>err. Panics (Some err))"

definition ServiceE2E :: "'w test_lib \<Rightarrow> crypto_lib \<Rightarrow> string \<Rightarrow> string \<Rightarrow> testcert_vars \<times> 'w \<Rightarrow>
    ServiceE2EConfig test_run \<times> testcert_vars \<times> 'w" where
  "ServiceE2E T C certName serviceName s =
     onBundle (mustBundle T C s) (serviceE2E T certName serviceName)
       (Fatalf ''generate service test certificate %q for %q: %v'' [certName, serviceName])"

end
