(* ===== verification/Testcert_Properties.thy ===== *)
theory Testcert_Properties
  imports Testcert Quic
begin

text \<open>
  The test certificates stay usable: whatever certificates the tests ask for, in whatever order,
  those handed out before are still on disk and are still accepted by the checks of
  \<open>Identity\<close>, as long as two certificates never share a file name.
\<close>

section \<open>Paths\<close>

definition plain_name :: "string \<Rightarrow> bool" where
  "plain_name n \<longleftrightarrow> n \<noteq> [] \<and> n \<noteq> ''.'' \<and> n \<noteq> ''..'' \<and> CHR ''/'' \<notin> set n"

lemma pathElements_ne_Nil [simp]: "pathElements s \<noteq> []"
  by (cases s) (auto split: list.splits)

lemma pathElements_plain: "CHR ''/'' \<notin> set n \<Longrightarrow> pathElements n = [n]"
  by (induction n) auto

lemma pathElements_append: "CHR ''/'' \<notin> set n \<Longrightarrow> pathElements (d @ CHR ''/'' # n) = pathElements d @ [n]"
proof (induction d)
  case (Cons c d)
  then show ?case by (cases "pathElements d") auto
qed (simp add: pathElements_plain)

lemma joinSlash_snoc: "joinSlash (es @ [n]) = (if es = [] then n else joinSlash es @ CHR ''/'' # n)"
proof (induction es)
  case (Cons e es)
  then show ?case by (cases es) auto
qed simp

lemma clean_snoc: "plain_name n \<Longrightarrow> fold (cleanElement r) (es @ [n]) st = n # fold (cleanElement r) es st"
  by (simp add: cleanElement_def plain_name_def)

text \<open>In a directory, different plain names are different paths.\<close>

lemma Join_inject:
  assumes "plain_name m" "plain_name n"
  shows "filepath_Join [d, m] = filepath_Join [d, n] \<longleftrightarrow> m = n"
proof (cases "d = []")
  case True
  have "filepath_Join [[], k] = k" if "plain_name k" for k
    using that clean_snoc [of k False "[]" "[]"]
    by (cases k) (auto simp: filepath_Join_def filepath_Clean_def hasPrefix_iff plain_name_def pathElements_plain)
  then show ?thesis using True assms by simp
next
  case False
  let ?es = "rev (fold (cleanElement (hasPrefix d ''/'')) (pathElements d) [])"
  have p: "hasPrefix (d @ CHR ''/'' # k) ''/'' = hasPrefix d ''/''" for k
    using False by (cases d) (simp_all add: hasPrefix_def)
  have "filepath_Join [d, k] = (if hasPrefix d ''/'' then ''/'' else []) @
      (if ?es = [] then k else joinSlash ?es @ CHR ''/'' # k)" if "plain_name k" for k
    using that False clean_snoc [of k "hasPrefix d ''/''" "pathElements d" "[]"] joinSlash_snoc [of ?es k]
    by (auto simp: filepath_Join_def filepath_Clean_def p pathElements_append plain_name_def Let_def)
  then show ?thesis using assms by auto
qed

lemma plain_suffix: "CHR ''/'' \<notin> set n \<Longrightarrow> plain_name (n @ ''.crt'') \<and> plain_name (n @ ''.key'')"
  by (auto simp: plain_name_def append_eq_Cons_conv)

section \<open>What the proofs rely on\<close>

definition siblings :: "string \<Rightarrow> string \<Rightarrow> bool" where
  "siblings p q \<longleftrightarrow> p \<noteq> q \<and> (\<exists>d m n. plain_name m \<and> plain_name n \<and> p = filepath_Join [d, m] \<and> q = filepath_Join [d, n])"

text \<open>
  A successful write leaves the data in the file; no write, failed ones included, touches another
  file of the directory, and nothing else the package calls touches a file.
\<close>

definition file_laws :: "'w test_lib \<Rightarrow> bool" where
  "file_laws T \<longleftrightarrow>
     (\<forall>p d w. (fst (te_WriteFile T p d w) = Ok () \<longrightarrow> te_file T (snd (te_WriteFile T p d w)) p = Some d) \<and>
        (\<forall>q. siblings p q \<longrightarrow> te_file T (snd (te_WriteFile T p d w)) q = te_file T w q)) \<and>
     (\<forall>s w. te_file T (snd (te_MkdirTemp T s w)) = te_file T w) \<and>
     (\<forall>w. te_file T (snd (te_GenerateKey T w)) = te_file T w) \<and>
     (\<forall>n w. te_file T (snd (te_randInt T n w)) = te_file T w) \<and>
     (\<forall>w. te_file T (snd (te_Now T w)) = te_file T w) \<and>
     (\<forall>t p pub k w. te_file T (snd (te_CreateCertificate T t p pub k w)) = te_file T w)"

definition valid_at :: "int \<Rightarrow> cert_template \<Rightarrow> bool" where
  "valid_at t tmpl \<longleftrightarrow> ct_NotBefore tmpl \<le> t \<and> t \<le> ct_NotAfter tmpl"

text \<open>
  A certificate has the URIs of its template and the public key it was made for, and at time \<open>t\<close>
  it verifies for the usages of its template against the authority whose key signed it.
\<close>

definition issue_laws :: "'w test_lib \<Rightarrow> crypto_lib \<Rightarrow> int \<Rightarrow> bool" where
  "issue_laws T C t \<longleftrightarrow>
     (\<forall>tmpl p pub k w der. fst (te_CreateCertificate T tmpl p pub k w) = Ok der \<longrightarrow>
        (\<exists>cert. x509_Parse C der = Ok cert \<and> xc_URIs cert = ct_URIs tmpl \<and> xc_PublicKey cert = PubECDSA pub)) \<and>
     (\<forall>catmpl caKey caDer ca tmpl pub der cert usage w w'.
        fst (te_CreateCertificate T catmpl (SelfSigned catmpl) (ek_PublicKey caKey) caKey w) = Ok caDer \<longrightarrow>
        ct_IsCA catmpl \<longrightarrow> ct_BasicConstraintsValid catmpl \<longrightarrow> KeyUsageCertSign \<in> set (ct_KeyUsage catmpl) \<longrightarrow>
        valid_at t catmpl \<longrightarrow> x509_Parse C caDer = Ok ca \<longrightarrow>
        fst (te_CreateCertificate T tmpl (IssuedBy ca) pub caKey w') = Ok der \<longrightarrow>
        valid_at t tmpl \<longrightarrow> x509_Parse C der = Ok cert \<longrightarrow> usage \<in> set (ct_ExtKeyUsage tmpl) \<longrightarrow>
        x509_Verify C cert (te_EncodeToMemory T ''CERTIFICATE'' caDer) [] usage = Ok ())"

text \<open>The clock while the tests run: at most an hour after \<open>t\<close> and at most a year before it.\<close>

definition runs_at :: "'w test_lib \<Rightarrow> int \<Rightarrow> bool" where
  "runs_at T t \<longleftrightarrow> (\<forall>w. t - 365 * 24 * timeHour \<le> fst (te_Now T w) \<and> fst (te_Now T w) \<le> t + timeHour)"

definition cert_laws :: "'w test_lib \<Rightarrow> crypto_lib \<Rightarrow> int \<Rightarrow> bool" where
  "cert_laws T C t \<longleftrightarrow> file_laws T \<and> issue_laws T C t \<and> runs_at T t"

section \<open>Certificates on disk\<close>

text \<open>The certificate and key files belong together and the check accepts the certificate.\<close>

definition serves :: "'w test_lib \<Rightarrow> crypto_lib \<Rightarrow> 'w \<Rightarrow> string \<Rightarrow> string \<Rightarrow> string \<Rightarrow> (bytes \<Rightarrow> bytes \<Rightarrow> bool) \<Rightarrow> bool" where
  "serves T C w certPath keyPath caPath accepts \<longleftrightarrow>
     (\<exists>der leaf key keyDER caPEM. te_file T w certPath = Some (te_EncodeToMemory T ''CERTIFICATE'' der) \<and>
        te_file T w keyPath = Some (te_EncodeToMemory T ''EC PRIVATE KEY'' keyDER) \<and> te_file T w caPath = Some caPEM \<and>
        x509_Parse C der = Ok leaf \<and> te_MarshalECPrivateKey T key = Ok keyDER \<and>
        xc_PublicKey leaf = PubECDSA (ek_PublicKey key) \<and> accepts der caPEM)"

definition authority :: "'w test_lib \<Rightarrow> crypto_lib \<Rightarrow> int \<Rightarrow> 'w \<Rightarrow> string \<Rightarrow> x509_cert \<Rightarrow> ecdsa_key \<Rightarrow> bool" where
  "authority T C t w caPath ca caKey \<longleftrightarrow>
     (\<exists>tmpl der w0. fst (te_CreateCertificate T tmpl (SelfSigned tmpl) (ek_PublicKey caKey) caKey w0) = Ok der \<and>
        ct_IsCA tmpl \<and> ct_BasicConstraintsValid tmpl \<and> KeyUsageCertSign \<in> set (ct_KeyUsage tmpl) \<and> valid_at t tmpl \<and>
        x509_Parse C der = Ok ca \<and> te_file T w caPath = Some (te_EncodeToMemory T ''CERTIFICATE'' der))"

lemma file_keeps:
  assumes "file_laws T"
  shows "te_WriteFile T p d w = (r, w') \<Longrightarrow> siblings p q \<Longrightarrow> te_file T w' q = te_file T w q"
    and "te_WriteFile T p d w = (Ok (), w') \<Longrightarrow> te_file T w' p = Some d"
    and "te_MkdirTemp T s w = (r1, w') \<Longrightarrow> te_file T w' = te_file T w"
    and "te_GenerateKey T w = (r2, w') \<Longrightarrow> te_file T w' = te_file T w"
    and "te_Now T w = (n, w') \<Longrightarrow> te_file T w' = te_file T w"
    and "te_CreateCertificate T tmpl par pub k w = (r3, w') \<Longrightarrow> te_file T w' = te_file T w"
    and "serialNumber T w = (serial, w') \<Longrightarrow> te_file T w' = te_file T w"
proof -
  note f = assms [unfolded file_laws_def]
  show "te_WriteFile T p d w = (r, w') \<Longrightarrow> siblings p q \<Longrightarrow> te_file T w' q = te_file T w q"
    "te_WriteFile T p d w = (Ok (), w') \<Longrightarrow> te_file T w' p = Some d"
    "te_MkdirTemp T s w = (r1, w') \<Longrightarrow> te_file T w' = te_file T w"
    "te_GenerateKey T w = (r2, w') \<Longrightarrow> te_file T w' = te_file T w"
    "te_Now T w = (n, w') \<Longrightarrow> te_file T w' = te_file T w"
    "te_CreateCertificate T tmpl par pub k w = (r3, w') \<Longrightarrow> te_file T w' = te_file T w"
    using f by (metis fst_conv snd_conv)+
  have r: "te_file T (snd (te_randInt T m w)) = te_file T w" "te_file T (snd (te_Now T w)) = te_file T w" for m w
    using f by blast+
  show "serialNumber T w = (serial, w') \<Longrightarrow> te_file T w' = te_file T w"
    using r(1) [of "2 ^ 128" w] r(2)
    by (cases "te_randInt T (2 ^ 128) w"; cases "fst (te_randInt T (2 ^ 128) w)")
      (auto simp: serialNumber_def, (metis snd_conv)+)
qed

lemma case_prod_eq: "(case p of (a, b) \<Rightarrow> f a b) = z \<longleftrightarrow> (\<exists>a b. p = (a, b) \<and> f a b = z)"
  by (cases p) simp

lemma seqR_keeps: "(\<And>x s. p = (Ok x, s) \<Longrightarrow> g s = a \<Longrightarrow> g (snd (f x s)) = a) \<Longrightarrow> g (snd p) = a \<Longrightarrow> g (snd (seqR p f)) = a"
  by (auto simp: seqR_def split: prod.splits res.splits)

lemma pureThen_keeps: "(\<And>x. m = Ok x \<Longrightarrow> g (snd (f x)) = a) \<Longrightarrow> g s = a \<Longrightarrow> g (snd (pureThen m s f)) = a"
  by (auto simp: pureThen_def split: res.splits)

text \<open>The times of a template around the time the tests run.\<close>

lemma template_valid:
  assumes "runs_at T t" "te_Now T w = (before, w1)" "te_Now T w1 = (after, w2)"
  shows "before - timeHour \<le> t \<and> t \<le> after + 365 * 24 * timeHour"
  using assms(1) [unfolded runs_at_def, rule_format, of w] assms(1) [unfolded runs_at_def, rule_format, of w1] assms(2,3)
  by simp

lemma newCA_Ok:
  assumes "cert_laws T C t" "newCA T C cn w = (Ok (ca, key, pem), w')"
  shows "te_file T w' = te_file T w \<and> (\<forall>w. te_file T w caPath = Some pem \<longrightarrow> authority T C t w caPath ca key)"
proof -
  note l = assms(1) [unfolded cert_laws_def]
  obtain w1 serial w2 before w3 after w4 der where g: "te_GenerateKey T w = (Ok key, w1)"
      "serialNumber T w1 = (serial, w2)" "te_Now T w2 = (before, w3)" "te_Now T w3 = (after, w4)"
    and d: "te_CreateCertificate T (caTemplate serial cn before after) (SelfSigned (caTemplate serial cn before after))
        (ek_PublicKey key) key w4 = (Ok der, w')"
    and p: "x509_Parse C der = Ok ca" "pem = te_EncodeToMemory T ''CERTIFICATE'' der"
    using assms(2) by (clarsimp simp: newCA_def seqR_Ok bindR_eq_Ok Let_def case_prod_eq)
  have "te_file T w' = te_file T w"
    using file_keeps(4) [OF _ g(1)] file_keeps(7) [OF _ g(2)] file_keeps(5) [OF _ g(3)] file_keeps(5) [OF _ g(4)]
      file_keeps(6) [OF _ d] l by simp
  moreover have "valid_at t (caTemplate serial cn before after)"
    using template_valid [OF _ g(3,4)] l by (simp add: valid_at_def caTemplate_def)
  then have "authority T C t w0 caPath ca key" if "te_file T w0 caPath = Some pem" for w0
    unfolding authority_def
    by (intro exI [of _ "caTemplate serial cn before after"] exI [of _ der] exI [of _ w4])
      (simp add: d p that, simp add: caTemplate_def)
  ultimately show ?thesis by blast
qed

text \<open>Writing a leaf touches its two files only; when it succeeds, they hold what the checks accept.\<close>

lemma writeLeaf_keeps:
  assumes "file_laws T" "siblings cp q" "siblings kp q"
  shows "te_file T (snd (writeLeaf T cp kp ca k cn u us w)) q = te_file T w q"
proof -
  have f: "p = (r, w') \<Longrightarrow> te_file T (snd p) q = te_file T w0 q \<Longrightarrow> te_file T w' q = te_file T w0 q"
    for p :: "'c \<times> 'a" and r w' w0 by simp
  note k = file_keeps [OF assms(1)]
  have wr: "te_file T (snd (te_WriteFile T p d w0)) q = te_file T w0 q" if "siblings p q" for p d w0
    using k(1) that by (metis prod.collapse)
  show ?thesis
    unfolding writeLeaf_def
    apply (rule seqR_keeps [where g = "\<lambda>w. te_file T w q"])
     apply (rule pureThen_keeps [where g = "\<lambda>w. te_file T w q"])
      apply (simp add: Let_def split_beta)
      apply (rule seqR_keeps [where g = "\<lambda>w. te_file T w q"])
       apply (rule pureThen_keeps [where g = "\<lambda>w. te_file T w q"])
        apply (rule seqR_keeps [where g = "\<lambda>w. te_file T w q"])
         apply (simp add: wr assms)
        apply (simp add: wr assms)
       apply assumption
    subgoal using k(5,6,7) by (metis prod.collapse)
     apply assumption
    subgoal using k(4) by (metis prod.collapse)
    done
qed

lemma writeLeaf_Ok:
  assumes "cert_laws T C t" "authority T C t w caPath ca caKey" "siblings cp caPath" "siblings kp caPath" "siblings kp cp"
    and "writeLeaf T cp kp ca caKey cn u us w = (Ok (), w')" "te_ParseURL T u = Ok u"
    and "\<And>der leaf pem. x509_Parse C der = Ok leaf \<Longrightarrow> xc_URIs leaf = [u] \<Longrightarrow>
           \<forall>usage\<in>set us. x509_Verify C leaf pem [] usage = Ok () \<Longrightarrow> accepts der pem"
  shows "serves T C w' cp kp caPath accepts"
proof -
  note l = assms(1) [unfolded cert_laws_def]
  obtain w1 key serial w2 before w3 after w4 w5 w6 der keyDER where g: "te_GenerateKey T w = (Ok key, w1)"
      "serialNumber T w1 = (serial, w2)" "te_Now T w2 = (before, w3)" "te_Now T w3 = (after, w4)"
    and d: "te_CreateCertificate T (leafTemplate serial cn before after us u)
        (IssuedBy ca) (ek_PublicKey key) caKey w4 = (Ok der, w5)"
    and p: "te_MarshalECPrivateKey T key = Ok keyDER"
      "te_WriteFile T cp (te_EncodeToMemory T ''CERTIFICATE'' der) w5 = (Ok (), w6)"
      "te_WriteFile T kp (te_EncodeToMemory T ''EC PRIVATE KEY'' keyDER) w6 = (Ok (), w')"
    using assms(6,7) by (clarsimp simp: writeLeaf_def seqR_Ok pureThen_Ok Let_def case_prod_eq)
  note k = file_keeps [OF conjunct1 [OF l]]
  obtain catmpl caDer w0 where a: "fst (te_CreateCertificate T catmpl (SelfSigned catmpl) (ek_PublicKey caKey) caKey w0) = Ok caDer"
      "ct_IsCA catmpl" "ct_BasicConstraintsValid catmpl" "KeyUsageCertSign \<in> set (ct_KeyUsage catmpl)" "valid_at t catmpl"
      "x509_Parse C caDer = Ok ca" "te_file T w caPath = Some (te_EncodeToMemory T ''CERTIFICATE'' caDer)"
    using assms(2) unfolding authority_def by (elim exE conjE) (rule that; assumption)
  obtain leaf where leaf: "x509_Parse C der = Ok leaf" "xc_URIs leaf = [u]" "xc_PublicKey leaf = PubECDSA (ek_PublicKey key)"
    using conjunct1 [OF conjunct1 [OF conjunct2 [OF l], unfolded issue_laws_def], rule_format,
        OF arg_cong [OF d, of fst, unfolded fst_conv]] by (auto simp: leafTemplate_def)
  have v: "valid_at t (leafTemplate serial cn before after us u)"
    using template_valid [OF _ g(3,4)] l by (simp add: valid_at_def leafTemplate_def)
  have "x509_Verify C leaf (te_EncodeToMemory T ''CERTIFICATE'' caDer) [] usage = Ok ()" if "usage \<in> set us" for usage
    using conjunct2 [OF conjunct1 [OF conjunct2 [OF l], unfolded issue_laws_def], rule_format,
        OF a(1-6) arg_cong [OF d, of fst, unfolded fst_conv] v leaf(1)] that by (simp add: leafTemplate_def)
  then have acc: "accepts der (te_EncodeToMemory T ''CERTIFICATE'' caDer)"
    using assms(8) leaf by blast
  have "te_file T w' cp = Some (te_EncodeToMemory T ''CERTIFICATE'' der)"
    using k(1) [OF p(3) assms(5)] k(2) [OF p(2)] by simp
  moreover have "te_file T w' kp = Some (te_EncodeToMemory T ''EC PRIVATE KEY'' keyDER)"
    using k(2) [OF p(3)] .
  moreover have "te_file T w' caPath = Some (te_EncodeToMemory T ''CERTIFICATE'' caDer)"
    using k(1) [OF p(3) assms(4)] k(1) [OF p(2) assms(3)] k(4) [OF g(1)] k(7) [OF g(2)] k(5) [OF g(3)] k(5) [OF g(4)]
      k(6) [OF d] a(7) by simp
  ultimately show ?thesis
    unfolding serves_def using leaf p(1) acc by blast
qed

section \<open>The cached certificates\<close>

text \<open>The leaf certificates that can be asked for, with the stem of their file names.\<close>

datatype test_leaf = NodeLeaf string | ServiceLeaf string string

fun leaf_file :: "test_leaf \<Rightarrow> string" where
  "leaf_file (NodeLeaf nodeID) = nodeID"
| "leaf_file (ServiceLeaf certName serviceName) = certName"

text \<open>Names a test may use: nothing that shares a file, no separators, URIs that parse to themselves.\<close>

definition separate :: "'w test_lib \<Rightarrow> test_leaf set \<Rightarrow> bool" where
  "separate T S \<longleftrightarrow> inj_on leaf_file S \<and>
     (\<forall>l\<in>S. CHR ''/'' \<notin> set (leaf_file l) \<and> CHR 0x00 \<notin> set (leaf_file l) \<and> leaf_file l \<noteq> ''ca'' \<and> leaf_file l \<noteq> ''service-ca'') \<and>
     (\<forall>n. NodeLeaf n \<in> S \<longrightarrow> n \<noteq> [] \<and> te_ParseURL T (spiffeNodePrefix @ n) = Ok (spiffeNodePrefix @ n)) \<and>
     (\<forall>c s. ServiceLeaf c s \<in> S \<longrightarrow> s \<noteq> [] \<and> te_ParseURL T (spiffeServicePrefix @ s) = Ok (spiffeServicePrefix @ s))"

definition crt_path :: "cert_bundle \<Rightarrow> test_leaf \<Rightarrow> string" where
  "crt_path b l = filepath_Join [bd_dir b, leaf_file l @ ''.crt'']"

definition key_path :: "cert_bundle \<Rightarrow> test_leaf \<Rightarrow> string" where
  "key_path b l = filepath_Join [bd_dir b, leaf_file l @ ''.key'']"

text \<open>The check the program applies to the certificate: that of a peer, or that of a service.\<close>

fun leaf_accepted :: "crypto_lib \<Rightarrow> test_leaf \<Rightarrow> bytes \<Rightarrow> bytes \<Rightarrow> bool" where
  "leaf_accepted C (NodeLeaf n) der caPEM \<longleftrightarrow>
     verifyPeerCertificate C [der] caPEM n ExtKeyUsageServerAuth = Ok () \<and>
     verifyPeerCertificate C [der] caPEM n ExtKeyUsageClientAuth = Ok ()"
| "leaf_accepted C (ServiceLeaf c s) der caPEM \<longleftrightarrow> VerifyServiceCertificate C [der] (Some caPEM) s = Ok ()"

fun leaf_ca_path :: "cert_bundle \<Rightarrow> test_leaf \<Rightarrow> string" where
  "leaf_ca_path b (NodeLeaf n) = bd_caCertPath b"
| "leaf_ca_path b (ServiceLeaf c s) = bd_serviceCACertPath b"

fun leaf_ca :: "cert_bundle \<Rightarrow> test_leaf \<Rightarrow> x509_cert" where
  "leaf_ca b (NodeLeaf n) = bd_caCert b"
| "leaf_ca b (ServiceLeaf c s) = bd_serviceCACert b"

fun leaf_ca_key :: "cert_bundle \<Rightarrow> test_leaf \<Rightarrow> ecdsa_key" where
  "leaf_ca_key b (NodeLeaf n) = bd_caKey b"
| "leaf_ca_key b (ServiceLeaf c s) = bd_serviceCAKey b"

fun leaf_uri :: "test_leaf \<Rightarrow> string" where
  "leaf_uri (NodeLeaf n) = spiffeNodePrefix @ n"
| "leaf_uri (ServiceLeaf c s) = spiffeServicePrefix @ s"

fun cached :: "cert_bundle \<Rightarrow> test_leaf \<Rightarrow> bool" where
  "cached b (NodeLeaf n) \<longleftrightarrow> bd_nodes b n \<noteq> None"
| "cached b (ServiceLeaf c s) \<longleftrightarrow> bd_service b (c @ CHR 0x00 # s) \<noteq> None"

definition stands :: "'w test_lib \<Rightarrow> crypto_lib \<Rightarrow> cert_bundle \<Rightarrow> 'w \<Rightarrow> test_leaf \<Rightarrow> bool" where
  "stands T C b w l \<longleftrightarrow> serves T C w (crt_path b l) (key_path b l) (leaf_ca_path b l) (leaf_accepted C l)"

definition node_files :: "cert_bundle \<Rightarrow> string \<Rightarrow> IdentityConfig" where
  "node_files b n = \<lparr>ic_Cert = crt_path b (NodeLeaf n), ic_Key = key_path b (NodeLeaf n), ic_CA = bd_caCertPath b\<rparr>"

definition service_files :: "cert_bundle \<Rightarrow> string \<Rightarrow> string \<Rightarrow> ServiceE2EConfig" where
  "service_files b c s = \<lparr>se_Cert = crt_path b (ServiceLeaf c s), se_Key = key_path b (ServiceLeaf c s)\<rparr>"

text \<open>
  The invariant: both authorities are on disk, the caches hold the paths of allowed leaves, and
  every cached leaf stands.
\<close>

definition bundle_inv :: "'w test_lib \<Rightarrow> crypto_lib \<Rightarrow> int \<Rightarrow> test_leaf set \<Rightarrow> cert_bundle \<Rightarrow> 'w \<Rightarrow> bool" where
  "bundle_inv T C t S b w \<longleftrightarrow>
     bd_caCertPath b = filepath_Join [bd_dir b, ''ca.crt''] \<and>
     bd_serviceCACertPath b = filepath_Join [bd_dir b, ''service-ca.crt''] \<and>
     authority T C t w (bd_caCertPath b) (bd_caCert b) (bd_caKey b) \<and>
     authority T C t w (bd_serviceCACertPath b) (bd_serviceCACert b) (bd_serviceCAKey b) \<and>
     (\<forall>n ident. bd_nodes b n = Some ident \<longrightarrow> NodeLeaf n \<in> S \<and> ident = node_files b n) \<and>
     (\<forall>k e. bd_service b k = Some e \<longrightarrow> (\<exists>c s. k = c @ CHR 0x00 # s \<and> ServiceLeaf c s \<in> S \<and> e = service_files b c s)) \<and>
     (\<forall>l\<in>S. cached b l \<longrightarrow> stands T C b w l)"

lemma bundle_invD:
  assumes "bundle_inv T C t S b w"
  shows "authority T C t w (bd_caCertPath b) (bd_caCert b) (bd_caKey b)"
    and "authority T C t w (bd_serviceCACertPath b) (bd_serviceCACert b) (bd_serviceCAKey b)"
    and "bd_caCertPath b = filepath_Join [bd_dir b, ''ca.crt'']"
    and "bd_serviceCACertPath b = filepath_Join [bd_dir b, ''service-ca.crt'']"
    and "l \<in> S \<Longrightarrow> cached b l \<Longrightarrow> stands T C b w l"
  by (insert assms, unfold bundle_inv_def,
      (elim conjE, (assumption | (drule (1) bspec, drule (1) mp, assumption)))+)

lemma separate_plain: "separate T S \<Longrightarrow> l \<in> S \<Longrightarrow> plain_name (leaf_file l @ ''.crt'') \<and> plain_name (leaf_file l @ ''.key'')"
  using plain_suffix by (simp add: separate_def)

lemma ca_plain: "plain_name ''ca.crt''" "plain_name ''service-ca.crt''"
  by (simp_all add: plain_name_def)

lemma siblingsI: "plain_name m \<Longrightarrow> plain_name n \<Longrightarrow> m \<noteq> n \<Longrightarrow> siblings (filepath_Join [d, m]) (filepath_Join [d, n])"
  unfolding siblings_def using Join_inject by blast

text \<open>The files of a leaf are its own: not those of another leaf, and not those of an authority.\<close>

lemma suffix_ne: "a @ ''.crt'' \<noteq> b @ ''.key''"
  using arg_cong [of "a @ ''.crt''" "b @ ''.key''" last] by auto

lemma own_files:
  assumes "separate T S" "l \<in> S"
  shows "siblings (key_path b l) (crt_path b l)"
    and "l' \<in> S \<Longrightarrow> l' \<noteq> l \<Longrightarrow> siblings (crt_path b l) (crt_path b l') \<and> siblings (key_path b l) (crt_path b l') \<and>
      siblings (crt_path b l) (key_path b l') \<and> siblings (key_path b l) (key_path b l')"
    and "ca \<in> {''ca.crt'', ''service-ca.crt''} \<Longrightarrow> siblings (crt_path b l) (filepath_Join [bd_dir b, ca]) \<and>
      siblings (key_path b l) (filepath_Join [bd_dir b, ca])"
proof -
  note p = separate_plain [OF assms] and n = suffix_ne suffix_ne [symmetric]
  show "siblings (key_path b l) (crt_path b l)"
    unfolding key_path_def crt_path_def using siblingsI p n by blast
  show "siblings (crt_path b l) (crt_path b l') \<and> siblings (key_path b l) (crt_path b l') \<and>
      siblings (crt_path b l) (key_path b l') \<and> siblings (key_path b l) (key_path b l')" if "l' \<in> S" "l' \<noteq> l"
  proof -
    have "leaf_file l \<noteq> leaf_file l'" using assms that by (auto simp: separate_def dest: inj_onD)
    then show ?thesis unfolding key_path_def crt_path_def
      using siblingsI p separate_plain [OF assms(1) that(1)] n by simp
  qed
  show "siblings (crt_path b l) (filepath_Join [bd_dir b, ca]) \<and> siblings (key_path b l) (filepath_Join [bd_dir b, ca])"
    if "ca \<in> {''ca.crt'', ''service-ca.crt''}"
  proof -
    have "ca = ''ca'' @ ''.crt'' \<or> ca = ''service-ca'' @ ''.crt''" using that by auto
    then obtain c where c: "ca = c @ ''.crt''" "c \<in> {''ca'', ''service-ca''}" by blast
    then have "leaf_file l \<noteq> c" using assms by (auto simp: separate_def)
    then show ?thesis
      unfolding key_path_def crt_path_def using siblingsI p ca_plain c n that by auto
  qed
qed

lemma serves_cong:
  assumes "te_file T w' cp = te_file T w cp" "te_file T w' kp = te_file T w kp" "te_file T w' ca = te_file T w ca"
  shows "serves T C w' cp kp ca P = serves T C w cp kp ca P"
  using assms by (simp add: serves_def)

lemma authority_cong: "te_file T w' ca = te_file T w ca \<Longrightarrow> authority T C t w ca c k \<Longrightarrow> authority T C t w' ca c k"
  by (simp add: authority_def)

text \<open>Writing the leaf \<open>l\<close> keeps what stands; if it succeeds, \<open>l\<close> stands too.\<close>

lemma leaf_written:
  assumes "cert_laws T C t" "separate T S" "bundle_inv T C t S b w" "l \<in> S"
    and "writeLeaf T (crt_path b l) (key_path b l) (leaf_ca b l) (leaf_ca_key b l) (leaf_file l) (leaf_uri l)
          [ExtKeyUsageServerAuth, ExtKeyUsageClientAuth] w = (r, w')"
  shows "authority T C t w' (bd_caCertPath b) (bd_caCert b) (bd_caKey b)"
    and "authority T C t w' (bd_serviceCACertPath b) (bd_serviceCACert b) (bd_serviceCAKey b)"
    and "l' \<in> S \<Longrightarrow> l' \<noteq> l \<Longrightarrow> cached b l' \<Longrightarrow> stands T C b w' l'"
    and "r = Ok () \<Longrightarrow> stands T C b w' l"
proof -
  note i = bundle_invD [OF assms(3)]
  have keep: "te_file T w' q = te_file T w q" if "siblings (crt_path b l) q" "siblings (key_path b l) q" for q
    using writeLeaf_keeps [of T "crt_path b l" q "key_path b l" "leaf_ca b l" "leaf_ca_key b l"] that assms(1,5)
    by (metis cert_laws_def snd_conv)
  note own = own_files [OF assms(2,4)]
  have ca: "te_file T w' (bd_caCertPath b) = te_file T w (bd_caCertPath b)"
    "te_file T w' (bd_serviceCACertPath b) = te_file T w (bd_serviceCACertPath b)"
    using keep own(3) i(3,4) by simp_all
  then show a: "authority T C t w' (bd_caCertPath b) (bd_caCert b) (bd_caKey b)"
    "authority T C t w' (bd_serviceCACertPath b) (bd_serviceCACert b) (bd_serviceCAKey b)"
    using authority_cong [OF ca(1) i(1)] authority_cong [OF ca(2) i(2)] by simp_all
  have cal: "te_file T w' (leaf_ca_path b l') = te_file T w (leaf_ca_path b l')" for l'
    using ca by (cases l') simp_all
  show "stands T C b w' l'" if "l' \<in> S" "l' \<noteq> l" "cached b l'"
    unfolding stands_def
    using serves_cong [of T w' "crt_path b l'" w "key_path b l'" "leaf_ca_path b l'"] keep own(2) [OF that(1,2)] cal
      i(5) [OF that(1,3), unfolded stands_def] by simp
  show "stands T C b w' l" if "r = Ok ()"
    unfolding stands_def
  proof (rule writeLeaf_Ok [OF assms(1) _ _ _ own(1) _ _])
    show "authority T C t w (leaf_ca_path b l) (leaf_ca b l) (leaf_ca_key b l)" using i(1,2) by (cases l) simp_all
    show "siblings (crt_path b l) (leaf_ca_path b l)" "siblings (key_path b l) (leaf_ca_path b l)"
      using own(3) i(3,4) by (cases l; simp)+
    show "writeLeaf T (crt_path b l) (key_path b l) (leaf_ca b l) (leaf_ca_key b l) (leaf_file l) (leaf_uri l)
          [ExtKeyUsageServerAuth, ExtKeyUsageClientAuth] w = (Ok (), w')"
      using assms(5) that by simp
    show "te_ParseURL T (leaf_uri l) = Ok (leaf_uri l)"
      using assms(2,4) by (cases l) (simp_all add: separate_def)
    fix der leaf pem
    assume v: "x509_Parse C der = Ok leaf" "xc_URIs leaf = [leaf_uri l]"
      "\<forall>usage\<in>set [ExtKeyUsageServerAuth, ExtKeyUsageClientAuth]. x509_Verify C leaf pem [] usage = Ok ()"
    have tc: "trusted_chain C [der] pem usage leaf" if "usage \<in> {ExtKeyUsageServerAuth, ExtKeyUsageClientAuth}" for usage
      unfolding trusted_chain_def using v that by (intro exI [of _ "[]"]) auto
    show "leaf_accepted C l der pem"
    proof (cases l)
      case (NodeLeaf n)
      then have "names spiffeNodePrefix leaf n"
        using v(2) assms(2,4) by (simp add: names_iff separate_def hasPrefix_iff)
      then show ?thesis using tc NodeLeaf by (auto simp: verifyPeerCertificate_Ok)
    next
      case (ServiceLeaf c s)
      then have "names spiffeServicePrefix leaf s" "s \<noteq> []"
        using v(2) assms(2,4) by (auto simp: names_iff separate_def hasPrefix_iff)
      then show ?thesis using tc ServiceLeaf by (auto simp: VerifyServiceCertificate_Ok)
    qed
  qed
qed

section \<open>The operations\<close>

definition same_files :: "cert_bundle \<Rightarrow> cert_bundle \<Rightarrow> bool" where
  "same_files b b' \<longleftrightarrow> bd_dir b' = bd_dir b \<and> bd_caCertPath b' = bd_caCertPath b \<and> bd_caCert b' = bd_caCert b \<and>
     bd_caKey b' = bd_caKey b \<and> bd_serviceCACertPath b' = bd_serviceCACertPath b \<and>
     bd_serviceCACert b' = bd_serviceCACert b \<and> bd_serviceCAKey b' = bd_serviceCAKey b"

lemma same_files_paths:
  assumes "same_files b b'"
  shows "crt_path b' l = crt_path b l" "key_path b' l = key_path b l" "leaf_ca_path b' l = leaf_ca_path b l"
    "stands T C b' w l = stands T C b w l" "node_files b' n = node_files b n" "service_files b' c s = service_files b c s"
proof -
  show p: "crt_path b' l = crt_path b l" "key_path b' l = key_path b l" "leaf_ca_path b' l = leaf_ca_path b l"
    using assms by (simp_all add: same_files_def crt_path_def key_path_def, cases l, simp_all)
  then show "stands T C b' w l = stands T C b w l" by (simp add: stands_def)
  show "node_files b' n = node_files b n" "service_files b' c s = service_files b c s"
    using assms by (simp_all add: node_files_def service_files_def same_files_def crt_path_def key_path_def)
qed

text \<open>A leaf that was not cached is written and, if that succeeds, cached.\<close>

lemma bundle_inv_write:
  assumes "cert_laws T C t" "separate T S" "bundle_inv T C t S b w" "l \<in> S" "\<not> cached b l"
    and "writeLeaf T (crt_path b l) (key_path b l) (leaf_ca b l) (leaf_ca_key b l) (leaf_file l) (leaf_uri l)
          [ExtKeyUsageServerAuth, ExtKeyUsageClientAuth] w = (r, w')"
    and "same_files b b'" "\<And>l'. l' \<in> S \<Longrightarrow> cached b' l' \<Longrightarrow> cached b l' \<or> (l' = l \<and> r = Ok ())"
    and "\<And>n ident. bd_nodes b' n = Some ident \<Longrightarrow> NodeLeaf n \<in> S \<and> ident = node_files b n"
    and "\<And>k e. bd_service b' k = Some e \<Longrightarrow> \<exists>c s. k = c @ CHR 0x00 # s \<and> ServiceLeaf c s \<in> S \<and> e = service_files b c s"
  shows "bundle_inv T C t S b' w'"
proof -
  note w = leaf_written [OF assms(1-4,6)]
  have "stands T C b w' l'" if "l' \<in> S" "cached b' l'" for l'
    using assms(5) assms(8) [OF that] w(3) [OF that(1)] w(4) by (cases "l' = l") auto
  then have st: "\<forall>l\<in>S. cached b' l \<longrightarrow> stands T C b' w' l"
    by (simp add: same_files_paths(4) [OF assms(7)])
  have "authority T C t w' (bd_caCertPath b') (bd_caCert b') (bd_caKey b')"
    "authority T C t w' (bd_serviceCACertPath b') (bd_serviceCACert b') (bd_serviceCAKey b')"
    "bd_caCertPath b' = filepath_Join [bd_dir b', ''ca.crt'']"
    "bd_serviceCACertPath b' = filepath_Join [bd_dir b', ''service-ca.crt'']"
    using assms(7) [unfolded same_files_def] bundle_invD(3,4) [OF assms(3)] w(1,2) by simp_all
  moreover have "\<forall>n ident. bd_nodes b' n = Some ident \<longrightarrow> NodeLeaf n \<in> S \<and> ident = node_files b' n"
    unfolding same_files_paths(5) [OF assms(7)] using assms(9) by blast
  moreover have "\<forall>k e. bd_service b' k = Some e \<longrightarrow> (\<exists>c s. k = c @ CHR 0x00 # s \<and> ServiceLeaf c s \<in> S \<and> e = service_files b' c s)"
    unfolding same_files_paths(6) [OF assms(7)] using assms(10) by blast
  ultimately show ?thesis
    unfolding bundle_inv_def using st by (intro conjI)
qed

lemma cached_NodeLeaf_update: "cached (b\<lparr>bd_nodes := (bd_nodes b)(n \<mapsto> ident)\<rparr>) l \<longleftrightarrow> cached b l \<or> l = NodeLeaf n"
  by (cases l) auto

lemma separate_key:
  assumes "separate T S" "ServiceLeaf c s \<in> S" "ServiceLeaf c' s' \<in> S" "c @ CHR 0x00 # s = c' @ CHR 0x00 # s'"
  shows "c = c' \<and> s = s'"
proof -
  have "CHR 0x00 \<notin> set c" "CHR 0x00 \<notin> set c'" using assms(1-3) by (auto simp: separate_def)
  then show ?thesis using assms(4) by (auto simp: append_eq_append_conv2 append_eq_Cons_conv Cons_eq_append_conv)
qed

lemma cached_ServiceLeaf_update:
  assumes "separate T S" "ServiceLeaf c s \<in> S" "l \<in> S"
  shows "cached (b\<lparr>bd_service := (bd_service b)(c @ CHR 0x00 # s \<mapsto> e)\<rparr>) l \<longleftrightarrow> cached b l \<or> l = ServiceLeaf c s"
  using assms separate_key [OF assms(1) _ assms(2)] by (cases l) auto

lemma nodeIdentity_inv:
  assumes "cert_laws T C t" "separate T S" "bundle_inv T C t S b w" "NodeLeaf n \<in> S"
    and "nodeIdentity T n (b, w) = (r, b', w')"
  shows "bundle_inv T C t S b' w'" "same_files b b'" "cached b l \<Longrightarrow> cached b' l"
    "r = Ok ident \<Longrightarrow> ident = node_files b n \<and> cached b' (NodeLeaf n)"
proof -
  have nodes: "\<And>m ident. bd_nodes b m = Some ident \<Longrightarrow> NodeLeaf m \<in> S \<and> ident = node_files b m"
    and services: "\<And>k e. bd_service b k = Some e \<Longrightarrow> \<exists>c s. k = c @ CHR 0x00 # s \<and> ServiceLeaf c s \<in> S \<and> e = service_files b c s"
    using assms(3) unfolding bundle_inv_def by blast+
  have main: "bundle_inv T C t S b' w' \<and> same_files b b' \<and> (cached b l \<longrightarrow> cached b' l) \<and>
      (r = Ok ident \<longrightarrow> ident = node_files b n \<and> cached b' (NodeLeaf n))"
  proof (cases "bd_nodes b n")
    case (Some identity)
    then show ?thesis
      using assms(3,5) nodes by (auto simp: nodeIdentity_def same_files_def)
  next
    case None
    obtain q w1 where q: "writeLeaf T (crt_path b (NodeLeaf n)) (key_path b (NodeLeaf n)) (leaf_ca b (NodeLeaf n))
        (leaf_ca_key b (NodeLeaf n)) (leaf_file (NodeLeaf n)) (leaf_uri (NodeLeaf n))
        [ExtKeyUsageServerAuth, ExtKeyUsageClientAuth] w = (q, w1)" by fastforce
    let ?b = "b\<lparr>bd_nodes := (bd_nodes b)(n \<mapsto> node_files b n)\<rparr>"
    have e: "(r, b', w') = (case q of Ok _ \<Rightarrow> (Ok (node_files b n), ?b, w1) | Err err \<Rightarrow> (Err err, b, w1) | Panic \<Rightarrow> (Panic, b, w1))"
      using assms(5) None q
      by (cases q) (auto simp: Let_def nodeIdentity_def crt_path_def key_path_def node_files_def spiffeNodePrefix_def)
    have u: "\<not> cached b (NodeLeaf n)" using None by simp
    note s = bundle_inv_write [OF assms(1-4) u q]
    have "bundle_inv T C t S ?b w1" if "q = Ok ()"
      using that nodes services assms(4) by (intro s) (auto simp: same_files_def cached_NodeLeaf_update split: if_splits)
    moreover have "bundle_inv T C t S b w1"
      using nodes services by (intro s) (auto simp: same_files_def)
    ultimately show ?thesis
      using e by (cases q) (auto simp: same_files_def cached_NodeLeaf_update)
  qed
  from main show "bundle_inv T C t S b' w'" "same_files b b'" "cached b l \<Longrightarrow> cached b' l"
    "r = Ok ident \<Longrightarrow> ident = node_files b n \<and> cached b' (NodeLeaf n)" by simp_all
qed

lemma serviceE2E_inv:
  assumes "cert_laws T C t" "separate T S" "bundle_inv T C t S b w" "ServiceLeaf c s \<in> S"
    and "serviceE2E T c s (b, w) = (r, b', w')"
  shows "bundle_inv T C t S b' w'" "same_files b b'" "l \<in> S \<Longrightarrow> cached b l \<Longrightarrow> cached b' l"
    "r = Ok e \<Longrightarrow> e = service_files b c s \<and> cached b' (ServiceLeaf c s)"
proof -
  have nodes: "\<And>m ident. bd_nodes b m = Some ident \<Longrightarrow> NodeLeaf m \<in> S \<and> ident = node_files b m"
    and services: "\<And>k e. bd_service b k = Some e \<Longrightarrow> \<exists>c s. k = c @ CHR 0x00 # s \<and> ServiceLeaf c s \<in> S \<and> e = service_files b c s"
    using assms(3) unfolding bundle_inv_def by blast+
  have main: "bundle_inv T C t S b' w' \<and> same_files b b' \<and> (l \<in> S \<longrightarrow> cached b l \<longrightarrow> cached b' l) \<and>
      (r = Ok e \<longrightarrow> e = service_files b c s \<and> cached b' (ServiceLeaf c s))"
  proof (cases "bd_service b (c @ CHR 0x00 # s)")
    case (Some e2e)
    obtain c' s' where "c @ CHR 0x00 # s = c' @ CHR 0x00 # s'" "ServiceLeaf c' s' \<in> S" "e2e = service_files b c' s'"
      using services [OF Some] by blast
    then have "e2e = service_files b c s" using separate_key [OF assms(2,4)] by blast
    then show ?thesis
      using Some assms(3,5) by (auto simp: serviceE2E_def same_files_def)
  next
    case None
    obtain q w1 where q: "writeLeaf T (crt_path b (ServiceLeaf c s)) (key_path b (ServiceLeaf c s)) (leaf_ca b (ServiceLeaf c s))
        (leaf_ca_key b (ServiceLeaf c s)) (leaf_file (ServiceLeaf c s)) (leaf_uri (ServiceLeaf c s))
        [ExtKeyUsageServerAuth, ExtKeyUsageClientAuth] w = (q, w1)" by fastforce
    let ?b = "b\<lparr>bd_service := (bd_service b)(c @ CHR 0x00 # s \<mapsto> service_files b c s)\<rparr>"
    have e: "(r, b', w') = (case q of Ok _ \<Rightarrow> (Ok (service_files b c s), ?b, w1) | Err err \<Rightarrow> (Err err, b, w1) | Panic \<Rightarrow> (Panic, b, w1))"
      using assms(5) None q
      by (cases q) (auto simp: Let_def serviceE2E_def crt_path_def key_path_def service_files_def spiffeServicePrefix_def)
    have u: "\<not> cached b (ServiceLeaf c s)" using None by simp
    note st = bundle_inv_write [OF assms(1-4) u q] and up = cached_ServiceLeaf_update [OF assms(2,4)]
    have "bundle_inv T C t S ?b w1" if "q = Ok ()"
      using that nodes services assms(4) by (intro st) (auto simp: same_files_def up split: if_splits)
    moreover have "bundle_inv T C t S b w1"
      using nodes services by (intro st) (auto simp: same_files_def)
    ultimately show ?thesis
      using e up [of l] by (cases q) (auto simp: same_files_def)
  qed
  from main show "bundle_inv T C t S b' w'" "same_files b b'" "l \<in> S \<Longrightarrow> cached b l \<Longrightarrow> cached b' l"
    "r = Ok e \<Longrightarrow> e = service_files b c s \<and> cached b' (ServiceLeaf c s)" by simp_all
qed

lemma newBundle_inv:
  assumes "cert_laws T C t" "newBundle T C w = (Ok b, w')"
  shows "bundle_inv T C t S b w'" "\<not> cached b l"
proof -
  obtain dir w1 ca k pem w2 w3 sca sk spem w4 where n: "newCA T C ''qoru-test-ca'' w1 = (Ok (ca, k, pem), w2)"
      "te_WriteFile T (filepath_Join [dir, ''ca.crt'']) pem w2 = (Ok (), w3)"
      "newCA T C ''qoru-test-service-ca'' w3 = (Ok (sca, sk, spem), w4)"
      "te_WriteFile T (filepath_Join [dir, ''service-ca.crt'']) spem w4 = (Ok (), w')"
    and b: "b = \<lparr>bd_dir = dir, bd_caCert = ca, bd_caKey = k, bd_caCertPath = filepath_Join [dir, ''ca.crt''],
          bd_serviceCACert = sca, bd_serviceCAKey = sk, bd_serviceCACertPath = filepath_Join [dir, ''service-ca.crt''],
          bd_nodes = Map.empty, bd_service = Map.empty\<rparr>"
    using assms(2) by (clarsimp simp: newBundle_def seqR_Ok Let_def case_prod_eq)
  have f: "file_laws T" using assms(1) by (simp add: cert_laws_def)
  have "siblings (filepath_Join [dir, ''service-ca.crt'']) (filepath_Join [dir, ''ca.crt''])"
    using siblingsI ca_plain by simp
  then have "te_file T w' (filepath_Join [dir, ''ca.crt'']) = Some pem"
    using file_keeps(1) [OF f n(4)] file_keeps(2) [OF f n(2)] newCA_Ok [OF assms(1) n(3)] by simp
  moreover have "te_file T w' (filepath_Join [dir, ''service-ca.crt'']) = Some spem"
    using file_keeps(2) [OF f n(4)] .
  ultimately show "bundle_inv T C t S b w'"
    using newCA_Ok [OF assms(1) n(1)] newCA_Ok [OF assms(1) n(3)] unfolding bundle_inv_def b
    by (auto elim: cached.elims)
  show "\<not> cached b l" by (cases l) (simp_all add: b)
qed

section \<open>Calls of the tests\<close>

datatype test_call =
    CallNodeIdentity string
  | CallMustNodeIdentity string
  | CallServiceE2E string string
  | CallCAPath
  | CallServiceCAPath

datatype handed_out =
    NodeFiles string IdentityConfig
  | ServiceFiles string string ServiceE2EConfig
  | NodeCAFile string
  | ServiceCAFile string

fun asked_leaf :: "test_call \<Rightarrow> test_leaf set" where
  "asked_leaf (CallNodeIdentity n) = {NodeLeaf n}"
| "asked_leaf (CallMustNodeIdentity n) = {NodeLeaf n}"
| "asked_leaf (CallServiceE2E c s) = {ServiceLeaf c s}"
| "asked_leaf CallCAPath = {}"
| "asked_leaf CallServiceCAPath = {}"

definition handing :: "('a \<Rightarrow> handed_out) \<Rightarrow> 'a test_run \<times> 's \<Rightarrow> handed_out list \<times> 's" where
  "handing f p = (case fst p of Returns x \<Rightarrow> [f x] | _ \<Rightarrow> [], snd p)"

fun perform :: "'w test_lib \<Rightarrow> crypto_lib \<Rightarrow> test_call \<Rightarrow> testcert_vars \<times> 'w \<Rightarrow> handed_out list \<times> testcert_vars \<times> 'w" where
  "perform T C (CallNodeIdentity n) s = handing (NodeFiles n) (NodeIdentity T C n s)"
| "perform T C (CallMustNodeIdentity n) s = handing (NodeFiles n) (MustNodeIdentity T C n s)"
| "perform T C (CallServiceE2E c n) s = handing (ServiceFiles c n) (ServiceE2E T C c n s)"
| "perform T C CallCAPath s = handing NodeCAFile (CAPath T C s)"
| "perform T C CallServiceCAPath s = handing ServiceCAFile (ServiceCAPath T C s)"

fun performAll :: "'w test_lib \<Rightarrow> crypto_lib \<Rightarrow> test_call list \<Rightarrow> testcert_vars \<times> 'w \<Rightarrow> handed_out list \<times> testcert_vars \<times> 'w" where
  "performAll T C [] s = ([], s)"
| "performAll T C (call # calls) s =
     (let (hs, s) = perform T C call s; (hs', s) = performAll T C calls s in (hs @ hs', s))"

text \<open>What was handed out is what the bundle has cached.\<close>

fun from_cache :: "cert_bundle \<Rightarrow> handed_out \<Rightarrow> bool" where
  "from_cache b (NodeFiles n ident) \<longleftrightarrow> ident = node_files b n \<and> cached b (NodeLeaf n)"
| "from_cache b (ServiceFiles c s e) \<longleftrightarrow> e = service_files b c s \<and> cached b (ServiceLeaf c s)"
| "from_cache b (NodeCAFile p) \<longleftrightarrow> p = bd_caCertPath b"
| "from_cache b (ServiceCAFile p) \<longleftrightarrow> p = bd_serviceCACertPath b"

fun handed_leaf :: "handed_out \<Rightarrow> test_leaf set" where
  "handed_leaf (NodeFiles n ident) = {NodeLeaf n}"
| "handed_leaf (ServiceFiles c s e) = {ServiceLeaf c s}"
| "handed_leaf (NodeCAFile p) = {}"
| "handed_leaf (ServiceCAFile p) = {}"

definition vars_inv :: "'w test_lib \<Rightarrow> crypto_lib \<Rightarrow> int \<Rightarrow> test_leaf set \<Rightarrow> handed_out list \<Rightarrow> testcert_vars \<times> 'w \<Rightarrow> bool" where
  "vars_inv T C t S hs = (\<lambda>(v, w).
     (\<not> tv_once v \<longrightarrow> tv_shared v = None) \<and>
     (case tv_shared v of
        None \<Rightarrow> hs = []
      | Some b \<Rightarrow> bundle_inv T C t S b w \<and> (\<forall>h\<in>set hs. from_cache b h \<and> handed_leaf h \<subseteq> S)))"

lemma from_cache_same:
  assumes "same_files b b'" "\<And>l. l \<in> S \<Longrightarrow> cached b l \<Longrightarrow> cached b' l" "from_cache b h" "handed_leaf h \<subseteq> S"
  shows "from_cache b' h"
  using assms(3,4) same_files_paths(5,6) [OF assms(1)] assms(1) assms(2) [of "NodeLeaf n" for n]
    assms(2) [of "ServiceLeaf c e" for c e]
  by (cases h) (auto simp: same_files_def simp del: cached.simps)

lemma bundleOnce_inv:
  assumes "cert_laws T C t" "vars_inv T C t S hs s" "bundleOnce T C s = (r, s')"
  shows "vars_inv T C t S hs s'" "r = Ok b \<Longrightarrow> b = tv_shared (fst s')"
proof -
  obtain v w where s: "s = (v, w)" by fastforce
  show "vars_inv T C t S hs s'" "r = Ok b \<Longrightarrow> b = tv_shared (fst s')"
    using assms(2,3) newBundle_inv(1) [OF assms(1)]
    by (auto simp: s bundleOnce_def vars_inv_def Let_def split: if_splits prod.splits res.splits option.splits)
qed

text \<open>A method that keeps the invariant of the bundle keeps that of the package.\<close>

lemma onBundle_inv:
  assumes "vars_inv T C t S hs (snd r)" "\<And>b. fst r = Returns b \<Longrightarrow> b = tv_shared (fst (snd r))"
    and "\<And>b w x b' w'. bundle_inv T C t S b w \<Longrightarrow> meth (b, w) = (x, b', w') \<Longrightarrow>
      bundle_inv T C t S b' w' \<and> same_files b b' \<and> (\<forall>l\<in>S. cached b l \<longrightarrow> cached b' l) \<and>
      (\<forall>y. x = Ok y \<longrightarrow> from_cache b' (f y) \<and> handed_leaf (f y) \<subseteq> S)"
    and "\<And>e y. failed e \<noteq> Returns y"
    and "handing f (onBundle r meth failed) = (hs', s')"
  shows "vars_inv T C t S (hs @ hs') s'"
proof (cases "\<exists>b. fst r = Returns (Some b)")
  case True
  then obtain b v w where r: "r = (Returns (Some b), v, w)" "tv_shared v = Some b"
    using assms(2) by (metis prod.collapse)
  obtain x b' w' where m: "meth (b, w) = (x, b', w')" by (metis prod.collapse)
  have i: "bundle_inv T C t S b w" "\<forall>h\<in>set hs. from_cache b h \<and> handed_leaf h \<subseteq> S" "tv_once v"
    using assms(1) r by (auto simp: vars_inv_def)
  note st = assms(3) [OF i(1) m]
  have old: "\<forall>h\<in>set hs. from_cache b' h \<and> handed_leaf h \<subseteq> S"
    using i(2) st from_cache_same [of b b' S] by blast
  have s': "s' = (v\<lparr>tv_shared := Some b'\<rparr>, w')" "\<forall>h\<in>set hs'. \<exists>y. x = Ok y \<and> h = f y"
    using assms(4,5) m by (auto simp: r handing_def onBundle_def split: res.splits test_run.splits)
  show ?thesis using st old s' i(3) by (fastforce simp: vars_inv_def)
next
  case False
  then have "hs' = [] \<and> s' = snd r"
    using assms(5) by (auto simp: handing_def onBundle_def split: prod.splits test_run.splits option.splits)
  then show ?thesis using assms(1) by simp
qed

lemma mustBundle_inv:
  assumes "cert_laws T C t" "vars_inv T C t S hs s"
  shows "vars_inv T C t S hs (snd (mustBundle T C s))" "vars_inv T C t S hs (snd (mustBundlePanic T C s))"
    "fst (mustBundle T C s) = Returns b \<Longrightarrow> b = tv_shared (fst (snd (mustBundle T C s)))"
    "fst (mustBundlePanic T C s) = Returns b \<Longrightarrow> b = tv_shared (fst (snd (mustBundlePanic T C s)))"
  using bundleOnce_inv [OF assms]
  by (auto simp: mustBundle_def mustBundlePanic_def split: prod.splits res.splits)

lemma perform_inv:
  assumes "cert_laws T C t" "separate T S" "vars_inv T C t S hs s" "asked_leaf call \<subseteq> S" "perform T C call s = (hs', s')"
  shows "vars_inv T C t S (hs @ hs') s'"
proof -
  note m = mustBundle_inv [OF assms(1,3)]
  have node: "bundle_inv T C t S b' w' \<and> same_files b b' \<and> (\<forall>l\<in>S. cached b l \<longrightarrow> cached b' l) \<and>
      (\<forall>y. x = Ok y \<longrightarrow> from_cache b' (NodeFiles n y) \<and> handed_leaf (NodeFiles n y) \<subseteq> S)"
    if "NodeLeaf n \<in> S" "bundle_inv T C t S b w" "nodeIdentity T n (b, w) = (x, b', w')" for n b w x b' w'
    using nodeIdentity_inv [OF assms(1,2) that(2,1,3)] that(1) same_files_paths(5) by auto
  have service: "bundle_inv T C t S b' w' \<and> same_files b b' \<and> (\<forall>l\<in>S. cached b l \<longrightarrow> cached b' l) \<and>
      (\<forall>y. x = Ok y \<longrightarrow> from_cache b' (ServiceFiles c n y) \<and> handed_leaf (ServiceFiles c n y) \<subseteq> S)"
    if "ServiceLeaf c n \<in> S" "bundle_inv T C t S b w" "serviceE2E T c n (b, w) = (x, b', w')" for c n b w x b' w'
    using serviceE2E_inv [OF assms(1,2) that(2,1,3)] that(1) same_files_paths(6) by auto
  show ?thesis
  proof (cases call)
    case (CallNodeIdentity n)
    show ?thesis
      by (rule onBundle_inv [OF m(1) m(3), of "nodeIdentity T n" "NodeFiles n"])
        (use assms(4,5) CallNodeIdentity node in \<open>auto simp: NodeIdentity_def\<close>)
  next
    case (CallMustNodeIdentity n)
    show ?thesis
      by (rule onBundle_inv [OF m(2) m(4), of "nodeIdentity T n" "NodeFiles n"])
        (use assms(4,5) CallMustNodeIdentity node in \<open>auto simp: MustNodeIdentity_def\<close>)
  next
    case (CallServiceE2E c n)
    show ?thesis
      by (rule onBundle_inv [OF m(1) m(3), of "serviceE2E T c n" "ServiceFiles c n"])
        (use assms(4,5) CallServiceE2E service in \<open>auto simp: ServiceE2E_def\<close>)
  next
    case CallCAPath
    show ?thesis
      by (rule onBundle_inv [OF m(1) m(3), of "\<lambda>(b, w). (Ok (bd_caCertPath b), b, w)" NodeCAFile])
        (use assms(5) CallCAPath in \<open>auto simp: CAPath_def same_files_def\<close>)
  next
    case CallServiceCAPath
    show ?thesis
      by (rule onBundle_inv [OF m(1) m(3), of "\<lambda>(b, w). (Ok (bd_serviceCACertPath b), b, w)" ServiceCAFile])
        (use assms(5) CallServiceCAPath in \<open>auto simp: ServiceCAPath_def same_files_def\<close>)
  qed
qed

lemma performAll_inv:
  assumes "cert_laws T C t" "separate T S"
  shows "vars_inv T C t S hs s \<Longrightarrow> (\<Union>call\<in>set calls. asked_leaf call) \<subseteq> S \<Longrightarrow> performAll T C calls s = (hs', s') \<Longrightarrow>
    vars_inv T C t S (hs @ hs') s'"
proof (induction calls arbitrary: hs s hs')
  case (Cons call calls)
  obtain h1 s1 h2 where p: "perform T C call s = (h1, s1)" "performAll T C calls s1 = (h2, s')" "hs' = h1 @ h2"
    using Cons.prems(3) by (auto simp: Let_def split: prod.splits)
  have "vars_inv T C t S (hs @ h1) s1"
    using perform_inv [OF assms Cons.prems(1) _ p(1)] Cons.prems(2) by simp
  from Cons.IH [OF this _ p(2)] show ?case using Cons.prems(2) p(3) by simp
qed simp

lemma cached_stands:
  assumes "vars_inv T C t S hs (v, w)" "h \<in> set hs"
  shows "\<exists>b. tv_shared v = Some b \<and> bundle_inv T C t S b w \<and> from_cache b h \<and> handed_leaf h \<subseteq> S"
  using assms by (auto simp: vars_inv_def split: option.splits)


section \<open>An instance\<close>

text \<open>
  A world that is a file system. A certificate is its URI behind a marker byte; it is parsed
  back by \<open>toy_x509\<close>.
\<close>

definition toy_tests :: "(string \<rightharpoonup> bytes) test_lib" where
  "toy_tests = \<lparr>te_MkdirTemp = (\<lambda>p w. (Ok ''/tmp/t'', w)),
     te_WriteFile = (\<lambda>p d w. (Ok (), w(p \<mapsto> d))),
     te_GenerateKey = (\<lambda>w. (Ok \<lparr>ek_PublicKey = [], ek_D = []\<rparr>, w)),
     te_randInt = (\<lambda>n w. (Ok 7, w)),
     te_Now = (\<lambda>w. (0, w)),
     te_CreateCertificate = (\<lambda>tmpl par pub k w.
       (if pub \<noteq> [] then Err (LibError ''public key'')
        else case ct_URIs tmpl of [] \<Rightarrow> Ok [] | [u] \<Rightarrow> Ok (1 # bytes_of u) | _ \<Rightarrow> Err (LibError ''URIs''), w)),
     te_MarshalECPrivateKey = (\<lambda>k. Ok (ek_D k)),
     te_EncodeToMemory = (\<lambda>kind d. d),
     te_ParseURL = Ok,
     te_file = (\<lambda>w. w)\<rparr>"

definition toy_x509 :: crypto_lib where
  "toy_x509 = toy_crypto\<lparr>x509_Parse := (\<lambda>der. Ok \<lparr>xc_URIs = (case der of [] \<Rightarrow> [] | _ # d \<Rightarrow> [string_of d]),
     xc_PublicKey = PubECDSA []\<rparr>)\<rparr>"

lemma toy_cert_laws: "cert_laws toy_tests toy_x509 0"
proof -
  have "file_laws toy_tests"
    by (auto simp: file_laws_def toy_tests_def siblings_def)
  moreover have "issue_laws toy_tests toy_x509 0"
    by (auto simp: issue_laws_def toy_tests_def toy_x509_def toy_crypto_def split: list.splits if_splits)
  moreover have "runs_at toy_tests 0"
    by (simp add: runs_at_def toy_tests_def timeHour_def)
  ultimately show ?thesis by (simp add: cert_laws_def)
qed

definition toy_calls :: "test_call list" where
  "toy_calls = [CallServiceCAPath, CallNodeIdentity ''n1'', CallServiceE2E ''n1-echo'' ''echo'', CallMustNodeIdentity ''n1'']"

lemma toy_calls_separate: "separate toy_tests (\<Union>call\<in>set toy_calls. asked_leaf call)"
  by (auto simp: separate_def toy_calls_def toy_tests_def inj_on_def)

lemma toy_calls_result:
  "fst (performAll toy_tests toy_x509 toy_calls (testcert_init, Map.empty)) =
     [ServiceCAFile ''/tmp/t/service-ca.crt'',
      NodeFiles ''n1'' \<lparr>ic_Cert = ''/tmp/t/n1.crt'', ic_Key = ''/tmp/t/n1.key'', ic_CA = ''/tmp/t/ca.crt''\<rparr>,
      ServiceFiles ''n1-echo'' ''echo'' \<lparr>se_Cert = ''/tmp/t/n1-echo.crt'', se_Key = ''/tmp/t/n1-echo.key''\<rparr>,
      NodeFiles ''n1'' \<lparr>ic_Cert = ''/tmp/t/n1.crt'', ic_Key = ''/tmp/t/n1.key'', ic_CA = ''/tmp/t/ca.crt''\<rparr>]"
  by code_simp


text \<open>
  The condition on file names is needed: the cache tells two services of one certificate name
  apart, but the files do not. The second call returns the paths of the first and replaces what
  they hold, and the identity handed out first is no longer accepted for its service.
\<close>

lemma shared_cert_name:
  defines "calls \<equiv> [CallServiceE2E ''n1'' ''echo'', CallServiceE2E ''n1'' ''postgres'']"
    and "e \<equiv> \<lparr>se_Cert = ''/tmp/t/n1.crt'', se_Key = ''/tmp/t/n1.key''\<rparr>"
  shows "fst (performAll toy_tests toy_x509 calls (testcert_init, Map.empty)) =
      [ServiceFiles ''n1'' ''echo'' e, ServiceFiles ''n1'' ''postgres'' e] \<and>
    (\<exists>der. snd (snd (performAll toy_tests toy_x509 calls (testcert_init, Map.empty))) (se_Cert e) = Some der \<and>
       VerifyServiceCertificate toy_x509 [der] (Some []) ''echo'' \<noteq> Ok () \<and>
       VerifyServiceCertificate toy_x509 [der] (Some []) ''postgres'' = Ok ())"
proof -
  have a: "fst (performAll toy_tests toy_x509 calls (testcert_init, Map.empty)) =
      [ServiceFiles ''n1'' ''echo'' e, ServiceFiles ''n1'' ''postgres'' e]"
    unfolding calls_def e_def by code_simp
  have b: "snd (snd (performAll toy_tests toy_x509 calls (testcert_init, Map.empty))) (se_Cert e) =
      Some (1 # bytes_of ''spiffe://qoru/service/postgres'')"
    unfolding calls_def e_def by code_simp
  have v: "VerifyServiceCertificate toy_x509 [1 # bytes_of ''spiffe://qoru/service/postgres''] (Some []) s = Ok () \<longleftrightarrow>
      s = ''postgres''" for s
    by (auto simp: VerifyServiceCertificate_def toy_x509_def toy_crypto_def ServiceNameFromCertificate_def
        spiffeServicePrefix_def hasPrefix_def trimPrefix_def)
  show ?thesis using a b v by simp
qed

end
