(* ===== verification/Echo_Server.thy ===== *)
theory Echo_Server
  imports Proxyio_Properties
begin

text \<open>
  The echo server used in development (\<^verbatim>\<open>dev/echo-server/main.go\<close>): an accept loop that goes on
  after an error, and for each connection a goroutine that copies it to itself with \<open>io.Copy\<close> and
  closes it. As in \<open>Proxyio\<close>, the copy is a program counter; a step is one call on the connection.
\<close>

datatype echo_pc =
    EchoReading
  | EchoWriting bytes "unit res"
  | EchoCopied "go_error option"
  | EchoClosed "go_error option"
  | EchoCrashed

definition echoAfterRead :: "unit res \<Rightarrow> echo_pc" where
  "echoAfterRead r =
     (case r of
        Ok _ \<Rightarrow> EchoReading
      | Err e \<Rightarrow> EchoCopied (if e = EOF then None else Some e)
      | Panic \<Rightarrow> EchoCrashed)"

definition echoStep :: "'s net_ops \<Rightarrow> nat \<Rightarrow> echo_pc \<times> 's \<Rightarrow> (echo_pc \<times> 's) option" where
  "echoStep conn n = (\<lambda>(pc, s).
     case pc of
       EchoReading \<Rightarrow>
         (case no_Read conn n s of ((bs, r), s) \<Rightarrow>
            Some (if length bs > 0 then EchoWriting bs r else echoAfterRead r, s))
     | EchoWriting bs r \<Rightarrow>
         (case no_Write conn bs s of
            None \<Rightarrow> None
          | Some ((written, w), s) \<Rightarrow>
              Some (case w of
                  Err e \<Rightarrow> EchoCopied (Some e)
                | Panic \<Rightarrow> EchoCrashed
                | Ok _ \<Rightarrow> if written \<noteq> length bs then EchoCopied (Some ErrShortWrite) else echoAfterRead r, s))
     | EchoCopied err \<Rightarrow> Some (EchoClosed err, snd (no_Close conn s))
     | _ \<Rightarrow> None)"

inductive echo_run :: "'s net_ops \<Rightarrow> 's \<Rightarrow> echo_pc \<times> 's \<Rightarrow> bool" for conn s0 where
  begin_echo: "echo_run conn s0 (EchoReading, s0)"
| step_echo: "echo_run conn s0 c \<Longrightarrow> 0 < n \<Longrightarrow> echoStep conn n c = Some c' \<Longrightarrow> echo_run conn s0 c'"

text \<open>\<open>main\<close>: what the listener returns one after the other; \<open>log.Fatal\<close> exits with status 1.\<close>

datatype 'c echo_accept = EchoAccepted 'c | EchoAcceptFailed go_error

fun echoAcceptLoop :: "'c echo_accept list \<Rightarrow> 'c list" where
  "echoAcceptLoop [] = []"
| "echoAcceptLoop (EchoAccepted conn # later) = conn # echoAcceptLoop later"
| "echoAcceptLoop (EchoAcceptFailed err # later) = echoAcceptLoop later"

definition echoMain :: "(string \<Rightarrow> unit res) \<Rightarrow> string option \<Rightarrow> 'c echo_accept list \<Rightarrow> 'c list res" where
  "echoMain netListen listenFlag accepts =
     bindR (netListen (case listenFlag of Some addr \<Rightarrow> addr | None \<Rightarrow> ''127.0.0.1:9000'')) (\<lambda>_.
     Ok (echoAcceptLoop accepts))"

section \<open>What comes back\<close>

text \<open>What a state of the copy says of the bytes \<open>d\<close> still to come and \<open>x\<close> sent back, out of \<open>d0\<close>.\<close>

fun echoed :: "echo_pc \<Rightarrow> bytes \<Rightarrow> bytes \<Rightarrow> bytes \<Rightarrow> bool" where
  "echoed EchoReading d0 d x \<longleftrightarrow> d0 = x @ d"
| "echoed (EchoWriting bs r) d0 d x \<longleftrightarrow> d0 = x @ bs @ d \<and> r \<noteq> Panic \<and> (r = Err EOF \<longrightarrow> d = [])"
| "echoed (EchoCopied err) d0 d x \<longleftrightarrow> prefix x d0 \<and> (err = None \<longrightarrow> x = d0)"
| "echoed (EchoClosed err) d0 d x \<longleftrightarrow> prefix x d0 \<and> (err = None \<longrightarrow> x = d0)"
| "echoed EchoCrashed d0 d x \<longleftrightarrow> False"

lemma echoAfterRead_echoed:
  "d0 = x @ d \<Longrightarrow> r \<noteq> Panic \<Longrightarrow> (r = Err EOF \<longrightarrow> d = []) \<Longrightarrow> echoed (echoAfterRead r) d0 d x"
  by (cases r) (auto simp: echoAfterRead_def)

text \<open>
  The bytes sent back are always a prefix of the bytes received, in order and unaltered, and all
  of them once the copy has ended without an error. The goroutine does not panic.
\<close>

theorem echo_faithful:
  assumes "net_laws conn J" "J s0 d0 w0" "echo_run conn s0 c"
  shows "\<exists>d x. J (snd c) d (w0 @ x) \<and> echoed (fst c) d0 d x \<and> prefix x d0"
proof -
  have "\<exists>d x. J (snd c) d (w0 @ x) \<and> echoed (fst c) d0 d x"
    using assms(3)
  proof induction
    case begin_echo
    show ?case using assms(2) by (intro exI [of _ d0] exI [of _ "[]"]) simp
  next
    case (step_echo c n c')
    obtain pc s where c: "c = (pc, s)" by fastforce
    obtain d x where i: "J s d (w0 @ x)" "echoed pc d0 d x" using step_echo.IH c by auto
    note laws = assms(1) [unfolded net_laws_def]
    show ?case
    proof (cases pc)
      case EchoReading
      obtain bs r s' where r: "no_Read conn n s = ((bs, r), s')" by (metis prod.collapse)
      obtain d' where d': "r \<noteq> Panic" "bs = [] \<longrightarrow> r \<noteq> Ok ()" "d = bs @ d'" "r = Err EOF \<longrightarrow> d' = []" "J s' d' (w0 @ x)"
        using read_lawD [OF conjunct1 [OF laws] i(1) step_echo.hyps(2) r] by blast
      have "echoed (fst c') d0 d' x \<and> snd c' = s'"
        using step_echo.hyps(3) EchoReading c r i(2) d' echoAfterRead_echoed [of d0 x d' r]
        by (auto simp: echoStep_def)
      then show ?thesis using d'(5) by metis
    next
      case (EchoWriting bs r)
      consider s' where "no_Write conn bs s = Some ((length bs, Ok ()), s')" "J s' d ((w0 @ x) @ bs)"
        | k e s' j where "no_Write conn bs s = Some ((k, Err e), s')" "J s' d ((w0 @ x) @ take j bs)"
        using write_lawD [OF conjunct1 [OF conjunct2 [OF laws]] i(1), of bs] by blast
      then show ?thesis
      proof cases
        case 1
        then have "echoed (fst c') d0 d (x @ bs) \<and> snd c' = s'"
          using step_echo.hyps(3) EchoWriting c i(2) echoAfterRead_echoed [of d0 "x @ bs" d r] by (auto simp: echoStep_def)
        then show ?thesis using 1(2) by (metis append.assoc)
      next
        case 2
        have "prefix (x @ take j bs) d0"
          using i(2) EchoWriting by (auto simp: take_is_prefix)
        then have "echoed (fst c') d0 d (x @ take j bs) \<and> snd c' = s'"
          using step_echo.hyps(3) EchoWriting c 2(1) by (auto simp: echoStep_def)
        then show ?thesis using 2(2) by (metis append.assoc)
      qed
    next
      case (EchoCopied err)
      obtain d' where "J (snd (no_Close conn s)) d' (w0 @ x)"
        using close_cancel [of "no_Close conn" J] laws i(1) unfolding cancel_law_def by blast
      moreover have "echoed (fst c') d0 d' x \<and> snd c' = snd (no_Close conn s)"
        using step_echo.hyps(3) EchoCopied c i(2) by (auto simp: echoStep_def)
      ultimately show ?thesis by metis
    qed (use step_echo.hyps(3) c in \<open>auto simp: echoStep_def\<close>)
  qed
  moreover have "echoed pc d0 d x \<Longrightarrow> prefix x d0" for pc d x by (cases pc) auto
  ultimately show ?thesis by blast
qed

end
