(* ===== verification/Spec2Isabelle.thy ===== *)
theory Spec2Isabelle
  imports Overlay Server_Maintain Server_Refusals Server_Main_Properties Client_Main_Properties Proxyio_Encrypted Cli_Properties
    Testcert_Properties Echo_Server
begin

text \<open>
  A verification library for qoru, a QUIC overlay that forwards TCP connections.

  \<^bold>\<open>The program.\<close> A client listens on local TCP ports. For each local connection it opens a QUIC
  stream to a server and sends a connect request that names a service and a route. A server
  relays the request to the next hop of the route, or connects it to the service's target, in
  plain text or after an end-to-end handshake between client and egress; the answer travels back,
  and then bytes are proxied. Peers prove a node identity with mutual TLS, services a service
  identity in the end-to-end handshake. Paths below are those under \<^verbatim>\<open>src/internal\<close>.

  \<^bold>\<open>Theories and code.\<close>
  \<^item> \<open>Qoru_Prelude\<close>: outcomes of Go calls (\<open>'a res\<close>: value, error, panic), error chains, byte
    streams, loops with errors, and their lemmas. \<open>Crypto\<close>, \<open>Quic\<close>: the parameters that stand for
    Go's crypto packages and for quic-go.
  \<^item> \<open>RequestId\<close>: \<^verbatim>\<open>requestid/requestid.go\<close>. \<open>Protocol\<close>, \<open>Protocol_E2E\<close>: \<^verbatim>\<open>protocol/protocol.go\<close>, the
    encoder and decoder of every message; lemmas in \<open>Protocol_Lemmas\<close>, \<open>Protocol_E2E_Lemmas\<close>,
    properties in \<open>Protocol_Properties\<close>.
  \<^item> \<open>E2E_Record\<close>: \<^verbatim>\<open>e2e/record.go\<close>, encrypted reader and writer, with a 64 bit sequence number.
    \<open>E2E_Handshake\<close>: \<^verbatim>\<open>e2e/handshake.go\<close>, transcripts, signed messages, key derivation.
  \<^item> \<open>Identity\<close>: \<^verbatim>\<open>identity\<close>. \<open>Config\<close>, \<open>Config_Validate\<close>: \<^verbatim>\<open>config/config.go\<close>, \<^verbatim>\<open>config/validate.go\<close>.
    \<open>Cli\<close>: \<^verbatim>\<open>config/load.go\<close>, the command tree of \<^verbatim>\<open>cli/root.go\<close>, its commands, and \<open>Execute\<close> with the
    exit status. \<open>Error_Text\<close>: the texts of errors, \<open>err.Error()\<close>, with the formats and \<^verbatim>\<open>%q\<close>.
  \<^item> \<open>Server_Policy\<close>, \<open>Server_Peers\<close>, \<open>Server_Maintain\<close>, \<open>Server_E2E\<close>, \<open>Server_Connection\<close>,
    \<open>Server_Main\<close>: \<^verbatim>\<open>server/policy.go\<close>, \<^verbatim>\<open>peers.go\<close>, \<^verbatim>\<open>e2e.go\<close>, \<^verbatim>\<open>connection.go\<close> and \<^verbatim>\<open>dial.go\<close>, \<^verbatim>\<open>server.go\<close>.
  \<^item> \<open>Client_Routes\<close>, \<open>Client_Session\<close>, \<open>Client_E2E\<close>, \<open>Client_Connection\<close>, \<open>Client_Main\<close>:
    \<^verbatim>\<open>client/routes.go\<close>, \<^verbatim>\<open>session.go\<close> and \<^verbatim>\<open>stream.go\<close>, \<^verbatim>\<open>e2e.go\<close>, \<^verbatim>\<open>client.go\<close>.
  \<^item> \<open>Proxyio\<close>: \<^verbatim>\<open>proxyio/proxy.go\<close> and the \<^verbatim>\<open>proxy.go\<close> of client and server, as two program
    counters over a shared state; \<open>Proxyio_Encrypted\<close> joins it to the record layer.
  \<^item> \<open>Testcert\<close>: \<^verbatim>\<open>testcert/testcert.go\<close>, the certificates the tests run with. \<open>Echo_Server\<close>:
    the echo server under \<^verbatim>\<open>dev/echo-server\<close>.
  \<^item> \<open>Overlay\<close> composes the handlers of several nodes; this theory states what spans them.

  A Go function is a HOL function that takes and returns the state it changes; a struct is a
  record; a method whose lock is released on the way is split at that point
  (\<open>connectionStart\<close>, \<open>connectionFinish\<close>). Every early return, error and possible panic is a branch.

  \<^bold>\<open>What the lemmas show.\<close> The codecs round-trip and are total (\<open>frame_codec\<close> is the locale all
  message types interpret). Records arrive in order, complete and unaltered, or the reader stops.
  Transcripts determine context and keys; an honest handshake completes with a channel in each
  direction, and an accepted one is tied to the run of the other side. Validation accepts
  exactly the declarative well-formed configurations and never panics. The server's dispatcher
  admits exactly the declarative access rules; every stream it handles ends closed or proxied, and
  the words of a refusal always fit a frame (\<open>Server_Refusals\<close>).
  The peers' and the client's sessions keep one live connection per peer in every interleaving,
  back off (locale \<open>reconnect_backoff\<close>, interpreted twice), and a peer that is to be dialled is
  dialled again. The client tries its candidates in order (locale \<open>upstream_session\<close> is what it
  relies on). The byte proxy is a faithful pipe that returns (locale \<open>byte_endpoint\<close>, interpreted
  for TCP connections, QUIC streams and encrypted streams); with unforged records the tunnel of two
  proxies is a pipe too, and its end is not protected (\<open>truncation_unnoticed\<close>). Along a route,
  each node receives the client's request less the hops behind it, and the client reads the
  answer of the node that decided; at an egress that serves it, the handshake completes across
  the relays (\<open>session_over_route\<close>).
  Test certificates stay accepted by the program's checks.

  \<^bold>\<open>Bounds.\<close> There is no fuel. \<open>encWriteLoop\<close> is a partial function because a zero record limit would
  not end; it is total for every writer \<open>NewEncryptedWriter\<close> makes. The proxy's runs are
  unbounded sequences of steps, and \<open>proxy_returns\<close> bounds them by the bytes to copy. Times are
  unbounded integers in nanoseconds; sequence numbers, lengths on the wire and frame fields have
  their width.

  \<^bold>\<open>Parameters.\<close> AES-GCM, SHA-256, HKDF, X25519, signatures, X.509 parsing and verification, UUIDs,
  files, YAML, TCP and QUIC are arguments. Their assumed laws are named (\<open>gcm_laws\<close>,
  \<open>x25519_laws\<close>, \<open>hash_laws\<close>, \<open>uuid_laws\<close>, \<open>net_laws\<close>, \<open>raw_laws\<close> and the like) and each is met by
  a concrete instance. The integrity of AES-GCM is the hypothesis \<open>unforged\<close>: the records a
  reader accepts were sealed by the other end. The command-line parser (cobra), which runes are printable and the layout of a time are arguments.

  \<^bold>\<open>Not modelled.\<close> Logging, its default loggers and its attributes (pure output); the delivery of
  signals, which only end the context the runners get; callbacks for tests; the timing of wait
  groups (whether they end in time is an argument); data races (the code's locks are taken as
  given). A handler's proxying phase is the byte proxy, not part of \<open>handleStream\<close>.
\<close>

section \<open>Routes\<close>


definition toy_overlay :: overlay where
  "toy_overlay = \<lparr>ov_lib = (\<lambda>n. (toy_server_lib (stream_on [] EOF []))\<lparr>sl_drawn := Ok [4]\<rparr>),
     ov_rt = (\<lambda>n. if n = ''a'' then toy_runtime
       else toy_runtime\<lparr>rt_cfg := sample_peer_config\<lparr>cfg_NodeID := ''b'',
              cfg_Peers := [\<lparr>pc_ID = ''a'', pc_Address = [], pc_Dial = False\<rparr>], cfg_Services := [toy_service]\<rparr>,
              rt_e2e := Some toy_server\<rparr>)\<rparr>"

lemma toy_overlay_uuid: "sl_U (ov_lib toy_overlay n) = raw_uuid"
  by (simp add: toy_overlay_def toy_server_lib_def)

lemma toy_candidate_encrypted: "effectiveE2ERequired toy_candidate"
  by (simp add: toy_candidate_def effectiveE2ERequired_def qoru_consts)

lemma toy_candidate_request: "clientRequest ''abcdefpaaaaaaaaa'' toy_candidate = sample_request"
  using toy_candidate_encrypted by (simp add: clientRequest_def tcpRequest_def toy_candidate_def sample_request_def)

lemma toy_candidate_bytes: "\<exists>d. encodes_request raw_uuid d (clientRequest ''abcdefpaaaaaaaaa'' toy_candidate)"
  using incoming_request [OF sample_request_valid sample_request_fits]
  unfolding toy_candidate_request encodes_request_def by metis

lemma toy_overlay_willing: "willing_relays toy_overlay ''c'' (clientRequest ''abcdefpaaaaaaaaa'' toy_candidate)"
proof -
  obtain ps' where ps: "OpenStream toy_crypto toy_files toy_env toy_env (\<lambda>c. Ok (stream_on [] EOF [])) ''b''
      (newPeerSessions sample_peer_config {}) = (Ok (stream_on [] EOF []), ps')"
    using toy_OpenStream [of "stream_on [] EOF []"] by (elim exE)
  have route: "rq_Route sample_request = [''a'', ''b'']" by (simp add: sample_request_def)
  have "at_hop 0 sample_request = sample_request" by simp
  then have may: "may_relay (rt_cfg toy_runtime) ''c'' (at_hop 0 sample_request)"
    using sample_request_relayed by (simp only: toy_runtime_def serverRuntime.select_convs)
  show ?thesis
    unfolding toy_candidate_request willing_relays_def
  proof (intro allI impI)
    fix i
    assume "Suc i < length (rq_Route sample_request)"
    then have i: "i = 0" by (simp add: route)
    have rt: "ov_rt toy_overlay ''a'' = toy_runtime" "rt_peers toy_runtime = Some (newPeerSessions sample_peer_config {})"
      by (simp_all add: toy_overlay_def toy_runtime_def)
    have o: "OpenStream (sl_C (ov_lib toy_overlay ''a'')) (sl_F (ov_lib toy_overlay ''a'')) (sl_E1 (ov_lib toy_overlay ''a''))
        (sl_E2 (ov_lib toy_overlay ''a'')) (sl_openSync (ov_lib toy_overlay ''a'')) ''b''
        (newPeerSessions sample_peer_config {}) = (Ok (stream_on [] EOF []), ps')"
      using ps by (simp add: toy_overlay_def toy_server_lib_def)
    have n: "rq_Route sample_request ! 0 = ''a''" "rq_Route sample_request ! Suc 0 = ''b''" "(''c'' # rq_Route sample_request) ! 0 = ''c''"
      by (simp_all add: route)
    show "let node = rq_Route sample_request ! i; L = ov_lib toy_overlay node in
         may_relay (rt_cfg (ov_rt toy_overlay node)) ((''c'' # rq_Route sample_request) ! i) (at_hop i sample_request) \<and>
         (\<exists>ps st ps'. rt_peers (ov_rt toy_overlay node) = Some ps \<and>
            OpenStream (sl_C L) (sl_F L) (sl_E1 L) (sl_E2 L) (sl_openSync L) (rq_Route sample_request ! Suc i) ps = (Ok st, ps'))"
      unfolding i n Let_def rt using may o by blast
  qed
qed


text \<open>
  C17: requests get through. If every relay of the route admits its previous hop and can open a
  stream to its next hop, the client's request reaches the last node of the route, whatever
  that node then decides, and the conversation ends with the client reading that decision.
\<close>

theorem route_completed:
  assumes "\<forall>n. sl_U (ov_lib N n) = U" "uuid_laws U" "sel_route c \<noteq> []"
    and "encodes_request U d (clientRequest rid c)" "willing_relays N client (clientRequest rid c)"
  shows "\<exists>path ans own. conversation N client (hd (sel_route c)) d path ans \<and> map fst path = sel_route c \<and>
    encodes_request U (snd (last path)) (at_hop (length (sel_route c) - 1) (clientRequest rid c)) \<and>
    decides N ((client # sel_route c) ! (length (sel_route c) - 1)) (last (sel_route c)) (snd (last path)) own \<and>
    (\<forall>resp. answers_with own resp \<longrightarrow> answers_with ans resp)"
proof -
  have U: "\<And>n. sl_U (ov_lib N n) = U" using assms(1) by blast
  obtain path ans where c: "conversation N client (hd (sel_route c)) d path ans" "map fst path = sel_route c"
    using request_arrives [OF U assms(2) _ assms(3,5,4)] by auto
  then have len: "length path = length (sel_route c)" "path \<noteq> []" using assms(3) by (metis length_map, auto)
  then have l: "last path = path ! (length (sel_route c) - 1)" "fst (last path) = last (sel_route c)"
    using c(2) last_map [of path fst] by (simp_all add: last_conv_nth)
  from conversation_path [OF U assms(2) c(1) assms(4)] assms(3) len
  have "encodes_request U (snd (path ! (length (sel_route c) - 1))) (at_hop (length (sel_route c) - 1) (clientRequest rid c))"
    "\<exists>own. decides N ((client # sel_route c) ! (length (sel_route c) - 1)) (last (sel_route c)) (snd (last path)) own \<and>
      (\<forall>resp. answers_with own resp \<longrightarrow> answers_with ans resp)"
    using l(2) by simp_all
  then show ?thesis using c l(1) by metis
qed

theorem route_completed_witness:
  "\<exists>d path ans. conversation toy_overlay ''c'' ''a'' d path ans \<and> map fst path = [''a'', ''b'']"
proof -
  obtain d where d: "encodes_request raw_uuid d (clientRequest ''abcdefpaaaaaaaaa'' toy_candidate)"
    using toy_candidate_bytes by blast
  have r: "sel_route toy_candidate = [''a'', ''b'']" by (simp add: toy_candidate_def)
  show ?thesis
    using route_completed [OF _ raw_uuid_laws _ d toy_overlay_willing] toy_overlay_uuid r by fastforce
qed

text \<open>
  C1: an encrypted session is set up across the overlay. Let the client's request for an
  encrypted candidate have reached the egress through any relays, the egress serve end-to-end
  requests for this service, reach its target, and client and egress be honest with
  certificates the other side trusts. Then there are bytes \<open>cb\<close> and \<open>sb\<close> such that the client,
  which sends its request and \<open>cb\<close> and reads any accepting answer followed by \<open>sb\<close>, starts to
  proxy, and the egress, which receives what the relays made of the request followed by \<open>cb\<close>,
  accepts, sends \<open>sb\<close>, learns the client's node identity and starts to proxy to the target.
  Their fresh readers and writers share keys and transcript, as \<open>tunnel_delivers\<close> asks.
\<close>

theorem session_over_route:
  assumes "\<forall>n. sl_U (ov_lib N n) = U" "uuid_laws U" "sel_route c \<noteq> []" "effectiveE2ERequired c"
    and "valid_request U (clientRequest rid c)" "request_size (clientRequest rid c) \<le> MaxPayloadSize" "canonical_id U rid"
    and "encodes_request U d (clientRequest rid c)"
    and "conversation N client (hd (sel_route c)) d path ans0" "map fst path = sel_route c"
    and "L = ov_lib N (last (sel_route c))" "rt = ov_rt N (last (sel_route c))"
    and "peer = (client # sel_route c) ! (length (sel_route c) - 1)"
    and "may_terminate (rt_cfg rt) peer (at_hop (length (sel_route c) - 1) (clientRequest rid c))"
    and "findService (rt_cfg rt) ''tcp'' (sel_service c) = Ok svc" "isServiceE2EConfigured svc"
    and "rt_e2e rt = Some ert" "sl_drawn L = Ok b" "dialTCP L (sv_Target svc) = Ok target"
    and "honest_run (sl_C L) U crt ert svc (clientContext rid c) ident a b"
  shows "\<exists>q ok cb sb kc ks th. encodes_request U q (clientRequest rid c) \<and> encodes_response ok okResponse \<and>
    (\<forall>ans resp rest e j s. encodes_response ans resp \<longrightarrow> rs_OK resp \<longrightarrow>
       tryCandidate (sl_C L) U (Some crt) (Ok a) (opens U (ans @ sb @ rest) e) rid j c s =
         (Connected (LocalProxyEncrypted c (stream_on rest e (q @ cb)) (fresh_reader \<lparr>is_data = rest, is_end = e\<rparr> ks th)
            (fresh_writer \<lparr>os_data = q @ cb, os_script = []\<rparr> kc th)), s)) \<and>
    (\<forall>rest e. handleStream L rt peer (stream_on (snd (last path) @ cb @ rest) e []) =
       (ProxyEncrypted \<lparr>hr_reader = fresh_reader \<lparr>is_data = rest, is_end = e\<rparr> kc th,
          hr_writer = fresh_writer \<lparr>os_data = ok @ sb, os_script = []\<rparr> ks th, hr_clientID = ident\<rparr> target,
        stream_on rest e (ok @ sb), None, rt))"
proof -
  let ?i = "length (sel_route c) - 1"
  have U: "\<And>n. sl_U (ov_lib N n) = U" using assms(1) by blast
  have len: "length path = length (sel_route c)" "path \<noteq> []" using assms(3,10) by (metis length_map, auto)
  have "encodes_request U (snd (path ! ?i)) (at_hop ?i (clientRequest rid c))"
    using conversation_path [OF U assms(2) assms(9,8)] assms(3) len by simp
  then have e: "encodes_request U (snd (last path)) (at_hop ?i (clientRequest rid c))"
    using len by (simp add: last_conv_nth)
  have s: "streamAction (rt_cfg rt) peer (at_hop ?i (clientRequest rid c)) = ServeE2E"
    using assms(4,14) e2e_admits by simp
  have "sl_U L = U" using assms(11) U by simp
  from session_lemma [OF assms(2) this assms(4-7) e s assms(15-20)] show ?thesis .
qed

theorem session_over_route_witness:
  "\<exists>d path ans0. (conversation toy_overlay ''c'' ''a'' d path ans0 \<and> map fst path = [''a'', ''b'']) \<and>
    (\<exists>q ok cb sb kc ks th. encodes_request raw_uuid q sample_request \<and> encodes_response ok okResponse \<and>
    tryCandidate toy_crypto raw_uuid (Some toy_client) (Ok [3]) (opens raw_uuid (ok @ sb @ []) EOF) ''abcdefpaaaaaaaaa'' 0 toy_candidate () =
         (Connected (LocalProxyEncrypted toy_candidate (stream_on [] EOF (q @ cb)) (fresh_reader \<lparr>is_data = [], is_end = EOF\<rparr> ks th)
            (fresh_writer \<lparr>os_data = q @ cb, os_script = []\<rparr> kc th)), ()) \<and>
    handleStream (ov_lib toy_overlay ''b'') (ov_rt toy_overlay ''b'') ''a'' (stream_on (snd (last path) @ cb @ []) EOF []) =
       (ProxyEncrypted \<lparr>hr_reader = fresh_reader \<lparr>is_data = [], is_end = EOF\<rparr> kc th,
          hr_writer = fresh_writer \<lparr>os_data = ok @ sb, os_script = []\<rparr> ks th, hr_clientID = ''c1''\<rparr> 3,
        stream_on [] EOF (ok @ sb), None, ov_rt toy_overlay ''b''))"
proof -
  let ?rid = "''abcdefpaaaaaaaaa''"
  let ?req = "clientRequest ?rid toy_candidate"
  let ?L = "ov_lib toy_overlay ''b''" and ?rt = "ov_rt toy_overlay ''b''"
  obtain d where d: "encodes_request raw_uuid d ?req" using toy_candidate_bytes by blast
  have r: "sel_route toy_candidate = [''a'', ''b'']" "rq_Route ?req = [''a'', ''b'']" by (simp_all add: toy_candidate_def)
  obtain path ans0 where c: "conversation toy_overlay ''c'' (hd (sel_route toy_candidate)) d path ans0"
      "map fst path = sel_route toy_candidate"
    using request_arrives [OF toy_overlay_uuid raw_uuid_laws r(2) _ toy_overlay_willing d] r(1) by auto
  have L: "sl_C ?L = toy_crypto" "sl_drawn ?L = Ok [4]" "?L = ov_lib toy_overlay (last (sel_route toy_candidate))"
      "?rt = ov_rt toy_overlay (last (sel_route toy_candidate))" "''a'' = (''c'' # sel_route toy_candidate) ! (length (sel_route toy_candidate) - 1)"
    by (simp_all add: toy_overlay_def toy_server_lib_def toy_candidate_def)
  have rq: "valid_request raw_uuid ?req" "request_size ?req \<le> MaxPayloadSize"
    using sample_request_valid sample_request_fits by (simp_all add: toy_candidate_request)
  have id: "canonical_id raw_uuid ?rid"
    by (rule raw_uuid_canonical) (use sample_request_valid in \<open>simp add: valid_request_def sample_request_def\<close>)
  have t: "may_terminate (rt_cfg ?rt) ''a'' (at_hop (length (sel_route toy_candidate) - 1) ?req)"
    by (simp add: may_terminate_def toy_overlay_def toy_candidate_def sample_peer_config_def toy_runtime_def)
  have "address ''h:7''" unfolding address_def by code_simp
  then have svc: "findService (rt_cfg ?rt) ''tcp'' (sel_service toy_candidate) = Ok toy_service" "isServiceE2EConfigured toy_service"
      "rt_e2e ?rt = Some toy_server" "dialTCP ?L (sv_Target toy_service) = Ok 3"
    by (simp_all add: findService_def isServiceE2EConfigured_def toy_overlay_def toy_service_def toy_candidate_def
        dialTCP_def toy_server_lib_def)
  have h: "honest_run (sl_C ?L) raw_uuid toy_client toy_server toy_service (clientContext ?rid toy_candidate) ''c1'' [3] [4]"
    using toy_honest L(1) by simp
  have u: "\<forall>n. sl_U (ov_lib toy_overlay n) = raw_uuid" using toy_overlay_uuid by blast
  have ne: "sel_route toy_candidate \<noteq> []" using r(1) by simp
  have okok: "rs_OK okResponse" by (simp add: okResponse_def)
  have "\<exists>q ok cb sb kc ks th. encodes_request raw_uuid q ?req \<and> encodes_response ok okResponse \<and>
    tryCandidate (sl_C ?L) raw_uuid (Some toy_client) (Ok [3]) (opens raw_uuid (ok @ sb @ []) EOF) ?rid 0 toy_candidate () =
         (Connected (LocalProxyEncrypted toy_candidate (stream_on [] EOF (q @ cb)) (fresh_reader \<lparr>is_data = [], is_end = EOF\<rparr> ks th)
            (fresh_writer \<lparr>os_data = q @ cb, os_script = []\<rparr> kc th)), ()) \<and>
    handleStream ?L ?rt ''a'' (stream_on (snd (last path) @ cb @ []) EOF []) =
       (ProxyEncrypted \<lparr>hr_reader = fresh_reader \<lparr>is_data = [], is_end = EOF\<rparr> kc th,
          hr_writer = fresh_writer \<lparr>os_data = ok @ sb, os_script = []\<rparr> ks th, hr_clientID = ''c1''\<rparr> 3,
        stream_on [] EOF (ok @ sb), None, ?rt)"
    using session_over_route [OF u raw_uuid_laws ne toy_candidate_encrypted rq id d c L(3-5) t svc(1-3) L(2) svc(4) h]
    apply (elim ex_forward)
    apply (elim conjE)
    apply (intro conjI, assumption, assumption)
     apply ((erule allE)+, erule impE, assumption, erule impE, rule okok, assumption)
    apply ((erule allE)+, assumption)
    done
  moreover have "conversation toy_overlay ''c'' ''a'' d path ans0 \<and> map fst path = [''a'', ''b'']"
    using c r(1) by simp
  ultimately show ?thesis
    unfolding L(1) toy_candidate_request by (rule exI [of _ d, OF exI [of _ path, OF exI [of _ ans0, OF conjI]], rotated])
qed

section \<open>Encryption that depends on the route\<close>

lemma refused_as: "streamAction cfg peer req = Refuse code e \<Longrightarrow> refusal_code cfg peer req = ConnectCodeAccessDenied \<Longrightarrow>
    streamAction cfg peer req = Refuse ConnectCodeAccessDenied e"
  using refuse_code by metis

text \<open>
  C31: \<open>e2e: auto\<close> serves a service with end-to-end keys in plain text only without a route. On the
  egress itself, a candidate in mode \<open>auto\<close> with no route is sent in plain text and, for a
  peer the service admits, served; the same candidate with the one-hop route that names the
  same server is also sent in plain text, and always refused as access denied.
\<close>

theorem auto_one_hop_refused:
  assumes "sel_e2eMode c = ForwardE2EAuto" "sel_egress c \<in> {[], cfg_NodeID cfg}" "cfg_NodeID cfg \<noteq> []"
    and "findService cfg ''tcp'' (sel_service c) = Ok svc" "isServiceE2EConfigured svc"
    and "sv_Peers svc = [] \<or> peer \<in> set (sv_Peers svc)"
  shows "(sel_route c = [] \<longrightarrow> streamAction cfg peer (clientRequest rid c) = ServePlain svc) \<and>
    (sel_route c = [cfg_NodeID cfg] \<longrightarrow>
       (\<exists>e. streamAction cfg peer (clientRequest rid c) = Refuse ConnectCodeAccessDenied e))"
proof (intro conjI impI)
  assume route: "sel_route c = []"
  then have "\<not> effectiveE2ERequired c" using assms(1) by (simp add: effectiveE2ERequired_def qoru_consts)
  then have "may_use_plain cfg peer (clientRequest rid c) svc"
    using assms route by (auto simp: may_use_plain_def may_terminate_def)
  then show "streamAction cfg peer (clientRequest rid c) = ServePlain svc" using plain_admits by blast
next
  assume route: "sel_route c = [cfg_NodeID cfg]"
  let ?req = "clientRequest rid c"
  have plain: "\<not> effectiveE2ERequired c" using assms(1) route by (simp add: effectiveE2ERequired_def qoru_consts)
  have "streamAction cfg peer ?req \<noteq> Relay" using relay_admits [of cfg peer ?req] route by (simp add: may_relay_def)
  moreover have "streamAction cfg peer ?req \<noteq> ServeE2E" using e2e_admits [of cfg peer ?req] plain by simp
  moreover have "streamAction cfg peer ?req \<noteq> ServePlain s" for s
    using plain_admits [of cfg peer ?req s] assms(4,5) route by (auto simp: may_use_plain_def)
  ultimately obtain code e where r: "streamAction cfg peer ?req = Refuse code e"
    by (cases "streamAction cfg peer ?req") auto
  have "\<exists>s\<in>set (cfg_Services cfg). sv_Protocol s = ''tcp'' \<and> sv_Name s = sel_service c"
    using findService_Ok [OF assms(4)] by auto
  then have "refusal_code cfg peer ?req = ConnectCodeAccessDenied"
    using assms(2) route by (auto simp: refusal_code_def)
  then show "\<exists>e. streamAction cfg peer ?req = Refuse ConnectCodeAccessDenied e"
    using refused_as [OF r] by blast
qed

theorem auto_one_hop_refused_witness:
  "\<exists>cfg svc. streamAction cfg ''b'' (clientRequest ''abcdefpaaaaaaaaa'' (toy_candidate\<lparr>sel_e2eMode := ''auto'', sel_egress := [], sel_route := []\<rparr>)) = ServePlain svc \<and>
     (\<exists>e. streamAction cfg ''b'' (clientRequest ''abcdefpaaaaaaaaa'' (toy_candidate\<lparr>sel_e2eMode := ''auto'', sel_egress := [], sel_route := [''a'']\<rparr>)) =
       Refuse ConnectCodeAccessDenied e)"
proof -
  let ?svc = "\<lparr>sv_Name = ''echo'', sv_Protocol = ''tcp'', sv_Target = ''h:1'', sv_Peers = [],
     sv_E2E = \<lparr>se_Cert = ''x'', se_Key = ''y''\<rparr>\<rparr>"
  let ?cfg = "sample_peer_config\<lparr>cfg_Services := [?svc]\<rparr>"
  let ?c = "\<lambda>route. toy_candidate\<lparr>sel_e2eMode := ''auto'', sel_egress := [], sel_route := route\<rparr>"
  have h: "sel_e2eMode (?c route) = ForwardE2EAuto" "sel_egress (?c route) \<in> {[], cfg_NodeID ?cfg}" "cfg_NodeID ?cfg \<noteq> []"
    "findService ?cfg ''tcp'' (sel_service (?c route)) = Ok ?svc" "isServiceE2EConfigured ?svc"
    "sv_Peers ?svc = [] \<or> ''b'' \<in> set (sv_Peers ?svc)" for route
    by (simp_all add: toy_candidate_def qoru_consts findService_def isServiceE2EConfigured_def sample_peer_config_def)
  have "streamAction ?cfg ''b'' (clientRequest ''abcdefpaaaaaaaaa'' (?c [])) = ServePlain ?svc"
    using auto_one_hop_refused [OF h] by simp
  moreover have "\<exists>e. streamAction ?cfg ''b'' (clientRequest ''abcdefpaaaaaaaaa'' (?c [''a''])) = Refuse ConnectCodeAccessDenied e"
    using auto_one_hop_refused [OF h] by (simp add: sample_peer_config_def)
  ultimately show ?thesis by blast
qed

end
